theory Spec2Isabelle
  imports Main "HOL-Library.Word" "HOL-Library.Multiset"
begin

section \<open>The DEFLATE_QPL codec: data model\<close>

text \<open>
  The development follows \<^verbatim>\<open>src/Compression/CompressionCodecDeflateQpl.cpp\<close>.
  \<^verbatim>\<open>UInt32\<close> and \<^verbatim>\<open>Int32\<close> are both 32-bit words: the conversions between them that
  the source performs (\<^verbatim>\<open>Int32 res = ...; return res;\<close>) keep the bit pattern, and the only
  comparison made on an \<^verbatim>\<open>Int32\<close> is equality with \<^verbatim>\<open>RET_ERROR\<close>.
\<close>

type_synonym UInt32 = "32 word"
type_synonym Int32 = "32 word"

datatype qpl_status = QPL_STS_OK | QPL_STS_BEING_PROCESSED | QPL_STS_OTHER nat

datatype qpl_path_t = qpl_path_hardware | qpl_path_software

datatype qpl_operation = qpl_op_compress | qpl_op_decompress

datatype qpl_compression_levels = qpl_default_level | qpl_other_level nat

datatype qpl_flag = QPL_FLAG_FIRST | QPL_FLAG_LAST | QPL_FLAG_DYNAMIC_HUFFMAN | QPL_FLAG_OMIT_VERIFY

text \<open>The fields of \<^verbatim>\<open>qpl_job\<close> that the codec reads or writes. Pointers are addresses.\<close>

record qpl_job =
  op :: qpl_operation
  next_in_ptr :: nat
  next_out_ptr :: nat
  available_in :: UInt32
  available_out :: UInt32
  level :: qpl_compression_levels
  flags :: "qpl_flag set"
  total_out :: UInt32

subsection \<open>DeflateQplJobHWPool\<close>

text \<open>
  \<^verbatim>\<open>hw_jobs_buffer\<close> holds \<^verbatim>\<open>max_hw_jobs\<close> job objects and \<^verbatim>\<open>hw_job_ptr_locks\<close> as many
  atomic flags; a \<^verbatim>\<open>qpl_job *\<close> into the buffer is the index of its job object.
  \<^verbatim>\<open>random_engine\<close> is the sequence of raw values the engine will still produce.
\<close>

record DeflateQplJobHWPool =
  max_hw_jobs :: UInt32
  job_pool_ready :: bool
  hw_jobs_buffer :: "qpl_job list"
  hw_job_ptr_locks :: "bool list"
  random_engine :: "nat \<Rightarrow> nat"

definition isJobPoolReady :: "DeflateQplJobHWPool \<Rightarrow> bool" where
  "isJobPoolReady p = job_pool_ready p"

text \<open>
  \<^verbatim>\<open>distribution(random_engine)\<close> with
  \<^verbatim>\<open>distribution = std::uniform_int_distribution<int>(0, max_hw_jobs - 1)\<close>: the next raw value
  of the engine mapped into the closed range, and the engine advanced by one draw.
\<close>

definition distribution :: "DeflateQplJobHWPool \<Rightarrow> UInt32 \<times> DeflateQplJobHWPool" where
  "distribution p =
     (of_nat (random_engine p 0 mod unat (max_hw_jobs p)),
      p\<lparr>random_engine := (\<lambda>k. random_engine p (Suc k))\<rparr>)"

text \<open>
  \<^verbatim>\<open>tryLockJob\<close> and \<^verbatim>\<open>unLockJob\<close> assert \<^verbatim>\<open>index < max_hw_jobs\<close> and then access the flag
  array. \<open>None\<close> stands for a call that does not return: the assertion fails, or the access
  is outside the array. \<^verbatim>\<open>compare_exchange_strong(expected = false, true)\<close> is one atomic
  step: it sets a clear flag and reports whether it did.
\<close>

definition tryLockJob :: "DeflateQplJobHWPool \<Rightarrow> UInt32 \<Rightarrow> (bool \<times> DeflateQplJobHWPool) option" where
  "tryLockJob p index =
     (if index < max_hw_jobs p \<and> unat index < length (hw_job_ptr_locks p) then
        (if hw_job_ptr_locks p ! unat index then Some (False, p)
         else Some (True, p\<lparr>hw_job_ptr_locks := (hw_job_ptr_locks p)[unat index := True]\<rparr>))
      else None)"

definition unLockJob :: "DeflateQplJobHWPool \<Rightarrow> UInt32 \<Rightarrow> DeflateQplJobHWPool option" where
  "unLockJob p index =
     (if index < max_hw_jobs p \<and> unat index < length (hw_job_ptr_locks p) then
        Some (p\<lparr>hw_job_ptr_locks := (hw_job_ptr_locks p)[unat index := False]\<rparr>)
      else None)"

text \<open>
  The \<^verbatim>\<open>while (!tryLockJob(index))\<close> loop of \<^verbatim>\<open>acquireJob\<close>, entered with the current
  \<^verbatim>\<open>retry\<close> and \<^verbatim>\<open>index\<close>. It yields the locked index, or \<open>None\<close> for the
  \<^verbatim>\<open>return nullptr\<close> inside the loop, together with the value of \<^verbatim>\<open>retry\<close> on leaving:
  \<^verbatim>\<open>retry\<close> is incremented once after every failed \<^verbatim>\<open>tryLockJob\<close>, so it counts them.
\<close>

partial_function (option) acquireJob_while ::
  "DeflateQplJobHWPool \<Rightarrow> UInt32 \<Rightarrow> UInt32 \<Rightarrow> (UInt32 option \<times> UInt32 \<times> DeflateQplJobHWPool) option" where
  "acquireJob_while p retry index =
     (case tryLockJob p index of
        None \<Rightarrow> None
      | Some r \<Rightarrow>
          if fst r then Some (Some index, retry, snd r)
          else (let d = distribution (snd r); retry' = retry + 1 in
                if retry' > max_hw_jobs (snd d) then Some (None, retry', snd d)
                else acquireJob_while (snd d) retry' (fst d)))"

text \<open>
  \<^verbatim>\<open>acquireJob(job_id)\<close>: the result is \<open>None\<close> for \<^verbatim>\<open>nullptr\<close>, and otherwise the
  pointer (the index of the job object) together with the value stored in \<^verbatim>\<open>job_id\<close>.
\<close>

definition acquireJob ::
  "DeflateQplJobHWPool \<Rightarrow> ((nat \<times> UInt32) option \<times> DeflateQplJobHWPool) option" where
  "acquireJob p =
     (if isJobPoolReady p then
        (let d = distribution p in
         case acquireJob_while (snd d) 0 (fst d) of
           None \<Rightarrow> None
         | Some (None, retry, p') \<Rightarrow> Some (None, p')
         | Some (Some index, retry, p') \<Rightarrow>
             (if index < max_hw_jobs p' then Some (Some (unat index, max_hw_jobs p' - index), p')
              else None))
      else Some (None, p))"

definition releaseJob :: "DeflateQplJobHWPool \<Rightarrow> UInt32 \<Rightarrow> DeflateQplJobHWPool option" where
  "releaseJob p job_id =
     (if isJobPoolReady p then unLockJob p (max_hw_jobs p - job_id) else Some p)"


subsection \<open>The external collaborators\<close>

text \<open>
  The QPL library, the CPU's pause instruction and the page size are not part of the
  repository: they are parameters of the model. A QPL primitive reads and writes the job
  object it is given and the machine (the memory, and the state \<open>'d\<close> of the library and
  the accelerator), and yields a status. \<^verbatim>\<open>qpl_submit_job\<close> and \<^verbatim>\<open>qpl_check_job\<close> are only
  called on pool jobs and also receive the job pointer (the index of the job object).
  \<^verbatim>\<open>RET_ERROR\<close> is declared in the codec's header, which is not among the sources.
\<close>

type_synonym mem = "nat \<Rightarrow> 8 word"

type_synonym 'd machine = "mem \<times> 'd"

record 'd externals =
  qpl_init_job :: "qpl_path_t \<Rightarrow> 'd machine \<Rightarrow> qpl_status \<times> qpl_job \<times> 'd machine"
  qpl_fini_job :: "qpl_job option \<Rightarrow> 'd machine \<Rightarrow> 'd machine"
  qpl_execute_job :: "qpl_path_t \<Rightarrow> qpl_job \<Rightarrow> 'd machine \<Rightarrow> qpl_status \<times> qpl_job \<times> 'd machine"
  qpl_submit_job :: "nat \<Rightarrow> qpl_job \<Rightarrow> 'd machine \<Rightarrow> qpl_status \<times> qpl_job \<times> 'd machine"
  qpl_check_job :: "nat \<Rightarrow> qpl_job \<Rightarrow> 'd machine \<Rightarrow> qpl_status \<times> qpl_job \<times> 'd machine"
  tpause :: "'d machine \<Rightarrow> 'd machine"
  getPageSize :: nat
  RET_ERROR :: Int32

text \<open>
  Every call of a QPL primitive is recorded, in order, in \<open>calls\<close>: the job as configured
  at the call, and for \<^verbatim>\<open>qpl_check_job\<close> the status and the job object it leaves.
\<close>

datatype qpl_call =
    Call_init qpl_path_t
  | Call_fini "qpl_job option"
  | Call_execute qpl_path_t qpl_job
  | Call_submit nat qpl_job
  | Call_check nat qpl_status qpl_job

text \<open>The process: the pool singleton \<^verbatim>\<open>DeflateQplJobHWPool::instance()\<close> and the machine.\<close>

record 'd process =
  pool :: DeflateQplJobHWPool
  memory :: mem
  device :: 'd
  calls :: "qpl_call list"

definition do_qpl_init_job ::
  "'d externals \<Rightarrow> qpl_path_t \<Rightarrow> 'd process \<Rightarrow> qpl_status \<times> qpl_job \<times> 'd process" where
  "do_qpl_init_job E path s =
     (case qpl_init_job E path (memory s, device s) of
        (status, job, m, d) \<Rightarrow>
          (status, job, s\<lparr>memory := m, device := d, calls := calls s @ [Call_init path]\<rparr>))"

definition do_qpl_fini_job :: "'d externals \<Rightarrow> qpl_job option \<Rightarrow> 'd process \<Rightarrow> 'd process" where
  "do_qpl_fini_job E job s =
     (case qpl_fini_job E job (memory s, device s) of
        (m, d) \<Rightarrow> s\<lparr>memory := m, device := d, calls := calls s @ [Call_fini job]\<rparr>)"

definition do_qpl_execute_job ::
  "'d externals \<Rightarrow> qpl_path_t \<Rightarrow> qpl_job \<Rightarrow> 'd process \<Rightarrow> qpl_status \<times> qpl_job \<times> 'd process" where
  "do_qpl_execute_job E path job s =
     (case qpl_execute_job E path job (memory s, device s) of
        (status, job', m, d) \<Rightarrow>
          (status, job', s\<lparr>memory := m, device := d, calls := calls s @ [Call_execute path job]\<rparr>))"

definition do_qpl_submit_job ::
  "'d externals \<Rightarrow> nat \<Rightarrow> qpl_job \<Rightarrow> 'd process \<Rightarrow> qpl_status \<times> qpl_job \<times> 'd process" where
  "do_qpl_submit_job E job_ptr job s =
     (case qpl_submit_job E job_ptr job (memory s, device s) of
        (status, job', m, d) \<Rightarrow>
          (status, job', s\<lparr>memory := m, device := d, calls := calls s @ [Call_submit job_ptr job]\<rparr>))"

definition do_qpl_check_job ::
  "'d externals \<Rightarrow> nat \<Rightarrow> qpl_job \<Rightarrow> 'd process \<Rightarrow> qpl_status \<times> qpl_job \<times> 'd process" where
  "do_qpl_check_job E job_ptr job s =
     (case qpl_check_job E job_ptr job (memory s, device s) of
        (status, job', m, d) \<Rightarrow>
          (status, job',
           s\<lparr>memory := m, device := d, calls := calls s @ [Call_check job_ptr status job']\<rparr>))"

definition do_tpause :: "'d externals \<Rightarrow> 'd process \<Rightarrow> 'd process" where
  "do_tpause E s = (case tpause E (memory s, device s) of (m, d) \<Rightarrow> s\<lparr>memory := m, device := d\<rparr>)"

text \<open>The job object behind a pool pointer, and a write through the pointer.\<close>

definition load_job :: "'d process \<Rightarrow> nat \<Rightarrow> qpl_job" where
  "load_job s job_ptr = hw_jobs_buffer (pool s) ! job_ptr"

definition store_job :: "nat \<Rightarrow> qpl_job \<Rightarrow> 'd process \<Rightarrow> 'd process" where
  "store_job job_ptr job s =
     s\<lparr>pool := (pool s)\<lparr>hw_jobs_buffer := (hw_jobs_buffer (pool s))[job_ptr := job]\<rparr>\<rparr>"

subsection \<open>SoftwareCodecDeflateQpl\<close>

datatype ErrorCodes = CANNOT_COMPRESS | CANNOT_DECOMPRESS

text \<open>An exception carries its error code and the QPL status quoted in its message.\<close>

datatype Exception = Exception ErrorCodes qpl_status

text \<open>\<^verbatim>\<open>sw_job\<close> is \<open>None\<close> while the pointer is null, and the job object otherwise.\<close>

record SoftwareCodecDeflateQpl =
  sw_job :: "qpl_job option"

definition SoftwareCodecDeflateQpl_destructor ::
  "'d externals \<Rightarrow> SoftwareCodecDeflateQpl \<Rightarrow> 'd process \<Rightarrow> 'd process" where
  "SoftwareCodecDeflateQpl_destructor E sw s =
     (if sw_job sw = None then do_qpl_fini_job E (sw_job sw) s else s)"

definition getJobCodecPtr ::
  "'d externals \<Rightarrow> SoftwareCodecDeflateQpl \<Rightarrow> 'd process \<Rightarrow>
     (Exception + qpl_job) \<times> SoftwareCodecDeflateQpl \<times> 'd process" where
  "getJobCodecPtr E sw s =
     (case sw_job sw of
        None \<Rightarrow>
          (case do_qpl_init_job E qpl_path_software s of
             (status, job, s') \<Rightarrow>
               if status \<noteq> QPL_STS_OK
               then (Inl (Exception CANNOT_COMPRESS status), sw\<lparr>sw_job := Some job\<rparr>, s')
               else (Inr job, sw\<lparr>sw_job := Some job\<rparr>, s'))
      | Some job \<Rightarrow> (Inr job, sw, s))"

definition SoftwareCodecDeflateQpl_doCompressData ::
  "'d externals \<Rightarrow> nat \<Rightarrow> UInt32 \<Rightarrow> nat \<Rightarrow> UInt32 \<Rightarrow> SoftwareCodecDeflateQpl \<Rightarrow> 'd process \<Rightarrow>
     (Exception + UInt32) \<times> SoftwareCodecDeflateQpl \<times> 'd process" where
  "SoftwareCodecDeflateQpl_doCompressData E source source_sz dest dest_size sw s =
     (case getJobCodecPtr E sw s of
        (Inl e, sw', s') \<Rightarrow> (Inl e, sw', s')
      | (Inr job_ptr, sw', s') \<Rightarrow>
          (case do_qpl_execute_job E qpl_path_software
                  (job_ptr\<lparr>op := qpl_op_compress, next_in_ptr := source, next_out_ptr := dest,
                     available_in := source_sz, available_out := dest_size,
                     level := qpl_default_level,
                     flags := {QPL_FLAG_FIRST, QPL_FLAG_DYNAMIC_HUFFMAN, QPL_FLAG_LAST,
                               QPL_FLAG_OMIT_VERIFY}\<rparr>) s' of
             (status, job, s'') \<Rightarrow>
               if status \<noteq> QPL_STS_OK
               then (Inl (Exception CANNOT_COMPRESS status), sw'\<lparr>sw_job := Some job\<rparr>, s'')
               else (Inr (total_out job), sw'\<lparr>sw_job := Some job\<rparr>, s'')))"

definition SoftwareCodecDeflateQpl_doDecompressData ::
  "'d externals \<Rightarrow> nat \<Rightarrow> UInt32 \<Rightarrow> nat \<Rightarrow> UInt32 \<Rightarrow> SoftwareCodecDeflateQpl \<Rightarrow> 'd process \<Rightarrow>
     (Exception + unit) \<times> SoftwareCodecDeflateQpl \<times> 'd process" where
  "SoftwareCodecDeflateQpl_doDecompressData E source source_sz dest uncompressed_size sw s =
     (case getJobCodecPtr E sw s of
        (Inl e, sw', s') \<Rightarrow> (Inl e, sw', s')
      | (Inr job_ptr, sw', s') \<Rightarrow>
          (case do_qpl_execute_job E qpl_path_software
                  (job_ptr\<lparr>op := qpl_op_decompress, next_in_ptr := source, next_out_ptr := dest,
                     available_in := source_sz, available_out := uncompressed_size,
                     flags := {QPL_FLAG_FIRST, QPL_FLAG_LAST}\<rparr>) s' of
             (status, job, s'') \<Rightarrow>
               if status \<noteq> QPL_STS_OK
               then (Inl (Exception CANNOT_DECOMPRESS status), sw'\<lparr>sw_job := Some job\<rparr>, s'')
               else (Inr (), sw'\<lparr>sw_job := Some job\<rparr>, s'')))"


subsection \<open>HardwareCodecDeflateQpl\<close>

text \<open>
  \<^verbatim>\<open>decomp_async_job_map\<close> is a \<^verbatim>\<open>std::map<UInt32, qpl_job *>\<close>: the entries in increasing
  order of their keys, no key twice. An iterator is a position in this list, and
  \<^verbatim>\<open>end()\<close> is its length.
\<close>

record HardwareCodecDeflateQpl =
  decomp_async_job_map :: "(UInt32 \<times> nat) list"

text \<open>\<^verbatim>\<open>std::map::insert\<close>: an entry whose key is present already is not inserted.\<close>

fun map_insert :: "UInt32 \<times> nat \<Rightarrow> (UInt32 \<times> nat) list \<Rightarrow> (UInt32 \<times> nat) list" where
  "map_insert kv [] = [kv]"
| "map_insert kv (x # xs) =
     (if fst kv < fst x then kv # x # xs
      else if fst kv = fst x then x # xs
      else x # map_insert kv xs)"

text \<open>\<^verbatim>\<open>it = map.erase(it)\<close>: the entry leaves, and the position is that of its successor.\<close>

definition map_erase :: "nat \<Rightarrow> (UInt32 \<times> nat) list \<Rightarrow> (UInt32 \<times> nat) list" where
  "map_erase it m = take it m @ drop (Suc it) m"

definition HardwareCodecDeflateQpl_doCompressData ::
  "'d externals \<Rightarrow> nat \<Rightarrow> UInt32 \<Rightarrow> nat \<Rightarrow> UInt32 \<Rightarrow> 'd process \<Rightarrow> (Int32 \<times> 'd process) option" where
  "HardwareCodecDeflateQpl_doCompressData E source source_sz dest dest_size s =
     (case acquireJob (pool s) of
        None \<Rightarrow> None
      | Some (None, p) \<Rightarrow> Some (RET_ERROR E, s\<lparr>pool := p\<rparr>)
      | Some (Some (job_ptr, job_id), p) \<Rightarrow>
          (case do_qpl_execute_job E qpl_path_hardware
                  ((load_job (s\<lparr>pool := p\<rparr>) job_ptr)
                     \<lparr>op := qpl_op_compress, next_in_ptr := source, next_out_ptr := dest,
                      available_in := source_sz, level := qpl_default_level,
                      available_out := dest_size,
                      flags := {QPL_FLAG_FIRST, QPL_FLAG_DYNAMIC_HUFFMAN, QPL_FLAG_LAST,
                                QPL_FLAG_OMIT_VERIFY}\<rparr>) (s\<lparr>pool := p\<rparr>) of
             (status, job, s1) \<Rightarrow>
               if status = QPL_STS_OK then
                 (case releaseJob (pool (store_job job_ptr job s1)) job_id of
                    None \<Rightarrow> None
                  | Some p' \<Rightarrow> Some (total_out job, (store_job job_ptr job s1)\<lparr>pool := p'\<rparr>))
               else
                 (case releaseJob (pool (store_job job_ptr job s1)) job_id of
                    None \<Rightarrow> None
                  | Some p' \<Rightarrow> Some (RET_ERROR E, (store_job job_ptr job s1)\<lparr>pool := p'\<rparr>))))"

text \<open>
  The busy wait of \<^verbatim>\<open>doDecompressDataSynchronous\<close>:
  \<^verbatim>\<open>do { _tpause(...); status = qpl_check_job(job_ptr); } while (status == QPL_STS_BEING_PROCESSED)\<close>.
  It has no bound: the result is \<open>None\<close> when the job never leaves the status.
\<close>

partial_function (option) doDecompressDataSynchronous_wait ::
  "'d externals \<Rightarrow> nat \<Rightarrow> qpl_job \<Rightarrow> 'd process \<Rightarrow> (qpl_status \<times> qpl_job \<times> 'd process) option" where
  "doDecompressDataSynchronous_wait E job_ptr job s =
     (case do_qpl_check_job E job_ptr job (do_tpause E s) of
        (status, job', s') \<Rightarrow>
          if status = QPL_STS_BEING_PROCESSED then doDecompressDataSynchronous_wait E job_ptr job' s'
          else Some (status, job', s'))"

definition HardwareCodecDeflateQpl_doDecompressDataSynchronous ::
  "'d externals \<Rightarrow> nat \<Rightarrow> UInt32 \<Rightarrow> nat \<Rightarrow> UInt32 \<Rightarrow> 'd process \<Rightarrow> (Int32 \<times> 'd process) option" where
  "HardwareCodecDeflateQpl_doDecompressDataSynchronous E source source_sz dest uncompressed_size s =
     (case acquireJob (pool s) of
        None \<Rightarrow> None
      | Some (None, p) \<Rightarrow> Some (RET_ERROR E, s\<lparr>pool := p\<rparr>)
      | Some (Some (job_ptr, job_id), p) \<Rightarrow>
          (case do_qpl_submit_job E job_ptr
                  ((load_job (s\<lparr>pool := p\<rparr>) job_ptr)
                     \<lparr>op := qpl_op_decompress, next_in_ptr := source, next_out_ptr := dest,
                      available_in := source_sz, available_out := uncompressed_size,
                      flags := {QPL_FLAG_FIRST, QPL_FLAG_LAST}\<rparr>) (s\<lparr>pool := p\<rparr>) of
             (status, job, s1) \<Rightarrow>
               if status \<noteq> QPL_STS_OK then
                 (case releaseJob (pool (store_job job_ptr job s1)) job_id of
                    None \<Rightarrow> None
                  | Some p' \<Rightarrow> Some (RET_ERROR E, (store_job job_ptr job s1)\<lparr>pool := p'\<rparr>))
               else
                 (case doDecompressDataSynchronous_wait E job_ptr job s1 of
                    None \<Rightarrow> None
                  | Some (status', job', s2) \<Rightarrow>
                      if status' \<noteq> QPL_STS_OK then
                        (case releaseJob (pool (store_job job_ptr job' s2)) job_id of
                           None \<Rightarrow> None
                         | Some p' \<Rightarrow> Some (RET_ERROR E, (store_job job_ptr job' s2)\<lparr>pool := p'\<rparr>))
                      else
                        (case releaseJob (pool (store_job job_ptr job' s2)) job_id of
                           None \<Rightarrow> None
                         | Some p' \<Rightarrow>
                             Some (total_out job', (store_job job_ptr job' s2)\<lparr>pool := p'\<rparr>)))))"

definition HardwareCodecDeflateQpl_doDecompressDataAsynchronous ::
  "'d externals \<Rightarrow> nat \<Rightarrow> UInt32 \<Rightarrow> nat \<Rightarrow> UInt32 \<Rightarrow> HardwareCodecDeflateQpl \<Rightarrow> 'd process \<Rightarrow>
     (Int32 \<times> HardwareCodecDeflateQpl \<times> 'd process) option" where
  "HardwareCodecDeflateQpl_doDecompressDataAsynchronous E source source_sz dest uncompressed_size hw s =
     (case acquireJob (pool s) of
        None \<Rightarrow> None
      | Some (None, p) \<Rightarrow> Some (RET_ERROR E, hw, s\<lparr>pool := p\<rparr>)
      | Some (Some (job_ptr, job_id), p) \<Rightarrow>
          (case do_qpl_submit_job E job_ptr
                  ((load_job (s\<lparr>pool := p\<rparr>) job_ptr)
                     \<lparr>op := qpl_op_decompress, next_in_ptr := source, next_out_ptr := dest,
                      available_in := source_sz, available_out := uncompressed_size,
                      flags := {QPL_FLAG_FIRST, QPL_FLAG_LAST}\<rparr>) (s\<lparr>pool := p\<rparr>) of
             (status, job, s1) \<Rightarrow>
               if status = QPL_STS_OK then
                 Some (job_id,
                       hw\<lparr>decomp_async_job_map := map_insert (job_id, job_ptr) (decomp_async_job_map hw)\<rparr>,
                       store_job job_ptr job s1)
               else
                 (case releaseJob (pool (store_job job_ptr job s1)) job_id of
                    None \<Rightarrow> None
                  | Some p' \<Rightarrow> Some (RET_ERROR E, hw, (store_job job_ptr job s1)\<lparr>pool := p'\<rparr>))))"

text \<open>
  The \<^verbatim>\<open>while (n_jobs_processing)\<close> loop of \<^verbatim>\<open>flushAsynchronousDecompressRequests\<close>, entered
  with the current \<^verbatim>\<open>n_jobs_processing\<close> and iterator. The software codec is the one the
  hardware codec refers to (\<^verbatim>\<open>sw_codec\<close>); an exception it throws leaves the loop and the
  function at once. Dereferencing \<^verbatim>\<open>end()\<close> has no defined result (\<open>None\<close>).
\<close>

partial_function (option) flushAsynchronousDecompressRequests_while ::
  "'d externals \<Rightarrow> nat \<Rightarrow> nat \<Rightarrow> HardwareCodecDeflateQpl \<Rightarrow> SoftwareCodecDeflateQpl \<Rightarrow> 'd process \<Rightarrow>
     ((Exception + unit) \<times> HardwareCodecDeflateQpl \<times> SoftwareCodecDeflateQpl \<times> 'd process) option" where
  "flushAsynchronousDecompressRequests_while E n_jobs_processing it hw sw s =
     (if n_jobs_processing = 0 then Some (Inr (), hw, sw, s)
      else if length (decomp_async_job_map hw) \<le> it then None
      else
        (case decomp_async_job_map hw ! it of
           (job_id, job_ptr) \<Rightarrow>
             (case do_qpl_check_job E job_ptr (load_job s job_ptr) s of
                (status, job, s1) \<Rightarrow>
                  if status = QPL_STS_BEING_PROCESSED then
                    (if Suc it = length (decomp_async_job_map hw)
                     then flushAsynchronousDecompressRequests_while E n_jobs_processing 0 hw sw
                            (do_tpause E (store_job job_ptr job s1))
                     else flushAsynchronousDecompressRequests_while E n_jobs_processing (Suc it) hw sw
                            (store_job job_ptr job s1))
                  else
                    (case (if status \<noteq> QPL_STS_OK
                           then SoftwareCodecDeflateQpl_doDecompressData E
                                  (next_in_ptr job) (available_in job)
                                  (next_out_ptr job) (available_out job) sw (store_job job_ptr job s1)
                           else (Inr (), sw, store_job job_ptr job s1)) of
                       (Inl e, sw', s2) \<Rightarrow> Some (Inl e, hw, sw', s2)
                     | (Inr u, sw', s2) \<Rightarrow>
                         (case releaseJob (pool s2) job_id of
                            None \<Rightarrow> None
                          | Some p' \<Rightarrow>
                              if n_jobs_processing - 1 \<le> 0 then
                                Some (Inr (),
                                      hw\<lparr>decomp_async_job_map := map_erase it (decomp_async_job_map hw)\<rparr>,
                                      sw', s2\<lparr>pool := p'\<rparr>)
                              else if it = length (map_erase it (decomp_async_job_map hw)) then
                                flushAsynchronousDecompressRequests_while E (n_jobs_processing - 1) 0
                                  (hw\<lparr>decomp_async_job_map := map_erase it (decomp_async_job_map hw)\<rparr>)
                                  sw' (do_tpause E (s2\<lparr>pool := p'\<rparr>))
                              else
                                flushAsynchronousDecompressRequests_while E (n_jobs_processing - 1) it
                                  (hw\<lparr>decomp_async_job_map := map_erase it (decomp_async_job_map hw)\<rparr>)
                                  sw' (s2\<lparr>pool := p'\<rparr>))))))"

definition HardwareCodecDeflateQpl_flushAsynchronousDecompressRequests ::
  "'d externals \<Rightarrow> HardwareCodecDeflateQpl \<Rightarrow> SoftwareCodecDeflateQpl \<Rightarrow> 'd process \<Rightarrow>
     ((Exception + unit) \<times> HardwareCodecDeflateQpl \<times> SoftwareCodecDeflateQpl \<times> 'd process) option" where
  "HardwareCodecDeflateQpl_flushAsynchronousDecompressRequests E hw sw s =
     flushAsynchronousDecompressRequests_while E (length (decomp_async_job_map hw)) 0 hw sw s"

subsection \<open>CompressionCodecDeflateQpl\<close>

datatype CodecMode = Synchronous | Asynchronous | SoftwareFallback

record CompressionCodecDeflateQpl =
  sw_codec :: SoftwareCodecDeflateQpl
  hw_codec :: HardwareCodecDeflateQpl
  decompress_mode :: CodecMode

definition getDecompressMode :: "CompressionCodecDeflateQpl \<Rightarrow> CodecMode" where
  "getDecompressMode c = decompress_mode c"

definition setDecompressMode :: "CodecMode \<Rightarrow> CompressionCodecDeflateQpl \<Rightarrow> CompressionCodecDeflateQpl" where
  "setDecompressMode mode c = c\<lparr>decompress_mode := mode\<rparr>"

definition getMaxCompressedDataSize :: "UInt32 \<Rightarrow> UInt32" where
  "getMaxCompressedDataSize uncompressed_size =
     uncompressed_size + drop_bit 12 uncompressed_size + drop_bit 14 uncompressed_size
       + drop_bit 25 uncompressed_size + 13"

text \<open>
  \<^verbatim>\<open>__msan_unpoison\<close> only informs the memory sanitizer and is left out. The result of
  the hardware codec is kept in an \<^verbatim>\<open>Int32\<close> and compared with \<^verbatim>\<open>RET_ERROR\<close>; an exception
  of the software codec passes through to the caller.
\<close>

definition CompressionCodecDeflateQpl_doCompressData ::
  "'d externals \<Rightarrow> nat \<Rightarrow> UInt32 \<Rightarrow> nat \<Rightarrow> CompressionCodecDeflateQpl \<Rightarrow> 'd process \<Rightarrow>
     ((Exception + UInt32) \<times> CompressionCodecDeflateQpl \<times> 'd process) option" where
  "CompressionCodecDeflateQpl_doCompressData E source source_sz dest c s =
     (case (if isJobPoolReady (pool s)
            then HardwareCodecDeflateQpl_doCompressData E source source_sz dest
                   (getMaxCompressedDataSize source_sz) s
            else Some (RET_ERROR E, s)) of
        None \<Rightarrow> None
      | Some (res, s1) \<Rightarrow>
          if res = RET_ERROR E then
            (case SoftwareCodecDeflateQpl_doCompressData E source source_sz dest
                    (getMaxCompressedDataSize source_sz) (sw_codec c) s1 of
               (r, sw', s2) \<Rightarrow> Some (r, c\<lparr>sw_codec := sw'\<rparr>, s2))
          else Some (Inr res, c, s1))"

text \<open>
  \<^verbatim>\<open>touchBufferWithZeroFilling\<close> stores a zero byte at \<^verbatim>\<open>buffer\<close>, \<^verbatim>\<open>buffer + page\<close>, ... below
  \<^verbatim>\<open>buffer + buffer_size\<close>. With a page size of zero the pointer never advances.
\<close>

definition touchBufferWithZeroFilling :: "nat \<Rightarrow> nat \<Rightarrow> UInt32 \<Rightarrow> mem \<Rightarrow> mem option" where
  "touchBufferWithZeroFilling page buffer buffer_size m =
     (if buffer_size = 0 then Some m
      else if page = 0 then None
      else Some (fold (\<lambda>k m'. m'(buffer + k * page := 0))
                   [0 ..< (unat buffer_size + page - 1) div page] m))"

definition CompressionCodecDeflateQpl_doDecompressData ::
  "'d externals \<Rightarrow> nat \<Rightarrow> UInt32 \<Rightarrow> nat \<Rightarrow> UInt32 \<Rightarrow> CompressionCodecDeflateQpl \<Rightarrow> 'd process \<Rightarrow>
     ((Exception + unit) \<times> CompressionCodecDeflateQpl \<times> 'd process) option" where
  "CompressionCodecDeflateQpl_doDecompressData E source source_sz dest uncompressed_size c s0 =
     (case touchBufferWithZeroFilling (getPageSize E) dest uncompressed_size (memory s0) of
        None \<Rightarrow> None
      | Some m \<Rightarrow>
          (let s = s0\<lparr>memory := m\<rparr> in
           case getDecompressMode c of
             Synchronous \<Rightarrow>
               (if isJobPoolReady (pool s) then
                  (case HardwareCodecDeflateQpl_doDecompressDataSynchronous E source source_sz dest
                          uncompressed_size s of
                     None \<Rightarrow> None
                   | Some (res, s1) \<Rightarrow>
                       if res = RET_ERROR E then
                         (case SoftwareCodecDeflateQpl_doDecompressData E source source_sz dest
                                 uncompressed_size (sw_codec c) s1 of
                            (r, sw', s2) \<Rightarrow> Some (r, c\<lparr>sw_codec := sw'\<rparr>, s2))
                       else Some (Inr (), c, s1))
                else
                  (case SoftwareCodecDeflateQpl_doDecompressData E source source_sz dest
                          uncompressed_size (sw_codec c) s of
                     (r, sw', s2) \<Rightarrow> Some (r, c\<lparr>sw_codec := sw'\<rparr>, s2)))
           | Asynchronous \<Rightarrow>
               (case (if isJobPoolReady (pool s)
                      then HardwareCodecDeflateQpl_doDecompressDataAsynchronous E source source_sz dest
                             uncompressed_size (hw_codec c) s
                      else Some (RET_ERROR E, hw_codec c, s)) of
                  None \<Rightarrow> None
                | Some (res, hw', s1) \<Rightarrow>
                    if res = RET_ERROR E then
                      (case SoftwareCodecDeflateQpl_doDecompressData E source source_sz dest
                              uncompressed_size (sw_codec c) s1 of
                         (r, sw', s2) \<Rightarrow> Some (r, c\<lparr>sw_codec := sw', hw_codec := hw'\<rparr>, s2))
                    else Some (Inr (), c\<lparr>hw_codec := hw'\<rparr>, s1))
           | SoftwareFallback \<Rightarrow>
               (case SoftwareCodecDeflateQpl_doDecompressData E source source_sz dest
                       uncompressed_size (sw_codec c) s of
                  (r, sw', s2) \<Rightarrow> Some (r, c\<lparr>sw_codec := sw'\<rparr>, s2))))"

text \<open>
  \<^verbatim>\<open>flushAsynchronousDecompressRequests\<close> of the codec: an exception thrown while the
  hardware codec drains its map leaves the function before \<^verbatim>\<open>setDecompressMode\<close>.
\<close>

definition CompressionCodecDeflateQpl_flushAsynchronousDecompressRequests ::
  "'d externals \<Rightarrow> CompressionCodecDeflateQpl \<Rightarrow> 'd process \<Rightarrow>
     ((Exception + unit) \<times> CompressionCodecDeflateQpl \<times> 'd process) option" where
  "CompressionCodecDeflateQpl_flushAsynchronousDecompressRequests E c s =
     (if isJobPoolReady (pool s) then
        (case HardwareCodecDeflateQpl_flushAsynchronousDecompressRequests E (hw_codec c) (sw_codec c) s of
           None \<Rightarrow> None
         | Some (Inl e, hw', sw', s') \<Rightarrow> Some (Inl e, c\<lparr>sw_codec := sw', hw_codec := hw'\<rparr>, s')
         | Some (Inr u, hw', sw', s') \<Rightarrow>
             Some (Inr (), setDecompressMode Synchronous (c\<lparr>sw_codec := sw', hw_codec := hw'\<rparr>), s'))
      else Some (Inr (), setDecompressMode Synchronous c, s))"

section \<open>Vocabulary of the properties\<close>

text \<open>
  What the constructor establishes when it marks the pool ready: both arrays have
  \<^verbatim>\<open>max_hw_jobs\<close> entries, and \<^verbatim>\<open>max_hw_jobs\<close> is not zero.
\<close>

definition pool_wf :: "DeflateQplJobHWPool \<Rightarrow> bool" where
  "pool_wf p \<longleftrightarrow> length (hw_job_ptr_locks p) = unat (max_hw_jobs p)
     \<and> length (hw_jobs_buffer p) = unat (max_hw_jobs p) \<and> 0 < max_hw_jobs p"

text \<open>\<open>pool_frame p p'\<close>: nothing but flags and the random engine differs between the two.\<close>

definition pool_frame :: "DeflateQplJobHWPool \<Rightarrow> DeflateQplJobHWPool \<Rightarrow> bool" where
  "pool_frame p p' \<longleftrightarrow> max_hw_jobs p' = max_hw_jobs p \<and> job_pool_ready p' = job_pool_ready p
     \<and> hw_jobs_buffer p' = hw_jobs_buffer p
     \<and> length (hw_job_ptr_locks p') = length (hw_job_ptr_locks p)"

text \<open>What the loop of \<^verbatim>\<open>acquireJob\<close> returns, when it returns.\<close>

definition acquireJob_while_post ::
  "DeflateQplJobHWPool \<Rightarrow> UInt32 option \<times> UInt32 \<times> DeflateQplJobHWPool \<Rightarrow> bool" where
  "acquireJob_while_post p y \<longleftrightarrow>
     pool_frame p (snd (snd y))
     \<and> (\<forall>i. fst y = Some i \<longrightarrow> i < max_hw_jobs p \<and> unat i < length (hw_job_ptr_locks p)
            \<and> \<not> hw_job_ptr_locks p ! unat i
            \<and> hw_job_ptr_locks (snd (snd y)) = (hw_job_ptr_locks p)[unat i := True])
     \<and> (fst y = None \<longrightarrow> hw_job_ptr_locks (snd (snd y)) = hw_job_ptr_locks p)"


text \<open>The job object as the codec configures it for a decompression and for a compression.\<close>

definition decompress_job :: "qpl_job \<Rightarrow> nat \<Rightarrow> UInt32 \<Rightarrow> nat \<Rightarrow> UInt32 \<Rightarrow> qpl_job" where
  "decompress_job job source source_sz dest uncompressed_size =
     job\<lparr>op := qpl_op_decompress, next_in_ptr := source, next_out_ptr := dest,
         available_in := source_sz, available_out := uncompressed_size,
         flags := {QPL_FLAG_FIRST, QPL_FLAG_LAST}\<rparr>"

definition compress_job :: "qpl_job \<Rightarrow> nat \<Rightarrow> UInt32 \<Rightarrow> nat \<Rightarrow> UInt32 \<Rightarrow> qpl_job" where
  "compress_job job source source_sz dest dest_size =
     job\<lparr>op := qpl_op_compress, next_in_ptr := source, next_out_ptr := dest,
         available_in := source_sz, available_out := dest_size, level := qpl_default_level,
         flags := {QPL_FLAG_FIRST, QPL_FLAG_DYNAMIC_HUFFMAN, QPL_FLAG_LAST, QPL_FLAG_OMIT_VERIFY}\<rparr>"

text \<open>
  The software path of the codec: the call of the software codec, its exception or result
  handed to the caller, and nothing of the codec changed but the software codec.
\<close>

definition software_decompress ::
  "'d externals \<Rightarrow> nat \<Rightarrow> UInt32 \<Rightarrow> nat \<Rightarrow> UInt32 \<Rightarrow> CompressionCodecDeflateQpl \<Rightarrow> 'd process \<Rightarrow>
     (Exception + unit) \<times> CompressionCodecDeflateQpl \<times> 'd process" where
  "software_decompress E source source_sz dest uncompressed_size c s =
     (case SoftwareCodecDeflateQpl_doDecompressData E source source_sz dest uncompressed_size
             (sw_codec c) s of
        (r, sw', s') \<Rightarrow> (r, c\<lparr>sw_codec := sw'\<rparr>, s'))"

definition software_compress ::
  "'d externals \<Rightarrow> nat \<Rightarrow> UInt32 \<Rightarrow> nat \<Rightarrow> CompressionCodecDeflateQpl \<Rightarrow> 'd process \<Rightarrow>
     (Exception + UInt32) \<times> CompressionCodecDeflateQpl \<times> 'd process" where
  "software_compress E source source_sz dest c s =
     (case SoftwareCodecDeflateQpl_doCompressData E source source_sz dest
             (getMaxCompressedDataSize source_sz) (sw_codec c) s of
        (r, sw', s') \<Rightarrow> (r, c\<lparr>sw_codec := sw'\<rparr>, s'))"

text \<open>Two processes with the same memory and the same library and accelerator state.\<close>

definition same_machine :: "'d process \<Rightarrow> 'd process \<Rightarrow> bool" where
  "same_machine s t \<longleftrightarrow> memory s = memory t \<and> device s = device t"

text \<open>
  An execution that reports success has written no more than the capacity it was given
  (\<^verbatim>\<open>total_out\<close> does not exceed \<^verbatim>\<open>available_out\<close>).
\<close>

definition engine_respects_capacity :: "'d externals \<Rightarrow> bool" where
  "engine_respects_capacity E \<longleftrightarrow>
     (\<forall>path job m. fst (qpl_execute_job E path job m) = QPL_STS_OK \<longrightarrow>
        total_out (fst (snd (qpl_execute_job E path job m))) \<le> available_out job)"

text \<open>
  The slots whose flag is set, and the slots registered in the pending map of a hardware
  codec (the job pointers it holds).
\<close>

definition held_slots :: "DeflateQplJobHWPool \<Rightarrow> nat set" where
  "held_slots p = {i. i < length (hw_job_ptr_locks p) \<and> hw_job_ptr_locks p ! i}"

definition registered_slots :: "HardwareCodecDeflateQpl \<Rightarrow> nat set" where
  "registered_slots hw = snd ` set (decomp_async_job_map hw)"

text \<open>
  The entries of a pending map are as \<^verbatim>\<open>acquireJob\<close> produced them: the handle of an entry
  is the capacity minus the index of its job object, and no job object occurs twice.
\<close>

definition pending_wf :: "DeflateQplJobHWPool \<Rightarrow> HardwareCodecDeflateQpl \<Rightarrow> bool" where
  "pending_wf p hw \<longleftrightarrow>
     distinct (map snd (decomp_async_job_map hw))
     \<and> (\<forall>e \<in> set (decomp_async_job_map hw).
           snd e < unat (max_hw_jobs p) \<and> max_hw_jobs p - fst e = of_nat (snd e))"

text \<open>
  The slot balance of a ready pool, seen from one hardware codec: the held slots are the
  slots registered in its pending map together with \<open>others\<close>, the slots registered in
  the pending maps of the other hardware codecs of the process.
\<close>

definition slot_balance :: "DeflateQplJobHWPool \<Rightarrow> HardwareCodecDeflateQpl \<Rightarrow> nat set \<Rightarrow> bool" where
  "slot_balance p hw others \<longleftrightarrow>
     job_pool_ready p \<and> length (hw_job_ptr_locks p) = unat (max_hw_jobs p)
     \<and> pending_wf p hw
     \<and> held_slots p = registered_slots hw \<union> others
     \<and> registered_slots hw \<inter> others = {}"

text \<open>
  One pass through the body of the loop of \<^verbatim>\<open>flushAsynchronousDecompressRequests\<close>: either
  the function is left (\<open>Inl\<close>, with what it returns) or the loop goes on (\<open>Inr\<close>, with the
  values of \<^verbatim>\<open>n_jobs_processing\<close> and the iterator, and the state). Lemma
  \<open>flush_while_iteration\<close> below shows that the loop is the repetition of this pass.
\<close>

definition flush_iteration ::
  "'d externals \<Rightarrow> nat \<Rightarrow> nat \<Rightarrow> HardwareCodecDeflateQpl \<Rightarrow> SoftwareCodecDeflateQpl \<Rightarrow> 'd process \<Rightarrow>
     (((Exception + unit) \<times> HardwareCodecDeflateQpl \<times> SoftwareCodecDeflateQpl \<times> 'd process)
      + (nat \<times> nat \<times> HardwareCodecDeflateQpl \<times> SoftwareCodecDeflateQpl \<times> 'd process)) option" where
  "flush_iteration E n_jobs_processing it hw sw s =
     (if n_jobs_processing = 0 then Some (Inl (Inr (), hw, sw, s))
      else if length (decomp_async_job_map hw) \<le> it then None
      else
        (case decomp_async_job_map hw ! it of
           (job_id, job_ptr) \<Rightarrow>
             (case do_qpl_check_job E job_ptr (load_job s job_ptr) s of
                (status, job, s1) \<Rightarrow>
                  if status = QPL_STS_BEING_PROCESSED then
                    (if Suc it = length (decomp_async_job_map hw)
                     then Some (Inr (n_jobs_processing, 0, hw, sw,
                                     do_tpause E (store_job job_ptr job s1)))
                     else Some (Inr (n_jobs_processing, Suc it, hw, sw, store_job job_ptr job s1)))
                  else
                    (case (if status \<noteq> QPL_STS_OK
                           then SoftwareCodecDeflateQpl_doDecompressData E
                                  (next_in_ptr job) (available_in job)
                                  (next_out_ptr job) (available_out job) sw (store_job job_ptr job s1)
                           else (Inr (), sw, store_job job_ptr job s1)) of
                       (Inl e, sw', s2) \<Rightarrow> Some (Inl (Inl e, hw, sw', s2))
                     | (Inr u, sw', s2) \<Rightarrow>
                         (case releaseJob (pool s2) job_id of
                            None \<Rightarrow> None
                          | Some p' \<Rightarrow>
                              if n_jobs_processing - 1 \<le> 0 then
                                Some (Inl (Inr (),
                                      hw\<lparr>decomp_async_job_map := map_erase it (decomp_async_job_map hw)\<rparr>,
                                      sw', s2\<lparr>pool := p'\<rparr>))
                              else if it = length (map_erase it (decomp_async_job_map hw)) then
                                Some (Inr (n_jobs_processing - 1, 0,
                                  hw\<lparr>decomp_async_job_map := map_erase it (decomp_async_job_map hw)\<rparr>,
                                  sw', do_tpause E (s2\<lparr>pool := p'\<rparr>)))
                              else
                                Some (Inr (n_jobs_processing - 1, it,
                                  hw\<lparr>decomp_async_job_map := map_erase it (decomp_async_job_map hw)\<rparr>,
                                  sw', s2\<lparr>pool := p'\<rparr>)))))))"

text \<open>
  Reading the record of QPL calls. \<open>rerun_args\<close>: the source pointer, source length,
  destination pointer and destination length on the job object of a check that reported a
  failure. \<open>decompress_args\<close>: the same four values of a decompression executed on the
  software path. \<open>finished_check\<close>: the job pointer of a check that reported anything but
  \<^verbatim>\<open>QPL_STS_BEING_PROCESSED\<close>.
\<close>

fun rerun_args :: "qpl_call \<Rightarrow> (nat \<times> UInt32 \<times> nat \<times> UInt32) list" where
  "rerun_args (Call_check job_ptr status job) =
     (if status \<noteq> QPL_STS_OK \<and> status \<noteq> QPL_STS_BEING_PROCESSED
      then [(next_in_ptr job, available_in job, next_out_ptr job, available_out job)] else [])"
| "rerun_args c = []"

fun decompress_args :: "qpl_call \<Rightarrow> (nat \<times> UInt32 \<times> nat \<times> UInt32) list" where
  "decompress_args (Call_execute path job) =
     (if path = qpl_path_software \<and> op job = qpl_op_decompress
      then [(next_in_ptr job, available_in job, next_out_ptr job, available_out job)] else [])"
| "decompress_args c = []"

fun finished_check :: "qpl_call \<Rightarrow> nat list" where
  "finished_check (Call_check job_ptr status job) =
     (if status \<noteq> QPL_STS_BEING_PROCESSED then [job_ptr] else [])"
| "finished_check c = []"

text \<open>
  Every job eventually leaves the status \<^verbatim>\<open>QPL_STS_BEING_PROCESSED\<close>: for every job pointer
  and machine state, \<open>remaining\<close> bounds the number of checks of that job that can still
  answer \<^verbatim>\<open>QPL_STS_BEING_PROCESSED\<close>. Such an answer uses one of them up, and no primitive
  the drain calls raises the bound of any job.
\<close>

definition jobs_finish :: "'d externals \<Rightarrow> (nat \<Rightarrow> 'd machine \<Rightarrow> nat) \<Rightarrow> bool" where
  "jobs_finish E remaining \<longleftrightarrow>
     (\<forall>job_ptr job m. fst (qpl_check_job E job_ptr job m) = QPL_STS_BEING_PROCESSED \<longrightarrow>
        remaining job_ptr (snd (snd (qpl_check_job E job_ptr job m))) < remaining job_ptr m)
     \<and> (\<forall>job_ptr other job m.
          remaining other (snd (snd (qpl_check_job E job_ptr job m))) \<le> remaining other m)
     \<and> (\<forall>other m. remaining other (tpause E m) \<le> remaining other m)
     \<and> (\<forall>other path job m.
          remaining other (snd (snd (qpl_execute_job E path job m))) \<le> remaining other m)
     \<and> (\<forall>other path m. remaining other (snd (snd (qpl_init_job E path m))) \<le> remaining other m)"

text \<open>The software path never fails: initialization and execution answer \<^verbatim>\<open>QPL_STS_OK\<close>.\<close>

definition software_succeeds :: "'d externals \<Rightarrow> bool" where
  "software_succeeds E \<longleftrightarrow>
     (\<forall>m. fst (qpl_init_job E qpl_path_software m) = QPL_STS_OK)
     \<and> (\<forall>job m. fst (qpl_execute_job E qpl_path_software job m) = QPL_STS_OK)"

text \<open>
  What holds whenever the loop of the drain is entered: the slot balance,
  \<^verbatim>\<open>n_jobs_processing\<close> is the size of the map, and the iterator is not \<^verbatim>\<open>end()\<close> unless
  the map is empty.
\<close>

definition flush_inv ::
  "nat set \<Rightarrow> nat \<Rightarrow> nat \<Rightarrow> HardwareCodecDeflateQpl \<Rightarrow> 'd process \<Rightarrow> bool" where
  "flush_inv others n it hw s \<longleftrightarrow>
     slot_balance (pool s) hw others \<and> n = length (decomp_async_job_map hw)
     \<and> (n = 0 \<or> it < n)"

text \<open>The machine of a process: what the QPL primitives read and write.\<close>

definition machine :: "'d process \<Rightarrow> 'd machine" where
  "machine s = (memory s, device s)"

text \<open>
  The measure of the drain: over the entries of the pending map, the number of
  \<^verbatim>\<open>QPL_STS_BEING_PROCESSED\<close> answers each job can still give, plus one for its resolution.
\<close>

definition flush_measure ::
  "(nat \<Rightarrow> 'd machine \<Rightarrow> nat) \<Rightarrow> HardwareCodecDeflateQpl \<Rightarrow> 'd process \<Rightarrow> nat" where
  "flush_measure remaining hw s =
     sum_list (map (\<lambda>e. Suc (remaining (snd e) (machine s))) (decomp_async_job_map hw))"

text \<open>
  What one pass or a whole drain adds to the record of calls: every software decompression
  it runs has the arguments recorded on the job of a failed check, in the same order, one
  for one; and the jobs whose check reported an end are those that left the map.
\<close>

definition flush_trace ::
  "qpl_call list \<Rightarrow> qpl_call list \<Rightarrow> (UInt32 \<times> nat) list \<Rightarrow> (UInt32 \<times> nat) list \<Rightarrow> bool" where
  "flush_trace before after m m' \<longleftrightarrow>
     (\<exists>new. after = before @ new
        \<and> concat (map decompress_args new) = concat (map rerun_args new)
        \<and> mset (concat (map finished_check new)) + mset (map snd m') = mset (map snd m))"

section \<open>Concrete states used in the examples\<close>

text \<open>A pool of two slots with the given flags and random sequence.\<close>

definition example_job :: qpl_job where
  "example_job = \<lparr>op = qpl_op_decompress, next_in_ptr = 0, next_out_ptr = 0, available_in = 0,
     available_out = 0, level = qpl_default_level, flags = {}, total_out = 0\<rparr>"

definition example_pool :: "bool list \<Rightarrow> (nat \<Rightarrow> nat) \<Rightarrow> DeflateQplJobHWPool" where
  "example_pool locks rnd = \<lparr>max_hw_jobs = 2, job_pool_ready = True,
     hw_jobs_buffer = [example_job, example_job], hw_job_ptr_locks = locks, random_engine = rnd\<rparr>"


text \<open>
  An environment whose primitives answer with fixed statuses and leave the memory alone.
  The device state is a countdown: \<^verbatim>\<open>qpl_check_job\<close> answers
  \<^verbatim>\<open>QPL_STS_BEING_PROCESSED\<close> while it is positive, and \<open>hw_check\<close> afterwards.
  An execution reports \<open>out\<close> bytes of output, or the capacity if that is less.
\<close>

definition example_env ::
  "qpl_status \<Rightarrow> qpl_status \<Rightarrow> qpl_status \<Rightarrow> qpl_status \<Rightarrow> UInt32 \<Rightarrow> nat externals" where
  "example_env hw_submit hw_check hw_exec sw_exec out =
     \<lparr>qpl_init_job = (\<lambda>path m. (QPL_STS_OK, example_job, m)),
      qpl_fini_job = (\<lambda>job m. m),
      qpl_execute_job = (\<lambda>path job m.
         (if path = qpl_path_hardware then hw_exec else sw_exec,
          job\<lparr>total_out := min out (available_out job)\<rparr>, m)),
      qpl_submit_job = (\<lambda>job_ptr job m. (hw_submit, job, m)),
      qpl_check_job = (\<lambda>job_ptr job m.
         if snd m = 0 then (hw_check, job, m) else (QPL_STS_BEING_PROCESSED, job, fst m, snd m - 1)),
      tpause = (\<lambda>m. m),
      getPageSize = 4096,
      RET_ERROR = - 1\<rparr>"

definition example_process :: "bool list \<Rightarrow> (nat \<Rightarrow> nat) \<Rightarrow> nat \<Rightarrow> nat process" where
  "example_process locks rnd countdown =
     \<lparr>pool = example_pool locks rnd, memory = (\<lambda>a. 0), device = countdown, calls = []\<rparr>"

definition example_codec :: "(UInt32 \<times> nat) list \<Rightarrow> CodecMode \<Rightarrow> CompressionCodecDeflateQpl" where
  "example_codec pending mode =
     \<lparr>sw_codec = \<lparr>sw_job = None\<rparr>, hw_codec = \<lparr>decomp_async_job_map = pending\<rparr>,
      decompress_mode = mode\<rparr>"

section \<open>Threads on the shared pool\<close>

text \<open>
  \<^verbatim>\<open>DeflateQplJobHWPool::instance()\<close> is one object for all threads. The flags are
  \<^verbatim>\<open>std::atomic_bool\<close> accessed with the default memory order, so the accesses of all
  threads to them form one sequence. A run of several threads is therefore modelled as an
  interleaving of their accesses to the pool: each step below is one access of one thread,
  made by the function of the sequential model that embeds it (\<open>distribution\<close>,
  \<open>tryLockJob\<close>, \<open>releaseJob\<close>). The random engine is not atomic in the source; a draw is
  taken as one step, and the values drawn are arbitrary since the engine is.

  \<open>control\<close> is the place of a thread in \<^verbatim>\<open>acquireJob\<close>: outside any call of the pool
  (\<open>Idle\<close>); past \<^verbatim>\<open>isJobPoolReady()\<close> and before the first draw (\<open>Draw None\<close>); in the loop
  body after a failed \<^verbatim>\<open>tryLockJob\<close>, before the draw, with the current \<^verbatim>\<open>retry\<close>
  (\<open>Draw (Some retry)\<close>); before \<^verbatim>\<open>tryLockJob(index)\<close> with the current \<^verbatim>\<open>retry\<close>
  (\<open>Try retry index\<close>). \<open>handles\<close> are the job ids a thread has received from
  \<^verbatim>\<open>acquireJob\<close> and not yet passed to \<^verbatim>\<open>releaseJob\<close>.
\<close>

datatype control = Idle | Draw "UInt32 option" | Try UInt32 UInt32

record thread_state =
  control :: control
  handles :: "UInt32 set"

record system =
  shared :: DeflateQplJobHWPool
  threads :: "nat \<Rightarrow> thread_state"

text \<open>What an idle thread calls next.\<close>

datatype pool_call = Acquire | Release UInt32

text \<open>
  One step of thread \<open>t\<close>. An idle thread performs the call \<open>c\<close>: \<^verbatim>\<open>acquireJob\<close> reads
  \<^verbatim>\<open>job_pool_ready\<close> and returns \<^verbatim>\<open>nullptr\<close> or goes on to the first draw;
  \<^verbatim>\<open>releaseJob(job_id)\<close> is one step, since \<^verbatim>\<open>job_pool_ready\<close> is written by no step and
  \<^verbatim>\<open>unLockJob\<close> is one atomic store. A thread inside \<^verbatim>\<open>acquireJob\<close> performs its next
  access, whatever \<open>c\<close> is. \<open>None\<close>: the step does not return (a failed assertion).
\<close>

definition thread_step :: "nat \<Rightarrow> pool_call \<Rightarrow> system \<Rightarrow> system option" where
  "thread_step t c sys =
     (case control (threads sys t) of
        Idle \<Rightarrow>
          (case c of
             Acquire \<Rightarrow>
               if isJobPoolReady (shared sys)
               then Some (sys\<lparr>threads := (threads sys)(t := (threads sys t)\<lparr>control := Draw None\<rparr>)\<rparr>)
               else Some sys
           | Release job_id \<Rightarrow>
               (case releaseJob (shared sys) job_id of
                  None \<Rightarrow> None
                | Some p' \<Rightarrow>
                    Some (sys\<lparr>shared := p',
                             threads := (threads sys)
                               (t := (threads sys t)\<lparr>handles := handles (threads sys t) - {job_id}\<rparr>)\<rparr>)))
      | Draw None \<Rightarrow>
          (let d = distribution (shared sys) in
           Some (sys\<lparr>shared := snd d,
                    threads := (threads sys)(t := (threads sys t)\<lparr>control := Try 0 (fst d)\<rparr>)\<rparr>))
      | Draw (Some retry) \<Rightarrow>
          (let d = distribution (shared sys); retry' = retry + 1 in
           if retry' > max_hw_jobs (snd d)
           then Some (sys\<lparr>shared := snd d,
                         threads := (threads sys)(t := (threads sys t)\<lparr>control := Idle\<rparr>)\<rparr>)
           else Some (sys\<lparr>shared := snd d,
                         threads := (threads sys)(t := (threads sys t)\<lparr>control := Try retry' (fst d)\<rparr>)\<rparr>))
      | Try retry index \<Rightarrow>
          (case tryLockJob (shared sys) index of
             None \<Rightarrow> None
           | Some r \<Rightarrow>
               if fst r
               then Some (sys\<lparr>shared := snd r,
                             threads := (threads sys)
                               (t := \<lparr>control = Idle,
                                      handles = insert (max_hw_jobs (snd r) - index)
                                                  (handles (threads sys t))\<rparr>)\<rparr>)
               else Some (sys\<lparr>shared := snd r,
                             threads := (threads sys)
                               (t := (threads sys t)\<lparr>control := Draw (Some retry)\<rparr>)\<rparr>)))"

text \<open>
  An interleaving is a schedule: which thread takes the next step, and what it calls if it
  is idle.
\<close>

fun run :: "(nat \<times> pool_call) list \<Rightarrow> system \<Rightarrow> system option" where
  "run [] sys = Some sys"
| "run (tc # sched) sys =
     (case thread_step (fst tc) (snd tc) sys of
        None \<Rightarrow> None
      | Some sys' \<Rightarrow> run sched sys')"

text \<open>
  The callers' side of the protocol: a thread passes to \<^verbatim>\<open>releaseJob\<close> only a job id that
  it holds.
\<close>

definition releases_held :: "nat \<Rightarrow> pool_call \<Rightarrow> system \<Rightarrow> bool" where
  "releases_held t c sys \<longleftrightarrow>
     (case c of
        Acquire \<Rightarrow> True
      | Release job_id \<Rightarrow>
          control (threads sys t) \<noteq> Idle \<or> job_id \<in> handles (threads sys t))"

fun callers_release_held :: "(nat \<times> pool_call) list \<Rightarrow> system \<Rightarrow> bool" where
  "callers_release_held [] sys = True"
| "callers_release_held (tc # sched) sys =
     (releases_held (fst tc) (snd tc) sys
      \<and> (case thread_step (fst tc) (snd tc) sys of
           None \<Rightarrow> True
         | Some sys' \<Rightarrow> callers_release_held sched sys'))"

text \<open>At the start no thread is inside a call of the pool and none holds a job id.\<close>

definition initial :: "system \<Rightarrow> bool" where
  "initial sys \<longleftrightarrow> (\<forall>t. threads sys t = \<lparr>control = Idle, handles = {}\<rparr>)"

text \<open>
  The slot behind a job id (the index that \<^verbatim>\<open>releaseJob\<close> unlocks), and the threads that
  hold a slot.
\<close>

definition slot_of :: "DeflateQplJobHWPool \<Rightarrow> UInt32 \<Rightarrow> nat" where
  "slot_of p job_id = unat (max_hw_jobs p - job_id)"

definition holds :: "system \<Rightarrow> nat \<Rightarrow> nat \<Rightarrow> bool" where
  "holds sys t i \<longleftrightarrow> (\<exists>job_id \<in> handles (threads sys t). slot_of (shared sys) job_id = i)"

text \<open>
  The invariant of the interleavings: the slot of every held job id is locked, and no two
  threads hold job ids of the same slot.
\<close>

definition exclusive :: "system \<Rightarrow> bool" where
  "exclusive sys \<longleftrightarrow>
     (\<forall>t i. holds sys t i \<longrightarrow> i \<in> held_slots (shared sys) \<and> (\<forall>t'. holds sys t' i \<longrightarrow> t' = t))"

text \<open>Every index a thread is about to try is inside the pool.\<close>

definition tries_in_range :: "system \<Rightarrow> bool" where
  "tries_in_range sys \<longleftrightarrow>
     pool_wf (shared sys)
     \<and> (\<forall>t retry index. control (threads sys t) = Try retry index \<longrightarrow> index < max_hw_jobs (shared sys))"

text \<open>Two threads on an example pool of two free slots.\<close>

definition example_system :: "control \<Rightarrow> UInt32 set \<Rightarrow> control \<Rightarrow> UInt32 set \<Rightarrow> bool list \<Rightarrow> system" where
  "example_system c0 h0 c1 h1 locks =
     \<lparr>shared = example_pool locks (\<lambda>k. 0),
      threads = (\<lambda>t. \<lparr>control = Idle, handles = {}\<rparr>)
        (0 := \<lparr>control = c0, handles = h0\<rparr>, 1 := \<lparr>control = c1, handles = h1\<rparr>)\<rparr>"

text \<open>
  The state in which thread \<open>t\<close> is back from \<^verbatim>\<open>acquireJob\<close>, with the job id it received
  (\<open>None\<close> for \<^verbatim>\<open>nullptr\<close>) and the pool as the call left it.
\<close>

definition acquire_returns :: "nat \<Rightarrow> UInt32 option \<Rightarrow> DeflateQplJobHWPool \<Rightarrow> system \<Rightarrow> system" where
  "acquire_returns t job_id p' sys =
     sys\<lparr>shared := p',
         threads := (threads sys)
           (t := \<lparr>control = Idle,
                  handles = (case job_id of None \<Rightarrow> handles (threads sys t)
                             | Some i \<Rightarrow> insert i (handles (threads sys t)))\<rparr>)\<rparr>"

section \<open>What the fallback relies on from the engine\<close>

text \<open>
  The windows of a job object: the bytes it may read (\<^verbatim>\<open>available_in\<close> bytes from
  \<^verbatim>\<open>next_in_ptr\<close>) and the bytes it may write (\<^verbatim>\<open>available_out\<close> bytes from
  \<^verbatim>\<open>next_out_ptr\<close>).
\<close>

definition in_window :: "qpl_job \<Rightarrow> nat set" where
  "in_window job = {next_in_ptr job ..< next_in_ptr job + unat (available_in job)}"

definition out_window :: "qpl_job \<Rightarrow> nat set" where
  "out_window job = {next_out_ptr job ..< next_out_ptr job + unat (available_out job)}"

text \<open>
  The hardware path writes memory only inside the output window of the job it is given,
  and the job object it leaves has its output window inside the one it was given (the
  pointer advances, the room shrinks). The pause writes no memory.
\<close>

definition hardware_writes_output :: "'d externals \<Rightarrow> bool" where
  "hardware_writes_output E \<longleftrightarrow>
     (\<forall>job_ptr job m.
        (\<forall>a. a \<notin> out_window job \<longrightarrow> fst (snd (snd (qpl_submit_job E job_ptr job m))) a = fst m a)
        \<and> out_window (fst (snd (qpl_submit_job E job_ptr job m))) \<subseteq> out_window job)
     \<and> (\<forall>job_ptr job m.
        (\<forall>a. a \<notin> out_window job \<longrightarrow> fst (snd (snd (qpl_check_job E job_ptr job m))) a = fst m a)
        \<and> out_window (fst (snd (qpl_check_job E job_ptr job m))) \<subseteq> out_window job)
     \<and> (\<forall>job m.
        (\<forall>a. a \<notin> out_window job \<longrightarrow>
              fst (snd (snd (qpl_execute_job E qpl_path_hardware job m))) a = fst m a)
        \<and> out_window (fst (snd (qpl_execute_job E qpl_path_hardware job m))) \<subseteq> out_window job)
     \<and> (\<forall>m. fst (tpause E m) = fst m)"

text \<open>
  The software path is a function of the job object and of the bytes in its input window:
  the initialization of a software job does not depend on the machine and writes no
  memory; an execution started on two machines that agree on the input window ends with
  the same status and the same job object, and with the same bytes in the
  \<^verbatim>\<open>total_out\<close> bytes it has produced from \<^verbatim>\<open>next_out_ptr\<close>.
\<close>

definition software_reads_source :: "'d externals \<Rightarrow> bool" where
  "software_reads_source E \<longleftrightarrow>
     (\<forall>m m'. fst (qpl_init_job E qpl_path_software m) = fst (qpl_init_job E qpl_path_software m')
          \<and> fst (snd (qpl_init_job E qpl_path_software m))
              = fst (snd (qpl_init_job E qpl_path_software m')))
     \<and> (\<forall>m. fst (snd (snd (qpl_init_job E qpl_path_software m))) = fst m)
     \<and> (\<forall>job m m'. (\<forall>a \<in> in_window job. fst m a = fst m' a) \<longrightarrow>
          fst (qpl_execute_job E qpl_path_software job m)
            = fst (qpl_execute_job E qpl_path_software job m')
          \<and> fst (snd (qpl_execute_job E qpl_path_software job m))
              = fst (snd (qpl_execute_job E qpl_path_software job m'))
          \<and> (\<forall>a. next_out_ptr job \<le> a
                \<and> a < next_out_ptr job
                        + unat (total_out (fst (snd (qpl_execute_job E qpl_path_software job m))))
                \<longrightarrow> fst (snd (snd (qpl_execute_job E qpl_path_software job m))) a
                      = fst (snd (snd (qpl_execute_job E qpl_path_software job m'))) a))"

text \<open>The number of bytes the last execution of the software codec has produced.\<close>

definition produced :: "SoftwareCodecDeflateQpl \<Rightarrow> nat" where
  "produced sw = (case sw_job sw of None \<Rightarrow> 0 | Some job \<Rightarrow> unat (total_out job))"

text \<open>
  Two runs of the codec have the same outcome: the same value or the same exception
  reaches the caller, the software codec is left in the same state, and, when a value is
  returned, the bytes produced at \<open>dest\<close> are the same.
\<close>

definition same_outcome ::
  "nat \<Rightarrow> (Exception + 'a) \<times> CompressionCodecDeflateQpl \<times> 'd process \<Rightarrow>
     (Exception + 'a) \<times> CompressionCodecDeflateQpl \<times> 'd process \<Rightarrow> bool" where
  "same_outcome dest x y \<longleftrightarrow>
     fst x = fst y \<and> sw_codec (fst (snd x)) = sw_codec (fst (snd y))
     \<and> ((\<exists>u. fst x = Inr u) \<longrightarrow>
          (\<forall>a. dest \<le> a \<and> a < dest + produced (sw_codec (fst (snd x))) \<longrightarrow>
                memory (snd (snd x)) a = memory (snd (snd y)) a))"

text \<open>
  An engine for the examples of the fallback. Its hardware path answers \<open>hw_status\<close> to
  everything; a submission or an execution first writes the byte 7 at the start of the
  output window, if there is room. Its software path stores: an execution copies the input
  window to the output window, as far as both reach, and reports the number of bytes
  copied.
\<close>

definition example_copy_env :: "qpl_status \<Rightarrow> nat externals" where
  "example_copy_env hw_status =
     \<lparr>qpl_init_job = (\<lambda>path m. (QPL_STS_OK, example_job, m)),
      qpl_fini_job = (\<lambda>job m. m),
      qpl_execute_job = (\<lambda>path job m.
         if path = qpl_path_hardware
         then (hw_status, job,
               if available_out job = 0 then fst m else (fst m)(next_out_ptr job := 7), snd m)
         else (QPL_STS_OK, job\<lparr>total_out := min (available_in job) (available_out job)\<rparr>,
               (\<lambda>a. if next_out_ptr job \<le> a
                        \<and> a < next_out_ptr job + unat (min (available_in job) (available_out job))
                     then fst m (next_in_ptr job + (a - next_out_ptr job)) else fst m a),
               snd m)),
      qpl_submit_job = (\<lambda>job_ptr job m.
         (hw_status, job,
          if available_out job = 0 then fst m else (fst m)(next_out_ptr job := 7), snd m)),
      qpl_check_job = (\<lambda>job_ptr job m. (hw_status, job, m)),
      tpause = (\<lambda>m. m),
      getPageSize = 4096,
      RET_ERROR = - 1\<rparr>"

text \<open>A process whose memory holds the bytes 5 and 6 at the addresses 100 and 101.\<close>

definition example_source_process :: "nat process" where
  "example_source_process =
     (example_process [False, False] (\<lambda>k. 0) 0)\<lparr>memory := (\<lambda>a. 0)(100 := 5, 101 := 6)\<rparr>"

section \<open>The job pool\<close>

lemma distribution_in_range:
  assumes "0 < max_hw_jobs p"
  shows "fst (distribution p) < max_hw_jobs p"
proof -
  let ?m = "unat (max_hw_jobs p)"
  let ?n = "random_engine p 0 mod ?m"
  have m: "0 < ?m" using assms by (simp add: word_less_nat_alt)
  have n: "?n < ?m" using m by simp
  have "?m < 2 ^ 32" using unsigned_less [of "max_hw_jobs p"] by simp
  with n have "?n < 2 ^ 32" by linarith
  then have "unat (of_nat ?n :: 32 word) = ?n" by (simp add: unat_of_nat)
  with n show ?thesis by (simp add: distribution_def word_less_nat_alt)
qed

lemma distribution_fields:
  "max_hw_jobs (snd (distribution p)) = max_hw_jobs p"
  "job_pool_ready (snd (distribution p)) = job_pool_ready p"
  "hw_jobs_buffer (snd (distribution p)) = hw_jobs_buffer p"
  "hw_job_ptr_locks (snd (distribution p)) = hw_job_ptr_locks p"
  "random_engine (snd (distribution p)) = (\<lambda>k. random_engine p (Suc k))"
  by (simp_all add: distribution_def)

lemma pool_wf_distribution: "pool_wf (snd (distribution p)) = pool_wf p"
  by (simp add: pool_wf_def distribution_fields)

lemma unat_retry_succ:
  fixes retry m :: "32 word"
  assumes "retry \<le> m" "m \<noteq> - 1"
  shows "unat (retry + 1) = Suc (unat retry)"
proof -
  have "retry \<noteq> - 1" using assms by (metis word_order.extremum_uniqueI)
  then have "1 + retry \<noteq> 0" by (metis add.commute add.right_inverse add_left_cancel)
  then show ?thesis using unatSuc [of retry] by (simp add: add.commute)
qed

lemma retry_succ:
  fixes retry m :: "32 word"
  assumes "retry \<le> m" "m \<noteq> - 1"
  shows "(m < retry + 1) = (retry = m)"
    and "retry \<noteq> m \<Longrightarrow> unat m - unat (retry + 1) < unat m - unat retry"
    and "retry \<noteq> m \<Longrightarrow> retry + 1 \<le> m"
proof -
  note u = unat_retry_succ [OF assms]
  have le: "unat retry \<le> unat m" using assms(1) by (simp add: word_le_nat_alt)
  have eq: "(retry = m) = (unat retry = unat m)" by (simp add: word_unat_eq_iff)
  show "(m < retry + 1) = (retry = m)" using le by (auto simp: word_less_nat_alt u eq)
  show "retry \<noteq> m \<Longrightarrow> unat m - unat (retry + 1) < unat m - unat retry"
    using le by (simp add: u eq)
  show "retry \<noteq> m \<Longrightarrow> retry + 1 \<le> m" using le by (simp add: word_le_nat_alt u eq)
qed

lemma acquireJob_while_total:
  assumes "pool_wf p" "max_hw_jobs p \<noteq> - 1" "index < max_hw_jobs p" "retry \<le> max_hw_jobs p"
  shows "\<exists>res r p'. acquireJob_while p retry index = Some (res, r, p') \<and> pool_frame p p'
           \<and> (\<forall>i. res = Some i \<longrightarrow> i < max_hw_jobs p \<and> \<not> hw_job_ptr_locks p ! unat i
                    \<and> hw_job_ptr_locks p' = (hw_job_ptr_locks p)[unat i := True])
           \<and> (res = None \<longrightarrow> hw_job_ptr_locks p' = hw_job_ptr_locks p)"
  using assms
proof (induction "unat (max_hw_jobs p) - unat retry" arbitrary: p retry index rule: less_induct)
  case less
  have inr: "unat index < length (hw_job_ptr_locks p)"
    using less.prems(1,3) by (simp add: pool_wf_def word_less_nat_alt)
  show ?case
  proof (cases "hw_job_ptr_locks p ! unat index")
    case False
    then show ?thesis using less.prems(3) inr
      by (subst acquireJob_while.simps) (simp add: tryLockJob_def pool_frame_def)
  next
    case True
    let ?d = "distribution p"
    have tl: "tryLockJob p index = Some (False, p)"
      using True less.prems(3) inr by (simp add: tryLockJob_def)
    show ?thesis
    proof (cases "retry = max_hw_jobs p")
      case True
      then show ?thesis using tl less.prems(2,4)
        by (subst acquireJob_while.simps)
           (simp add: Let_def distribution_fields retry_succ pool_frame_def)
    next
      case False
      have pos: "0 < max_hw_jobs p" using less.prems(1) by (simp add: pool_wf_def)
      have m: "unat (max_hw_jobs (snd ?d)) - unat (retry + 1) < unat (max_hw_jobs p) - unat retry"
        using False less.prems(2,4) by (simp add: distribution_fields retry_succ)
      have "\<exists>res r p'. acquireJob_while (snd ?d) (retry + 1) (fst ?d) = Some (res, r, p') \<and> pool_frame (snd ?d) p'
           \<and> (\<forall>i. res = Some i \<longrightarrow> i < max_hw_jobs (snd ?d) \<and> \<not> hw_job_ptr_locks (snd ?d) ! unat i
                    \<and> hw_job_ptr_locks p' = (hw_job_ptr_locks (snd ?d))[unat i := True])
           \<and> (res = None \<longrightarrow> hw_job_ptr_locks p' = hw_job_ptr_locks (snd ?d))"
      proof (rule less.hyps [OF m])
        show "pool_wf (snd ?d)" using less.prems(1) by (simp add: pool_wf_distribution)
        show "max_hw_jobs (snd ?d) \<noteq> - 1" using less.prems(2) by (simp add: distribution_fields)
        show "fst ?d < max_hw_jobs (snd ?d)" using pos by (simp add: distribution_fields distribution_in_range)
        show "retry + 1 \<le> max_hw_jobs (snd ?d)"
          using False less.prems(2,4) by (simp add: distribution_fields retry_succ)
      qed
      then obtain res r p' where r: "acquireJob_while (snd ?d) (retry + 1) (fst ?d) = Some (res, r, p')"
        "pool_frame (snd ?d) p'"
        "\<forall>i. res = Some i \<longrightarrow> i < max_hw_jobs p \<and> \<not> hw_job_ptr_locks p ! unat i
                    \<and> hw_job_ptr_locks p' = (hw_job_ptr_locks p)[unat i := True]"
        "res = None \<longrightarrow> hw_job_ptr_locks p' = hw_job_ptr_locks p"
        by (auto simp: distribution_fields)
      have "acquireJob_while p retry index = Some (res, r, p')"
        using tl False less.prems(2,4) r(1)
        by (subst acquireJob_while.simps)
           (simp add: Let_def distribution_fields retry_succ)
      then show ?thesis using r(2,3,4) by (simp add: pool_frame_def distribution_fields)
    qed
  qed
qed

text \<open>All flags set: the loop gives up, having failed capacity + 1 - retry more times.\<close>

lemma acquireJob_while_exhausted:
  assumes "pool_wf p" "max_hw_jobs p \<noteq> - 1" "index < max_hw_jobs p" "retry \<le> max_hw_jobs p"
    and held: "\<forall>i < length (hw_job_ptr_locks p). hw_job_ptr_locks p ! i"
  shows "acquireJob_while p retry index =
           Some (None, max_hw_jobs p + 1,
                 p\<lparr>random_engine := (\<lambda>k. random_engine p (k + (unat (max_hw_jobs p) + 1 - unat retry)))\<rparr>)"
  using assms
proof (induction "unat (max_hw_jobs p) - unat retry" arbitrary: p retry index rule: less_induct)
  case less
  have inr: "unat index < length (hw_job_ptr_locks p)"
    using less.prems(1,3) by (simp add: pool_wf_def word_less_nat_alt)
  let ?d = "distribution p"
  have tl: "tryLockJob p index = Some (False, p)"
    using less.prems(3,5) inr by (simp add: tryLockJob_def)
  have le: "unat retry \<le> unat (max_hw_jobs p)" using less.prems(4) by (simp add: word_le_nat_alt)
  show ?case
  proof (cases "retry = max_hw_jobs p")
    case True
    have "snd ?d = p\<lparr>random_engine := (\<lambda>k. random_engine p (k + 1))\<rparr>"
      by (simp add: distribution_def)
    then show ?thesis using True tl less.prems(2,4)
      by (subst acquireJob_while.simps)
         (simp add: Let_def distribution_fields retry_succ)
  next
    case False
    have pos: "0 < max_hw_jobs p" using less.prems(1) by (simp add: pool_wf_def)
    have m: "unat (max_hw_jobs (snd ?d)) - unat (retry + 1) < unat (max_hw_jobs p) - unat retry"
      using False less.prems(2,4) by (simp add: distribution_fields retry_succ)
    have ih: "acquireJob_while (snd ?d) (retry + 1) (fst ?d) =
           Some (None, max_hw_jobs (snd ?d) + 1,
                 (snd ?d)\<lparr>random_engine := (\<lambda>k. random_engine (snd ?d) (k + (unat (max_hw_jobs (snd ?d)) + 1 - unat (retry + 1))))\<rparr>)"
    proof (rule less.hyps [OF m])
      show "pool_wf (snd ?d)" using less.prems(1) by (simp add: pool_wf_distribution)
      show "max_hw_jobs (snd ?d) \<noteq> - 1" using less.prems(2) by (simp add: distribution_fields)
      show "fst ?d < max_hw_jobs (snd ?d)" using pos by (simp add: distribution_fields distribution_in_range)
      show "retry + 1 \<le> max_hw_jobs (snd ?d)"
        using False less.prems(2,4) by (simp add: distribution_fields retry_succ)
      show "\<forall>i<length (hw_job_ptr_locks (snd ?d)). hw_job_ptr_locks (snd ?d) ! i"
        using less.prems(5) by (simp add: distribution_fields)
    qed
    have ne: "unat retry \<noteq> unat (max_hw_jobs p)" using False by (simp add: word_unat_eq_iff)
    have shift: "(snd ?d)\<lparr>random_engine := (\<lambda>k. random_engine (snd ?d) (k + (unat (max_hw_jobs (snd ?d)) + 1 - unat (retry + 1))))\<rparr>
        = p\<lparr>random_engine := (\<lambda>k. random_engine p (k + (unat (max_hw_jobs p) + 1 - unat retry)))\<rparr>"
    proof -
      have "\<And>k. Suc (k + (unat (max_hw_jobs p) - unat retry)) = k + (Suc (unat (max_hw_jobs p)) - unat retry)"
        using le by simp
      then show ?thesis
        using le ne by (simp add: distribution_def unat_retry_succ [OF less.prems(4,2)])
    qed
    show ?thesis using tl False less.prems(2,4) ih shift
      by (subst acquireJob_while.simps)
         (simp add: Let_def distribution_fields retry_succ)
  qed
qed


lemma acquireJob_while_sound:
  assumes "acquireJob_while p retry index = Some y"
  shows "acquireJob_while_post p y"
proof (rule acquireJob_while.raw_induct [OF _ assms])
  fix f p retry index y
  assume IH: "\<And>p retry index y. f p retry index = Some y \<Longrightarrow> acquireJob_while_post p y"
    and body: "(case tryLockJob p index of None \<Rightarrow> None
      | Some r \<Rightarrow>
          if fst r then Some (Some index, retry, snd r)
          else let d = distribution (snd r); retry' = retry + 1
               in if max_hw_jobs (snd d) < retry' then Some (None, retry', snd d)
                  else f (snd d) retry' (fst d)) = Some y"
  from body obtain r where tl: "tryLockJob p index = Some r"
    by (cases "tryLockJob p index") auto
  show "acquireJob_while_post p y"
  proof (cases "fst r")
    case True
    with tl body have y: "y = (Some index, retry, snd r)" by simp
    from tl True have "snd r = p\<lparr>hw_job_ptr_locks := (hw_job_ptr_locks p)[unat index := True]\<rparr>
        \<and> index < max_hw_jobs p \<and> unat index < length (hw_job_ptr_locks p)
        \<and> \<not> hw_job_ptr_locks p ! unat index"
      by (auto simp: tryLockJob_def split: if_splits)
    then show ?thesis unfolding y by (simp add: pool_frame_def acquireJob_while_post_def)
  next
    case False
    with tl have r: "r = (False, p)"
      by (auto simp: tryLockJob_def split: if_splits)
    let ?d = "distribution p"
    show ?thesis
    proof (cases "max_hw_jobs (snd ?d) < retry + 1")
      case True
      with tl r body have "y = (None, retry + 1, snd ?d)" by (simp add: Let_def)
      then show ?thesis by (simp add: pool_frame_def distribution_fields acquireJob_while_post_def)
    next
      case False
      with tl r body have "f (snd ?d) (retry + 1) (fst ?d) = Some y" by (simp add: Let_def)
      from IH [OF this] show ?thesis
        by (simp add: pool_frame_def distribution_fields acquireJob_while_post_def)
    qed
  qed
qed

lemma acquireJob_sound:
  assumes "acquireJob p = Some (res, p')"
  shows "pool_frame p p'"
    and "res = None \<Longrightarrow> hw_job_ptr_locks p' = hw_job_ptr_locks p"
    and "res = Some (job_ptr, job_id) \<Longrightarrow>
           job_pool_ready p \<and> job_ptr < unat (max_hw_jobs p) \<and> job_ptr < length (hw_job_ptr_locks p)
           \<and> \<not> hw_job_ptr_locks p ! job_ptr
           \<and> hw_job_ptr_locks p' = (hw_job_ptr_locks p)[job_ptr := True]
           \<and> job_id = max_hw_jobs p - of_nat job_ptr
           \<and> max_hw_jobs p - job_id = of_nat job_ptr
           \<and> unat (of_nat job_ptr :: UInt32) = job_ptr"
proof -
  let ?d = "distribution p"
  show "pool_frame p p'"
  proof (cases "job_pool_ready p")
    case False
    with assms show ?thesis by (simp add: acquireJob_def isJobPoolReady_def pool_frame_def)
  next
    case True
    with assms obtain y where y: "acquireJob_while (snd ?d) 0 (fst ?d) = Some y"
      by (cases "acquireJob_while (snd ?d) 0 (fst ?d)")
         (auto simp: acquireJob_def isJobPoolReady_def Let_def)
    with assms True have "p' = snd (snd y)"
      by (auto simp: acquireJob_def isJobPoolReady_def Let_def split: option.splits if_splits prod.splits)
    with acquireJob_while_sound [OF y] show ?thesis
      by (simp add: pool_frame_def distribution_fields acquireJob_while_post_def)
  qed
  show "res = None \<Longrightarrow> hw_job_ptr_locks p' = hw_job_ptr_locks p"
  proof (cases "job_pool_ready p")
    case False
    with assms show ?thesis by (simp add: acquireJob_def isJobPoolReady_def)
  next
    case True
    assume n: "res = None"
    from True assms obtain y where y: "acquireJob_while (snd ?d) 0 (fst ?d) = Some y"
      by (cases "acquireJob_while (snd ?d) 0 (fst ?d)")
         (auto simp: acquireJob_def isJobPoolReady_def Let_def)
    with assms True n have "p' = snd (snd y) \<and> fst y = None"
      by (auto simp: acquireJob_def isJobPoolReady_def Let_def split: option.splits if_splits prod.splits)
    with acquireJob_while_sound [OF y] show ?thesis
      by (simp add: distribution_fields acquireJob_while_post_def)
  qed
  show "res = Some (job_ptr, job_id) \<Longrightarrow>
           job_pool_ready p \<and> job_ptr < unat (max_hw_jobs p) \<and> job_ptr < length (hw_job_ptr_locks p)
           \<and> \<not> hw_job_ptr_locks p ! job_ptr
           \<and> hw_job_ptr_locks p' = (hw_job_ptr_locks p)[job_ptr := True]
           \<and> job_id = max_hw_jobs p - of_nat job_ptr
           \<and> max_hw_jobs p - job_id = of_nat job_ptr
           \<and> unat (of_nat job_ptr :: UInt32) = job_ptr"
  proof -
    assume s: "res = Some (job_ptr, job_id)"
    have rdy: "job_pool_ready p"
      using assms s by (cases "job_pool_ready p") (auto simp: acquireJob_def isJobPoolReady_def)
    from rdy assms obtain y where y: "acquireJob_while (snd ?d) 0 (fst ?d) = Some y"
      by (cases "acquireJob_while (snd ?d) 0 (fst ?d)")
         (auto simp: acquireJob_def isJobPoolReady_def Let_def)
    with assms rdy s obtain index where i: "fst y = Some index" "p' = snd (snd y)"
        "job_ptr = unat index" "job_id = max_hw_jobs p' - index"
      by (auto simp: acquireJob_def isJobPoolReady_def Let_def split: option.splits if_splits prod.splits)
    from acquireJob_while_sound [OF y] i
    have "index < max_hw_jobs p" "unat index < length (hw_job_ptr_locks p)"
      "\<not> hw_job_ptr_locks p ! unat index"
      "hw_job_ptr_locks p' = (hw_job_ptr_locks p)[unat index := True]"
      "max_hw_jobs p' = max_hw_jobs p"
      by (simp_all add: distribution_fields pool_frame_def acquireJob_while_post_def)
    then show ?thesis using i rdy by (simp add: word_less_nat_alt)
  qed
qed

lemma acquireJob_total:
  assumes "pool_wf p" "max_hw_jobs p \<noteq> - 1"
  shows "\<exists>res p'. acquireJob p = Some (res, p')"
proof (cases "job_pool_ready p")
  case False
  then show ?thesis by (simp add: acquireJob_def isJobPoolReady_def)
next
  case True
  let ?d = "distribution p"
  have pos: "0 < max_hw_jobs p" using assms(1) by (simp add: pool_wf_def)
  have "\<exists>res r p'. acquireJob_while (snd ?d) 0 (fst ?d) = Some (res, r, p') \<and> pool_frame (snd ?d) p'
           \<and> (\<forall>i. res = Some i \<longrightarrow> i < max_hw_jobs (snd ?d) \<and> \<not> hw_job_ptr_locks (snd ?d) ! unat i
                    \<and> hw_job_ptr_locks p' = (hw_job_ptr_locks (snd ?d))[unat i := True])
           \<and> (res = None \<longrightarrow> hw_job_ptr_locks p' = hw_job_ptr_locks (snd ?d))"
  proof (rule acquireJob_while_total)
    show "pool_wf (snd ?d)" using assms(1) by (simp add: pool_wf_distribution)
    show "max_hw_jobs (snd ?d) \<noteq> - 1" using assms(2) by (simp add: distribution_fields)
    show "fst ?d < max_hw_jobs (snd ?d)" using pos by (simp add: distribution_fields distribution_in_range)
    show "0 \<le> max_hw_jobs (snd ?d)" by simp
  qed
  then obtain res r p' where w: "acquireJob_while (snd ?d) 0 (fst ?d) = Some (res, r, p')"
     "pool_frame (snd ?d) p'" "\<forall>i. res = Some i \<longrightarrow> i < max_hw_jobs (snd ?d)"
    by blast
  show ?thesis
  proof (cases res)
    case None
    with w True show ?thesis by (simp add: acquireJob_def isJobPoolReady_def Let_def)
  next
    case (Some i)
    with w have "i < max_hw_jobs p'" by (simp add: pool_frame_def)
    with w Some True show ?thesis by (simp add: acquireJob_def isJobPoolReady_def Let_def)
  qed
qed

lemma releaseJob_slot:
  assumes "job_pool_ready p" "job_ptr < unat (max_hw_jobs p)" "job_ptr < length (hw_job_ptr_locks p)"
    and "max_hw_jobs p - job_id = of_nat job_ptr"
  shows "releaseJob p job_id = Some (p\<lparr>hw_job_ptr_locks := (hw_job_ptr_locks p)[job_ptr := False]\<rparr>)"
proof -
  have "unat (max_hw_jobs p) < 2 ^ 32" using unsigned_less [of "max_hw_jobs p"] by simp
  with assms(2) have "job_ptr < 2 ^ 32" by linarith
  then have u: "unat (of_nat job_ptr :: UInt32) = job_ptr" by (simp add: unat_of_nat)
  then have "(of_nat job_ptr :: UInt32) < max_hw_jobs p" using assms(2) by (simp add: word_less_nat_alt)
  then show ?thesis using assms u by (simp add: releaseJob_def isJobPoolReady_def unLockJob_def)
qed

section \<open>The software codec\<close>

lemma do_qpl_execute_job_eq:
  "do_qpl_execute_job E path job s =
     (fst (qpl_execute_job E path job (memory s, device s)),
      fst (snd (qpl_execute_job E path job (memory s, device s))),
      s\<lparr>memory := fst (snd (snd (qpl_execute_job E path job (memory s, device s)))),
        device := snd (snd (snd (qpl_execute_job E path job (memory s, device s)))),
        calls := calls s @ [Call_execute path job]\<rparr>)"
  by (simp add: do_qpl_execute_job_def split: prod.splits)

lemma do_qpl_init_job_eq:
  "do_qpl_init_job E path s =
     (fst (qpl_init_job E path (memory s, device s)),
      fst (snd (qpl_init_job E path (memory s, device s))),
      s\<lparr>memory := fst (snd (snd (qpl_init_job E path (memory s, device s)))),
        device := snd (snd (snd (qpl_init_job E path (memory s, device s)))),
        calls := calls s @ [Call_init path]\<rparr>)"
  by (simp add: do_qpl_init_job_def split: prod.splits)

text \<open>The software codec reads and writes the machine and its own job, nothing else.\<close>

lemma getJobCodecPtr_frame:
  assumes "same_machine s t"
  shows "fst (getJobCodecPtr E sw s) = fst (getJobCodecPtr E sw t)
       \<and> fst (snd (getJobCodecPtr E sw s)) = fst (snd (getJobCodecPtr E sw t))
       \<and> same_machine (snd (snd (getJobCodecPtr E sw s))) (snd (snd (getJobCodecPtr E sw t)))"
  using assms
  by (simp add: getJobCodecPtr_def same_machine_def do_qpl_init_job_eq split: option.splits)

lemma sw_decompress_frame:
  assumes "same_machine s t"
  shows "fst (SoftwareCodecDeflateQpl_doDecompressData E source k dest n sw s)
           = fst (SoftwareCodecDeflateQpl_doDecompressData E source k dest n sw t)
       \<and> fst (snd (SoftwareCodecDeflateQpl_doDecompressData E source k dest n sw s))
           = fst (snd (SoftwareCodecDeflateQpl_doDecompressData E source k dest n sw t))
       \<and> same_machine (snd (snd (SoftwareCodecDeflateQpl_doDecompressData E source k dest n sw s)))
           (snd (snd (SoftwareCodecDeflateQpl_doDecompressData E source k dest n sw t)))"
proof -
  obtain g sw1 s1 where gs: "getJobCodecPtr E sw s = (g, sw1, s1)" by (cases "getJobCodecPtr E sw s")
  obtain g' sw1' t1 where gt: "getJobCodecPtr E sw t = (g', sw1', t1)" by (cases "getJobCodecPtr E sw t")
  from getJobCodecPtr_frame [OF assms, of E sw] gs gt
  have e: "g' = g" "sw1' = sw1" "same_machine s1 t1" by simp_all
  show ?thesis
    using e gs gt
    by (cases g)
       (simp_all add: SoftwareCodecDeflateQpl_doDecompressData_def same_machine_def
          do_qpl_execute_job_eq)
qed

lemma sw_compress_frame:
  assumes "same_machine s t"
  shows "fst (SoftwareCodecDeflateQpl_doCompressData E source k dest n sw s)
           = fst (SoftwareCodecDeflateQpl_doCompressData E source k dest n sw t)
       \<and> fst (snd (SoftwareCodecDeflateQpl_doCompressData E source k dest n sw s))
           = fst (snd (SoftwareCodecDeflateQpl_doCompressData E source k dest n sw t))
       \<and> same_machine (snd (snd (SoftwareCodecDeflateQpl_doCompressData E source k dest n sw s)))
           (snd (snd (SoftwareCodecDeflateQpl_doCompressData E source k dest n sw t)))"
proof -
  obtain g sw1 s1 where gs: "getJobCodecPtr E sw s = (g, sw1, s1)" by (cases "getJobCodecPtr E sw s")
  obtain g' sw1' t1 where gt: "getJobCodecPtr E sw t = (g', sw1', t1)" by (cases "getJobCodecPtr E sw t")
  from getJobCodecPtr_frame [OF assms, of E sw] gs gt
  have e: "g' = g" "sw1' = sw1" "same_machine s1 t1" by simp_all
  show ?thesis
    using e gs gt
    by (cases g)
       (simp_all add: SoftwareCodecDeflateQpl_doCompressData_def same_machine_def
          do_qpl_execute_job_eq)
qed

lemma software_decompress_eq:
  "software_decompress E source k dest n c s =
     (fst (SoftwareCodecDeflateQpl_doDecompressData E source k dest n (sw_codec c) s),
      c\<lparr>sw_codec := fst (snd (SoftwareCodecDeflateQpl_doDecompressData E source k dest n (sw_codec c) s))\<rparr>,
      snd (snd (SoftwareCodecDeflateQpl_doDecompressData E source k dest n (sw_codec c) s)))"
  by (simp add: software_decompress_def split: prod.splits)

lemma software_compress_eq:
  "software_compress E source k dest c s =
     (fst (SoftwareCodecDeflateQpl_doCompressData E source k dest (getMaxCompressedDataSize k) (sw_codec c) s),
      c\<lparr>sw_codec := fst (snd (SoftwareCodecDeflateQpl_doCompressData E source k dest (getMaxCompressedDataSize k) (sw_codec c) s))\<rparr>,
      snd (snd (SoftwareCodecDeflateQpl_doCompressData E source k dest (getMaxCompressedDataSize k) (sw_codec c) s)))"
  by (simp add: software_compress_def split: prod.splits)

lemma software_decompress_frame:
  assumes "same_machine s t"
  shows "fst (software_decompress E source k dest n c s) = fst (software_decompress E source k dest n c t)
       \<and> fst (snd (software_decompress E source k dest n c s))
           = fst (snd (software_decompress E source k dest n c t))
       \<and> same_machine (snd (snd (software_decompress E source k dest n c s)))
           (snd (snd (software_decompress E source k dest n c t)))"
  using sw_decompress_frame [OF assms, of E source k dest n "sw_codec c"]
  by (simp add: software_decompress_eq)

lemma software_compress_frame:
  assumes "same_machine s t"
  shows "fst (software_compress E source k dest c s) = fst (software_compress E source k dest c t)
       \<and> fst (snd (software_compress E source k dest c s))
           = fst (snd (software_compress E source k dest c t))
       \<and> same_machine (snd (snd (software_compress E source k dest c s)))
           (snd (snd (software_compress E source k dest c t)))"
  using sw_compress_frame [OF assms, of E source k dest "getMaxCompressedDataSize k" "sw_codec c"]
  by (simp add: software_compress_eq)

lemma getJobCodecPtr_pool: "pool (snd (snd (getJobCodecPtr E sw s))) = pool s"
  by (simp add: getJobCodecPtr_def do_qpl_init_job_eq split: option.splits)

lemma sw_decompress_pool:
  "pool (snd (snd (SoftwareCodecDeflateQpl_doDecompressData E source k dest n sw s))) = pool s"
proof -
  obtain g sw1 s1 where gs: "getJobCodecPtr E sw s = (g, sw1, s1)" by (cases "getJobCodecPtr E sw s")
  with getJobCodecPtr_pool [of E sw s] have "pool s1 = pool s" by simp
  then show ?thesis using gs
    by (cases g) (simp_all add: SoftwareCodecDeflateQpl_doDecompressData_def do_qpl_execute_job_eq)
qed

section \<open>The hardware codec\<close>

lemma do_qpl_submit_job_eq:
  "do_qpl_submit_job E job_ptr job s =
     (fst (qpl_submit_job E job_ptr job (memory s, device s)),
      fst (snd (qpl_submit_job E job_ptr job (memory s, device s))),
      s\<lparr>memory := fst (snd (snd (qpl_submit_job E job_ptr job (memory s, device s)))),
        device := snd (snd (snd (qpl_submit_job E job_ptr job (memory s, device s)))),
        calls := calls s @ [Call_submit job_ptr job]\<rparr>)"
  by (simp add: do_qpl_submit_job_def split: prod.splits)

lemma releaseJob_after_acquire:
  assumes a: "acquireJob (pool s) = Some (Some (job_ptr, job_id), p)"
    and s1: "pool s1 = p"
  shows "releaseJob (pool (store_job job_ptr job s1)) job_id =
           Some ((pool (store_job job_ptr job s1))\<lparr>hw_job_ptr_locks := hw_job_ptr_locks (pool s)\<rparr>)"
proof -
  note s = acquireJob_sound(3) [OF a refl]
  note f = acquireJob_sound(1) [OF a]
  let ?q = "pool (store_job job_ptr job s1)"
  have "releaseJob ?q job_id = Some (?q\<lparr>hw_job_ptr_locks := (hw_job_ptr_locks ?q)[job_ptr := False]\<rparr>)"
    using s f s1 by (intro releaseJob_slot) (simp_all add: pool_frame_def store_job_def)
  moreover have "(hw_job_ptr_locks ?q)[job_ptr := False] = hw_job_ptr_locks (pool s)"
    using s s1 by (simp add: store_job_def list_update_same_conv)
  ultimately show ?thesis by simp
qed


lemma getJobCodecPtr_calls:
  "calls (snd (snd (getJobCodecPtr E sw s))) = calls s
   \<or> calls (snd (snd (getJobCodecPtr E sw s))) = calls s @ [Call_init qpl_path_software]"
  by (simp add: getJobCodecPtr_def do_qpl_init_job_eq split: option.splits)

lemma compress_job_hw:
  "j\<lparr>op := qpl_op_compress, next_in_ptr := source, next_out_ptr := dest,
      available_in := n, level := qpl_default_level, available_out := dsz,
      flags := {QPL_FLAG_FIRST, QPL_FLAG_DYNAMIC_HUFFMAN, QPL_FLAG_LAST, QPL_FLAG_OMIT_VERIFY}\<rparr>
   = compress_job j source n dest dsz"
  by (simp add: compress_job_def)

lemma compress_job_sw:
  "j\<lparr>op := qpl_op_compress, next_in_ptr := source, next_out_ptr := dest,
      available_in := n, available_out := dsz, level := qpl_default_level,
      flags := {QPL_FLAG_FIRST, QPL_FLAG_DYNAMIC_HUFFMAN, QPL_FLAG_LAST, QPL_FLAG_OMIT_VERIFY}\<rparr>
   = compress_job j source n dest dsz"
  by (simp add: compress_job_def)

lemma compress_job_fields:
  "available_out (compress_job j source n dest dsz) = dsz"
  "next_out_ptr (compress_job j source n dest dsz) = dest"
  "op (compress_job j source n dest dsz) = qpl_op_compress"
  by (simp_all add: compress_job_def)

lemma sw_compress_result:
  assumes "SoftwareCodecDeflateQpl_doCompressData E source n dest dsz sw s = (r, sw', s')"
  shows "\<exists>new. calls s' = calls s @ new
           \<and> (\<forall>path job. Call_execute path job \<in> set new \<longrightarrow>
                 path = qpl_path_software \<and> (\<exists>j. job = compress_job j source n dest dsz))
           \<and> (engine_respects_capacity E \<longrightarrow> (\<forall>res. r = Inr res \<longrightarrow> res \<le> dsz))"
proof (cases "getJobCodecPtr E sw s")
  case (fields g sw1 s1)
  note c = getJobCodecPtr_calls [of E sw s, unfolded fields, simplified]
  show ?thesis
  proof (cases g)
    case (Inl e)
    with assms fields have "s' = s1" by (simp add: SoftwareCodecDeflateQpl_doCompressData_def)
    with c show ?thesis using assms fields Inl
      by (auto simp: SoftwareCodecDeflateQpl_doCompressData_def)
  next
    case (Inr j)
    let ?cfg = "compress_job j source n dest dsz"
    let ?x = "qpl_execute_job E qpl_path_software ?cfg (memory s1, device s1)"
    have s': "calls s' = calls s1 @ [Call_execute qpl_path_software ?cfg]"
      and r: "r = (if fst ?x \<noteq> QPL_STS_OK then Inl (Exception CANNOT_COMPRESS (fst ?x))
                   else Inr (total_out (fst (snd ?x))))"
      using assms fields Inr
      by (auto simp: SoftwareCodecDeflateQpl_doCompressData_def compress_job_sw
            do_qpl_execute_job_eq split: if_splits)
    have b: "engine_respects_capacity E \<longrightarrow> (\<forall>res. r = Inr res \<longrightarrow> res \<le> dsz)"
    proof (intro impI allI)
      fix res assume e: "engine_respects_capacity E" and "r = Inr res"
      with r have ok: "fst ?x = QPL_STS_OK" and res: "res = total_out (fst (snd ?x))"
        by (auto split: if_splits)
      from e ok have "total_out (fst (snd ?x)) \<le> available_out ?cfg"
        unfolding engine_respects_capacity_def by blast
      then show "res \<le> dsz" using res by (simp add: compress_job_fields)
    qed
    from c show ?thesis
    proof
      assume "calls s1 = calls s"
      with s' b show ?thesis by (intro exI [of _ "[Call_execute qpl_path_software ?cfg]"]) auto
    next
      assume "calls s1 = calls s @ [Call_init qpl_path_software]"
      with s' b show ?thesis
        by (intro exI [of _ "[Call_init qpl_path_software, Call_execute qpl_path_software ?cfg]"]) auto
    qed
  qed
qed

lemma hw_compress_result:
  assumes "HardwareCodecDeflateQpl_doCompressData E source n dest dsz s = Some (res, s')"
  shows "\<exists>new. calls s' = calls s @ new
           \<and> (\<forall>path job. Call_execute path job \<in> set new \<longrightarrow>
                 path = qpl_path_hardware \<and> (\<exists>j. job = compress_job j source n dest dsz))
           \<and> (engine_respects_capacity E \<longrightarrow> res = RET_ERROR E \<or> res \<le> dsz)"
proof -
  from assms obtain a p where acq: "acquireJob (pool s) = Some (a, p)"
    by (cases "acquireJob (pool s)") (auto simp: HardwareCodecDeflateQpl_doCompressData_def)
  show ?thesis
  proof (cases a)
    case None
    with assms acq have "res = RET_ERROR E" "s' = s\<lparr>pool := p\<rparr>"
      by (simp_all add: HardwareCodecDeflateQpl_doCompressData_def)
    then show ?thesis by simp
  next
    case (Some pj)
    obtain job_ptr job_id where pj: "pj = (job_ptr, job_id)" by (cases pj)
    let ?j = "load_job (s\<lparr>pool := p\<rparr>) job_ptr"
    let ?cfg = "compress_job ?j source n dest dsz"
    let ?x = "qpl_execute_job E qpl_path_hardware ?cfg (memory s, device s)"
    have s': "calls s' = calls s @ [Call_execute qpl_path_hardware ?cfg]"
      and r: "res = (if fst ?x = QPL_STS_OK then total_out (fst (snd ?x)) else RET_ERROR E)"
      using assms acq Some pj
      by (auto simp: HardwareCodecDeflateQpl_doCompressData_def compress_job_hw
            do_qpl_execute_job_eq store_job_def split: if_splits option.splits)
    have b: "engine_respects_capacity E \<longrightarrow> res = RET_ERROR E \<or> res \<le> dsz"
    proof
      assume e: "engine_respects_capacity E"
      show "res = RET_ERROR E \<or> res \<le> dsz"
      proof (cases "fst ?x = QPL_STS_OK")
        case True
        with e have "total_out (fst (snd ?x)) \<le> available_out ?cfg"
          unfolding engine_respects_capacity_def by blast
        with True r show ?thesis by (simp add: compress_job_fields)
      next
        case False
        with r show ?thesis by simp
      qed
    qed
    with s' show ?thesis by (intro exI [of _ "[Call_execute qpl_path_hardware ?cfg]"]) auto
  qed
qed


lemma do_qpl_check_job_eq:
  "do_qpl_check_job E job_ptr job s =
     (fst (qpl_check_job E job_ptr job (memory s, device s)),
      fst (snd (qpl_check_job E job_ptr job (memory s, device s))),
      s\<lparr>memory := fst (snd (snd (qpl_check_job E job_ptr job (memory s, device s)))),
        device := snd (snd (snd (qpl_check_job E job_ptr job (memory s, device s)))),
        calls := calls s @ [Call_check job_ptr (fst (qpl_check_job E job_ptr job (memory s, device s)))
                              (fst (snd (qpl_check_job E job_ptr job (memory s, device s))))]\<rparr>)"
  by (simp add: do_qpl_check_job_def split: prod.splits)

lemma do_tpause_pool: "pool (do_tpause E s) = pool s"
  by (simp add: do_tpause_def split: prod.splits)

lemma wait_pool:
  assumes "doDecompressDataSynchronous_wait E job_ptr job s = Some y"
  shows "pool (snd (snd y)) = pool s"
proof (rule doDecompressDataSynchronous_wait.raw_induct [OF _ assms])
  fix f E job_ptr job and s :: "'a process" and y
  assume IH: "\<And>E job_ptr job (s :: 'a process) y. f E job_ptr job s = Some y \<Longrightarrow> pool (snd (snd y)) = pool s"
    and body: "(case do_qpl_check_job E job_ptr job (do_tpause E s) of
        (status, job', s') \<Rightarrow>
          if status = QPL_STS_BEING_PROCESSED then f E job_ptr job' s'
          else Some (status, job', s')) = Some y"
  let ?x = "do_qpl_check_job E job_ptr job (do_tpause E s)"
  have p: "pool (snd (snd ?x)) = pool s" by (simp add: do_qpl_check_job_eq do_tpause_pool)
  show "pool (snd (snd y)) = pool s"
  proof (cases "fst ?x = QPL_STS_BEING_PROCESSED")
    case True
    with body have "f E job_ptr (fst (snd ?x)) (snd (snd ?x)) = Some y"
      by (simp split: prod.splits)
    from IH [OF this] p show ?thesis by simp
  next
    case False
    with body have "y = ?x" by (auto split: prod.splits)
    with p show ?thesis by simp
  qed
qed

text \<open>The kinds of hardware failure, and what the hardware codec returns for each.\<close>

lemma hw_compress_acquire_fails:
  assumes "acquireJob (pool s) = Some (None, p)"
  shows "HardwareCodecDeflateQpl_doCompressData E source k dest dsz s = Some (RET_ERROR E, s\<lparr>pool := p\<rparr>)"
  using assms by (simp add: HardwareCodecDeflateQpl_doCompressData_def)

lemma hw_compress_execute_fails:
  assumes a: "acquireJob (pool s) = Some (Some (job_ptr, job_id), p)"
    and x: "fst (qpl_execute_job E qpl_path_hardware
                  (compress_job (hw_jobs_buffer p ! job_ptr) source k dest dsz) (memory s, device s))
            \<noteq> QPL_STS_OK"
  shows "\<exists>s1. HardwareCodecDeflateQpl_doCompressData E source k dest dsz s = Some (RET_ERROR E, s1)
           \<and> hw_job_ptr_locks (pool s1) = hw_job_ptr_locks (pool s)"
proof -
  let ?cfg = "compress_job (hw_jobs_buffer p ! job_ptr) source k dest dsz"
  let ?r = "qpl_execute_job E qpl_path_hardware ?cfg (memory s, device s)"
  let ?s1 = "s\<lparr>pool := p, memory := fst (snd (snd ?r)), device := snd (snd (snd ?r)),
               calls := calls s @ [Call_execute qpl_path_hardware ?cfg]\<rparr>"
  have rel: "releaseJob (pool (store_job job_ptr (fst (snd ?r)) ?s1)) job_id =
           Some ((pool (store_job job_ptr (fst (snd ?r)) ?s1))\<lparr>hw_job_ptr_locks := hw_job_ptr_locks (pool s)\<rparr>)"
    by (rule releaseJob_after_acquire [OF a]) simp
  have "HardwareCodecDeflateQpl_doCompressData E source k dest dsz s =
      Some (RET_ERROR E, (store_job job_ptr (fst (snd ?r)) ?s1)\<lparr>pool :=
         (pool (store_job job_ptr (fst (snd ?r)) ?s1))\<lparr>hw_job_ptr_locks := hw_job_ptr_locks (pool s)\<rparr>\<rparr>)"
    using a x rel
    by (simp add: HardwareCodecDeflateQpl_doCompressData_def compress_job_hw do_qpl_execute_job_eq
          load_job_def)
  then show ?thesis by simp
qed

lemma hw_sync_acquire_fails:
  assumes "acquireJob (pool s) = Some (None, p)"
  shows "HardwareCodecDeflateQpl_doDecompressDataSynchronous E source k dest n s
           = Some (RET_ERROR E, s\<lparr>pool := p\<rparr>)"
  using assms by (simp add: HardwareCodecDeflateQpl_doDecompressDataSynchronous_def)

lemma hw_sync_submit_fails:
  assumes a: "acquireJob (pool s) = Some (Some (job_ptr, job_id), p)"
    and x: "fst (qpl_submit_job E job_ptr
                  (decompress_job (hw_jobs_buffer p ! job_ptr) source k dest n) (memory s, device s))
            \<noteq> QPL_STS_OK"
  shows "\<exists>s1. HardwareCodecDeflateQpl_doDecompressDataSynchronous E source k dest n s = Some (RET_ERROR E, s1)
           \<and> hw_job_ptr_locks (pool s1) = hw_job_ptr_locks (pool s)"
proof -
  let ?cfg = "decompress_job (hw_jobs_buffer p ! job_ptr) source k dest n"
  let ?r = "qpl_submit_job E job_ptr ?cfg (memory s, device s)"
  let ?s1 = "s\<lparr>pool := p, memory := fst (snd (snd ?r)), device := snd (snd (snd ?r)),
               calls := calls s @ [Call_submit job_ptr ?cfg]\<rparr>"
  have rel: "releaseJob (pool (store_job job_ptr (fst (snd ?r)) ?s1)) job_id =
           Some ((pool (store_job job_ptr (fst (snd ?r)) ?s1))\<lparr>hw_job_ptr_locks := hw_job_ptr_locks (pool s)\<rparr>)"
    by (rule releaseJob_after_acquire [OF a]) simp
  have "HardwareCodecDeflateQpl_doDecompressDataSynchronous E source k dest n s =
      Some (RET_ERROR E, (store_job job_ptr (fst (snd ?r)) ?s1)\<lparr>pool :=
         (pool (store_job job_ptr (fst (snd ?r)) ?s1))\<lparr>hw_job_ptr_locks := hw_job_ptr_locks (pool s)\<rparr>\<rparr>)"
    using a x rel
    by (simp add: HardwareCodecDeflateQpl_doDecompressDataSynchronous_def decompress_job_def
          do_qpl_submit_job_eq load_job_def)
  then show ?thesis by simp
qed

lemma hw_sync_poll_fails:
  assumes a: "acquireJob (pool s) = Some (Some (job_ptr, job_id), p)"
    and x: "do_qpl_submit_job E job_ptr
              (decompress_job (hw_jobs_buffer p ! job_ptr) source k dest n) (s\<lparr>pool := p\<rparr>)
            = (QPL_STS_OK, job, s')"
    and w: "doDecompressDataSynchronous_wait E job_ptr job s' = Some (status, job', s'')"
    and f: "status \<noteq> QPL_STS_OK"
  shows "\<exists>s1. HardwareCodecDeflateQpl_doDecompressDataSynchronous E source k dest n s = Some (RET_ERROR E, s1)
           \<and> hw_job_ptr_locks (pool s1) = hw_job_ptr_locks (pool s)"
proof -
  have "pool s' = p" using x by (auto simp: do_qpl_submit_job_eq)
  with wait_pool [OF w] have p: "pool s'' = p" by simp
  have rel: "releaseJob (pool (store_job job_ptr job' s'')) job_id =
           Some ((pool (store_job job_ptr job' s''))\<lparr>hw_job_ptr_locks := hw_job_ptr_locks (pool s)\<rparr>)"
    by (rule releaseJob_after_acquire [OF a p])
  have "HardwareCodecDeflateQpl_doDecompressDataSynchronous E source k dest n s =
      Some (RET_ERROR E, (store_job job_ptr job' s'')\<lparr>pool :=
         (pool (store_job job_ptr job' s''))\<lparr>hw_job_ptr_locks := hw_job_ptr_locks (pool s)\<rparr>\<rparr>)"
    using a x w f rel
    by (simp add: HardwareCodecDeflateQpl_doDecompressDataSynchronous_def decompress_job_def
          load_job_def)
  then show ?thesis by simp
qed

lemma hw_async_acquire_fails:
  assumes "acquireJob (pool s) = Some (None, p)"
  shows "HardwareCodecDeflateQpl_doDecompressDataAsynchronous E source k dest n hw s
           = Some (RET_ERROR E, hw, s\<lparr>pool := p\<rparr>)"
  using assms by (simp add: HardwareCodecDeflateQpl_doDecompressDataAsynchronous_def)

lemma hw_async_submit_fails:
  assumes a: "acquireJob (pool s) = Some (Some (job_ptr, job_id), p)"
    and x: "fst (qpl_submit_job E job_ptr
                  (decompress_job (hw_jobs_buffer p ! job_ptr) source k dest n) (memory s, device s))
            \<noteq> QPL_STS_OK"
  shows "\<exists>s1. HardwareCodecDeflateQpl_doDecompressDataAsynchronous E source k dest n hw s
                = Some (RET_ERROR E, hw, s1)
           \<and> hw_job_ptr_locks (pool s1) = hw_job_ptr_locks (pool s)"
proof -
  let ?cfg = "decompress_job (hw_jobs_buffer p ! job_ptr) source k dest n"
  let ?r = "qpl_submit_job E job_ptr ?cfg (memory s, device s)"
  let ?s1 = "s\<lparr>pool := p, memory := fst (snd (snd ?r)), device := snd (snd (snd ?r)),
               calls := calls s @ [Call_submit job_ptr ?cfg]\<rparr>"
  have rel: "releaseJob (pool (store_job job_ptr (fst (snd ?r)) ?s1)) job_id =
           Some ((pool (store_job job_ptr (fst (snd ?r)) ?s1))\<lparr>hw_job_ptr_locks := hw_job_ptr_locks (pool s)\<rparr>)"
    by (rule releaseJob_after_acquire [OF a]) simp
  have "HardwareCodecDeflateQpl_doDecompressDataAsynchronous E source k dest n hw s =
      Some (RET_ERROR E, hw, (store_job job_ptr (fst (snd ?r)) ?s1)\<lparr>pool :=
         (pool (store_job job_ptr (fst (snd ?r)) ?s1))\<lparr>hw_job_ptr_locks := hw_job_ptr_locks (pool s)\<rparr>\<rparr>)"
    using a x rel
    by (simp add: HardwareCodecDeflateQpl_doDecompressDataAsynchronous_def decompress_job_def
          do_qpl_submit_job_eq load_job_def)
  then show ?thesis by simp
qed

lemma slot_balance_cong:
  assumes "hw_job_ptr_locks p' = hw_job_ptr_locks p" "max_hw_jobs p' = max_hw_jobs p"
    "job_pool_ready p' = job_pool_ready p"
  shows "slot_balance p' hw others = slot_balance p hw others"
  using assms by (simp add: slot_balance_def pending_wf_def held_slots_def)

lemma store_job_slots:
  "hw_job_ptr_locks (pool (store_job job_ptr job s)) = hw_job_ptr_locks (pool s)"
  "max_hw_jobs (pool (store_job job_ptr job s)) = max_hw_jobs (pool s)"
  "job_pool_ready (pool (store_job job_ptr job s)) = job_pool_ready (pool s)"
  "calls (store_job job_ptr job s) = calls s"
  "memory (store_job job_ptr job s) = memory s"
  "device (store_job job_ptr job s) = device s"
  by (simp_all add: store_job_def)

lemma hw_compress_slots:
  assumes "HardwareCodecDeflateQpl_doCompressData E source k dest dsz s = Some (res, s')"
  shows "hw_job_ptr_locks (pool s') = hw_job_ptr_locks (pool s)
       \<and> max_hw_jobs (pool s') = max_hw_jobs (pool s)
       \<and> job_pool_ready (pool s') = job_pool_ready (pool s)"
proof -
  from assms obtain a p where acq: "acquireJob (pool s) = Some (a, p)"
    by (cases "acquireJob (pool s)") (auto simp: HardwareCodecDeflateQpl_doCompressData_def)
  note f = acquireJob_sound(1) [OF acq]
  show ?thesis
  proof (cases a)
    case None
    with assms acq have "s' = s\<lparr>pool := p\<rparr>"
      by (simp add: HardwareCodecDeflateQpl_doCompressData_def)
    with f acquireJob_sound(2) [OF acq None] show ?thesis by (simp add: pool_frame_def)
  next
    case (Some pj)
    obtain job_ptr job_id where pj: "pj = (job_ptr, job_id)" by (cases pj)
    let ?cfg = "compress_job (load_job (s\<lparr>pool := p\<rparr>) job_ptr) source k dest dsz"
    let ?r = "qpl_execute_job E qpl_path_hardware ?cfg (memory s, device s)"
    let ?s1 = "s\<lparr>pool := p, memory := fst (snd (snd ?r)), device := snd (snd (snd ?r)),
                 calls := calls s @ [Call_execute qpl_path_hardware ?cfg]\<rparr>"
    let ?s2 = "store_job job_ptr (fst (snd ?r)) ?s1"
    have a: "acquireJob (pool s) = Some (Some (job_ptr, job_id), p)" using acq Some pj by simp
    have rel: "releaseJob (pool ?s2) job_id =
           Some ((pool ?s2)\<lparr>hw_job_ptr_locks := hw_job_ptr_locks (pool s)\<rparr>)"
      by (rule releaseJob_after_acquire [OF a]) simp
    have "s' = ?s2\<lparr>pool := (pool ?s2)\<lparr>hw_job_ptr_locks := hw_job_ptr_locks (pool s)\<rparr>\<rparr>"
      using assms a rel
      by (simp add: HardwareCodecDeflateQpl_doCompressData_def compress_job_hw do_qpl_execute_job_eq
            split: if_splits)
    then show ?thesis using f by (simp add: store_job_def pool_frame_def)
  qed
qed

lemma hw_sync_slots:
  assumes "HardwareCodecDeflateQpl_doDecompressDataSynchronous E source k dest n s = Some (res, s')"
  shows "hw_job_ptr_locks (pool s') = hw_job_ptr_locks (pool s)
       \<and> max_hw_jobs (pool s') = max_hw_jobs (pool s)
       \<and> job_pool_ready (pool s') = job_pool_ready (pool s)"
proof -
  from assms obtain a p where acq: "acquireJob (pool s) = Some (a, p)"
    by (cases "acquireJob (pool s)") (auto simp: HardwareCodecDeflateQpl_doDecompressDataSynchronous_def)
  note f = acquireJob_sound(1) [OF acq]
  show ?thesis
  proof (cases a)
    case None
    with assms acq have "s' = s\<lparr>pool := p\<rparr>"
      by (simp add: HardwareCodecDeflateQpl_doDecompressDataSynchronous_def)
    with f acquireJob_sound(2) [OF acq None] show ?thesis by (simp add: pool_frame_def)
  next
    case (Some pj)
    obtain job_ptr job_id where pj: "pj = (job_ptr, job_id)" by (cases pj)
    let ?cfg = "decompress_job (load_job (s\<lparr>pool := p\<rparr>) job_ptr) source k dest n"
    let ?r = "qpl_submit_job E job_ptr ?cfg (memory s, device s)"
    let ?s1 = "s\<lparr>pool := p, memory := fst (snd (snd ?r)), device := snd (snd (snd ?r)),
                 calls := calls s @ [Call_submit job_ptr ?cfg]\<rparr>"
    have a: "acquireJob (pool s) = Some (Some (job_ptr, job_id), p)" using acq Some pj by simp
    have sub: "do_qpl_submit_job E job_ptr ?cfg (s\<lparr>pool := p\<rparr>) = (fst ?r, fst (snd ?r), ?s1)"
      by (simp add: do_qpl_submit_job_eq)
    have rel: "\<And>job (t :: 'a process). pool t = p \<Longrightarrow> releaseJob (pool (store_job job_ptr job t)) job_id =
           Some ((pool (store_job job_ptr job t))\<lparr>hw_job_ptr_locks := hw_job_ptr_locks (pool s)\<rparr>)"
      by (rule releaseJob_after_acquire [OF a])
    have fin: "\<And>job (t :: 'a process). pool t = p \<Longrightarrow>
        s' = (store_job job_ptr job t)\<lparr>pool := (pool (store_job job_ptr job t))\<lparr>hw_job_ptr_locks := hw_job_ptr_locks (pool s)\<rparr>\<rparr>
        \<Longrightarrow> ?thesis"
      using f by (simp add: store_job_def pool_frame_def)
    show ?thesis
    proof (cases "fst ?r = QPL_STS_OK")
      case False
      have "s' = (store_job job_ptr (fst (snd ?r)) ?s1)\<lparr>pool :=
           (pool (store_job job_ptr (fst (snd ?r)) ?s1))\<lparr>hw_job_ptr_locks := hw_job_ptr_locks (pool s)\<rparr>\<rparr>"
        using assms a False rel [of ?s1 "fst (snd ?r)"]
        by (simp add: HardwareCodecDeflateQpl_doDecompressDataSynchronous_def decompress_job_def
              do_qpl_submit_job_eq)
      then show ?thesis by (intro fin [of ?s1]) simp_all
    next
      case True
      from assms a True sub obtain y where w: "doDecompressDataSynchronous_wait E job_ptr (fst (snd ?r)) ?s1 = Some y"
        by (cases "doDecompressDataSynchronous_wait E job_ptr (fst (snd ?r)) ?s1")
           (auto simp: HardwareCodecDeflateQpl_doDecompressDataSynchronous_def decompress_job_def
              do_qpl_submit_job_eq)
      obtain st job' s2 where y: "y = (st, job', s2)" by (cases y) auto
      have p2: "pool s2 = p" using wait_pool [OF w] y by simp
      have "s' = (store_job job_ptr job' s2)\<lparr>pool :=
           (pool (store_job job_ptr job' s2))\<lparr>hw_job_ptr_locks := hw_job_ptr_locks (pool s)\<rparr>\<rparr>"
        using assms a True w y rel [OF p2, of job']
        by (simp add: HardwareCodecDeflateQpl_doDecompressDataSynchronous_def decompress_job_def
              do_qpl_submit_job_eq split: if_splits)
      then show ?thesis by (intro fin [OF p2])
    qed
  qed
qed

lemma map_insert_set:
  "fst kv \<notin> fst ` set m \<Longrightarrow> set (map_insert kv m) = insert kv (set m)"
  by (induction m) auto

lemma map_insert_distinct:
  "fst kv \<notin> fst ` set m \<Longrightarrow> snd kv \<notin> snd ` set m \<Longrightarrow> distinct (map snd m)
     \<Longrightarrow> distinct (map snd (map_insert kv m))"
  by (induction m) (auto simp: map_insert_set)

lemma of_nat_slot_inj:
  fixes cap :: UInt32
  assumes "i < unat cap" "j < unat cap" "(of_nat i :: UInt32) = of_nat j"
  shows "i = j"
proof -
  have ui: "unat (of_nat i :: UInt32) = i" by (rule le_unat_uoi [of i cap]) (use assms(1) in simp)
  have uj: "unat (of_nat j :: UInt32) = j" by (rule le_unat_uoi [of j cap]) (use assms(2) in simp)
  have "i = unat (of_nat i :: UInt32)" by (rule ui [symmetric])
  also have "\<dots> = unat (of_nat j :: UInt32)" by (rule arg_cong [OF assms(3)])
  also have "\<dots> = j" by (rule uj)
  finally show ?thesis .
qed

lemma held_slots_update:
  assumes "i < length (hw_job_ptr_locks p)"
  shows "held_slots (p\<lparr>hw_job_ptr_locks := (hw_job_ptr_locks p)[i := True]\<rparr>) = insert i (held_slots p)"
    and "held_slots (p\<lparr>hw_job_ptr_locks := (hw_job_ptr_locks p)[i := False]\<rparr>) = held_slots p - {i}"
  using assms by (auto simp: held_slots_def nth_list_update)

lemma held_slots_locks:
  "hw_job_ptr_locks p' = hw_job_ptr_locks p \<Longrightarrow> held_slots p' = held_slots p"
  by (simp add: held_slots_def)

lemma hw_async_balance:
  assumes bal: "slot_balance (pool s) hw others"
    and run: "HardwareCodecDeflateQpl_doDecompressDataAsynchronous E source k dest n hw s = Some (res, hw', s')"
  shows "slot_balance (pool s') hw' others
       \<and> (hw' = hw \<and> hw_job_ptr_locks (pool s') = hw_job_ptr_locks (pool s)
          \<or> (\<exists>job_ptr. job_ptr \<notin> held_slots (pool s)
                \<and> held_slots (pool s') = insert job_ptr (held_slots (pool s))
                \<and> registered_slots hw' = insert job_ptr (registered_slots hw)
                \<and> res = max_hw_jobs (pool s) - of_nat job_ptr))"
proof -
  from run obtain a p where acq: "acquireJob (pool s) = Some (a, p)"
    by (cases "acquireJob (pool s)") (auto simp: HardwareCodecDeflateQpl_doDecompressDataAsynchronous_def)
  note f = acquireJob_sound(1) [OF acq]
  show ?thesis
  proof (cases a)
    case None
    with run acq have e: "s' = s\<lparr>pool := p\<rparr>" "hw' = hw"
      by (simp_all add: HardwareCodecDeflateQpl_doDecompressDataAsynchronous_def)
    have l: "hw_job_ptr_locks (pool s') = hw_job_ptr_locks (pool s)"
      using e acquireJob_sound(2) [OF acq None] by simp
    have "slot_balance (pool s') hw others = slot_balance (pool s) hw others"
      using l f e by (intro slot_balance_cong) (simp_all add: pool_frame_def)
    with bal e l show ?thesis by simp
  next
    case (Some pj)
    obtain job_ptr job_id where pj: "pj = (job_ptr, job_id)" by (cases pj)
    let ?cfg = "decompress_job (load_job (s\<lparr>pool := p\<rparr>) job_ptr) source k dest n"
    let ?r = "qpl_submit_job E job_ptr ?cfg (memory s, device s)"
    let ?s1 = "s\<lparr>pool := p, memory := fst (snd (snd ?r)), device := snd (snd (snd ?r)),
                 calls := calls s @ [Call_submit job_ptr ?cfg]\<rparr>"
    let ?s2 = "store_job job_ptr (fst (snd ?r)) ?s1"
    have a: "acquireJob (pool s) = Some (Some (job_ptr, job_id), p)" using acq Some pj by simp
    note snd = acquireJob_sound(3) [OF a refl]
    show ?thesis
    proof (cases "fst ?r = QPL_STS_OK")
      case False
      have rel: "releaseJob (pool ?s2) job_id =
           Some ((pool ?s2)\<lparr>hw_job_ptr_locks := hw_job_ptr_locks (pool s)\<rparr>)"
        by (rule releaseJob_after_acquire [OF a]) simp
      have e: "s' = ?s2\<lparr>pool := (pool ?s2)\<lparr>hw_job_ptr_locks := hw_job_ptr_locks (pool s)\<rparr>\<rparr>" "hw' = hw"
        using run a False rel
        by (simp_all add: HardwareCodecDeflateQpl_doDecompressDataAsynchronous_def decompress_job_def
              do_qpl_submit_job_eq)
      have l: "hw_job_ptr_locks (pool s') = hw_job_ptr_locks (pool s)" using e by simp
      have "slot_balance (pool s') hw others = slot_balance (pool s) hw others"
        using l f e by (intro slot_balance_cong) (simp_all add: pool_frame_def store_job_def)
      with bal e l show ?thesis by simp
    next
      case True
      have e: "s' = ?s2" "hw' = hw\<lparr>decomp_async_job_map := map_insert (job_id, job_ptr) (decomp_async_job_map hw)\<rparr>"
        "res = job_id"
        using run a True
        by (auto simp: HardwareCodecDeflateQpl_doDecompressDataAsynchronous_def decompress_job_def
              do_qpl_submit_job_eq)
      let ?m = "decomp_async_job_map hw"
      have free: "job_ptr \<notin> held_slots (pool s)" using snd by (simp add: held_slots_def)
      then have nreg: "job_ptr \<notin> registered_slots hw" "job_ptr \<notin> others"
        using bal by (auto simp: slot_balance_def)
      have nkey: "job_id \<notin> fst ` set ?m"
      proof
        assume "job_id \<in> fst ` set ?m"
        then obtain e where e': "e \<in> set ?m" "fst e = job_id" by auto
        with bal have "snd e < unat (max_hw_jobs (pool s))"
            "max_hw_jobs (pool s) - fst e = of_nat (snd e)"
          by (auto simp: slot_balance_def pending_wf_def)
        with snd e' have "snd e = job_ptr"
          by (intro of_nat_slot_inj [of _ "max_hw_jobs (pool s)"]) simp_all
        with e' nreg show False by (auto simp: registered_slots_def)
      qed
      have set': "set (decomp_async_job_map hw') = insert (job_id, job_ptr) (set ?m)"
        using e nkey by (simp add: map_insert_set)
      have reg: "registered_slots hw' = insert job_ptr (registered_slots hw)"
        using set' by (simp add: registered_slots_def)
      have lk: "hw_job_ptr_locks (pool s') = (hw_job_ptr_locks (pool s))[job_ptr := True]"
        using e snd by (simp add: store_job_def)
      have held: "held_slots (pool s') = insert job_ptr (held_slots (pool s))"
        using lk snd by (auto simp: held_slots_def nth_list_update)
      have mx: "max_hw_jobs (pool s') = max_hw_jobs (pool s)" "job_pool_ready (pool s') = job_pool_ready (pool s)"
        using e f by (simp_all add: store_job_def pool_frame_def)
      have wf: "pending_wf (pool s') hw'"
        unfolding pending_wf_def
      proof (intro conjI ballI)
        show "distinct (map snd (decomp_async_job_map hw'))"
          using e nkey nreg bal
          by (simp add: map_insert_distinct registered_slots_def slot_balance_def pending_wf_def)
      next
        fix x assume "x \<in> set (decomp_async_job_map hw')"
        with set' have "x = (job_id, job_ptr) \<or> x \<in> set ?m" by simp
        then show "snd x < unat (max_hw_jobs (pool s'))"
          "max_hw_jobs (pool s') - fst x = of_nat (snd x)"
          using bal snd mx by (auto simp: slot_balance_def pending_wf_def)
      qed
      have "slot_balance (pool s') hw' others"
        using bal wf held reg mx lk nreg
        by (auto simp: slot_balance_def)
      moreover have "res = max_hw_jobs (pool s) - of_nat job_ptr" using e snd by simp
      ultimately show ?thesis using free held reg by blast
    qed
  qed
qed

lemma map_erase_length: "it < length m \<Longrightarrow> length (map_erase it m) = length m - 1"
  by (simp add: map_erase_def)

lemma map_erase_set:
  assumes "it < length m" "distinct (map snd m)"
  shows "set (map_erase it m) \<subseteq> set m"
    and "snd ` set (map_erase it m) = snd ` set m - {snd (m ! it)}"
    and "distinct (map snd (map_erase it m))"
proof -
  have m: "m = take it m @ m ! it # drop (Suc it) m" using assms(1) by (rule id_take_nth_drop)
  have d: "distinct (map snd (take it m @ m ! it # drop (Suc it) m))" using assms(2) m by simp
  show "set (map_erase it m) \<subseteq> set m"
    by (auto simp: map_erase_def dest: in_set_takeD in_set_dropD)
  have "snd ` set m = snd ` set (take it m @ m ! it # drop (Suc it) m)" using m by simp
  also have "\<dots> = insert (snd (m ! it)) (snd ` set (map_erase it m))"
    by (simp add: map_erase_def image_Un)
  finally have u: "snd ` set m = insert (snd (m ! it)) (snd ` set (map_erase it m))" .
  have "snd (m ! it) \<notin> snd ` set (map_erase it m)"
    using d by (auto simp: map_erase_def)
  with u show "snd ` set (map_erase it m) = snd ` set m - {snd (m ! it)}" by auto
  show "distinct (map snd (map_erase it m))" using d by (auto simp: map_erase_def)
qed

text \<open>One entry resolved: its slot released and the entry erased keeps the balance.\<close>

lemma slot_balance_erase:
  assumes bal: "slot_balance p hw others"
    and it: "it < length (decomp_async_job_map hw)"
    and e: "decomp_async_job_map hw ! it = (job_id, job_ptr)"
  shows "releaseJob p job_id = Some (p\<lparr>hw_job_ptr_locks := (hw_job_ptr_locks p)[job_ptr := False]\<rparr>)"
    and "slot_balance (p\<lparr>hw_job_ptr_locks := (hw_job_ptr_locks p)[job_ptr := False]\<rparr>)
           (hw\<lparr>decomp_async_job_map := map_erase it (decomp_async_job_map hw)\<rparr>) others"
proof -
  let ?m = "decomp_async_job_map hw"
  have mem: "(job_id, job_ptr) \<in> set ?m" using it e by (metis nth_mem)
  with bal have en: "job_ptr < unat (max_hw_jobs p)" "max_hw_jobs p - job_id = of_nat job_ptr"
    by (auto simp: slot_balance_def pending_wf_def)
  from bal have rdy: "job_pool_ready p" and len: "length (hw_job_ptr_locks p) = unat (max_hw_jobs p)"
    and d: "distinct (map snd ?m)"
    by (simp_all add: slot_balance_def pending_wf_def)
  show "releaseJob p job_id = Some (p\<lparr>hw_job_ptr_locks := (hw_job_ptr_locks p)[job_ptr := False]\<rparr>)"
    using rdy en len by (intro releaseJob_slot) simp_all
  note er = map_erase_set [OF it d]
  have reg: "registered_slots (hw\<lparr>decomp_async_job_map := map_erase it ?m\<rparr>) = registered_slots hw - {job_ptr}"
    using er(2) e by (simp add: registered_slots_def)
  have held: "held_slots (p\<lparr>hw_job_ptr_locks := (hw_job_ptr_locks p)[job_ptr := False]\<rparr>) = held_slots p - {job_ptr}"
    using en len by (intro held_slots_update) simp
  have wf: "pending_wf (p\<lparr>hw_job_ptr_locks := (hw_job_ptr_locks p)[job_ptr := False]\<rparr>)
      (hw\<lparr>decomp_async_job_map := map_erase it ?m\<rparr>)"
    using bal er(1,3) by (auto simp: slot_balance_def pending_wf_def)
  have "job_ptr \<in> registered_slots hw" using mem by (force simp: registered_slots_def)
  with bal have no: "job_ptr \<notin> others" by (auto simp: slot_balance_def)
  show "slot_balance (p\<lparr>hw_job_ptr_locks := (hw_job_ptr_locks p)[job_ptr := False]\<rparr>)
           (hw\<lparr>decomp_async_job_map := map_erase it ?m\<rparr>) others"
    using bal wf reg held no rdy len by (auto simp: slot_balance_def)
qed

section \<open>The codec\<close>

lemma codec_compress_software:
  "(\<not> isJobPoolReady (pool s) \<longrightarrow>
      CompressionCodecDeflateQpl_doCompressData E source k dst c s =
        Some (software_compress E source k dst c s))
   \<and> (isJobPoolReady (pool s)
        \<and> HardwareCodecDeflateQpl_doCompressData E source k dst (getMaxCompressedDataSize k) s
            = Some (RET_ERROR E, s1) \<longrightarrow>
      CompressionCodecDeflateQpl_doCompressData E source k dst c s =
        Some (software_compress E source k dst c s1))"
  by (simp add: CompressionCodecDeflateQpl_doCompressData_def software_compress_def
        split: prod.splits)

lemma codec_decompress_software:
  assumes touch: "touchBufferWithZeroFilling (getPageSize E) dest n (memory s0) = Some m"
  shows
  "(getDecompressMode c = SoftwareFallback \<or> \<not> isJobPoolReady (pool s0) \<longrightarrow>
      CompressionCodecDeflateQpl_doDecompressData E source sz dest n c s0 =
        Some (software_decompress E source sz dest n c (s0\<lparr>memory := m\<rparr>)))
   \<and> (getDecompressMode c = Synchronous \<and> isJobPoolReady (pool s0)
        \<and> HardwareCodecDeflateQpl_doDecompressDataSynchronous E source sz dest n (s0\<lparr>memory := m\<rparr>)
            = Some (RET_ERROR E, s1) \<longrightarrow>
      CompressionCodecDeflateQpl_doDecompressData E source sz dest n c s0 =
        Some (software_decompress E source sz dest n c s1))
   \<and> (getDecompressMode c = Asynchronous \<and> isJobPoolReady (pool s0)
        \<and> HardwareCodecDeflateQpl_doDecompressDataAsynchronous E source sz dest n (hw_codec c)
              (s0\<lparr>memory := m\<rparr>)
            = Some (RET_ERROR E, hw_codec c, s1) \<longrightarrow>
      CompressionCodecDeflateQpl_doDecompressData E source sz dest n c s0 =
        Some (software_decompress E source sz dest n c s1))"
proof (intro conjI impI)
  assume "getDecompressMode c = SoftwareFallback \<or> \<not> isJobPoolReady (pool s0)"
  then show "CompressionCodecDeflateQpl_doDecompressData E source sz dest n c s0 =
        Some (software_decompress E source sz dest n c (s0\<lparr>memory := m\<rparr>))"
    using touch
    by (cases "getDecompressMode c")
       (auto simp: CompressionCodecDeflateQpl_doDecompressData_def software_decompress_eq
          isJobPoolReady_def split: prod.splits)
next
  assume "getDecompressMode c = Synchronous \<and> isJobPoolReady (pool s0)
        \<and> HardwareCodecDeflateQpl_doDecompressDataSynchronous E source sz dest n (s0\<lparr>memory := m\<rparr>)
            = Some (RET_ERROR E, s1)"
  then show "CompressionCodecDeflateQpl_doDecompressData E source sz dest n c s0 =
        Some (software_decompress E source sz dest n c s1)"
    using touch
    by (simp add: CompressionCodecDeflateQpl_doDecompressData_def software_decompress_eq
          isJobPoolReady_def split: prod.splits)
next
  assume "getDecompressMode c = Asynchronous \<and> isJobPoolReady (pool s0)
        \<and> HardwareCodecDeflateQpl_doDecompressDataAsynchronous E source sz dest n (hw_codec c)
              (s0\<lparr>memory := m\<rparr>)
            = Some (RET_ERROR E, hw_codec c, s1)"
  then show "CompressionCodecDeflateQpl_doDecompressData E source sz dest n c s0 =
        Some (software_decompress E source sz dest n c s1)"
    using touch
    by (simp add: CompressionCodecDeflateQpl_doDecompressData_def software_decompress_eq
          isJobPoolReady_def split: prod.splits)
qed

section \<open>The drain of the pending map\<close>

lemma flush_body_iteration:
  "(if n = 0 then Some (Inr (), hw, sw, s)
      else if length (decomp_async_job_map hw) \<le> it then None
           else case decomp_async_job_map hw ! it of
                (job_id, job_ptr) \<Rightarrow>
                  case do_qpl_check_job E job_ptr (load_job s job_ptr) s of
                  (status, job, s1) \<Rightarrow>
                    if status = QPL_STS_BEING_PROCESSED
                    then if Suc it = length (decomp_async_job_map hw)
                         then f E n 0 hw sw (do_tpause E (store_job job_ptr job s1))
                         else f E n (Suc it) hw sw (store_job job_ptr job s1)
                    else case if status \<noteq> QPL_STS_OK
                              then SoftwareCodecDeflateQpl_doDecompressData
                                    E (next_in_ptr job) (available_in job)
                                    (next_out_ptr job) (available_out job)
                                    sw (store_job job_ptr job s1)
                              else (Inr (), sw, store_job job_ptr job s1) of
                         (Inl e, sw', s2) \<Rightarrow> Some (Inl e, hw, sw', s2)
                         | (Inr u, sw', s2) \<Rightarrow>
                             case releaseJob (pool s2) job_id of None \<Rightarrow> None
                             | Some p' \<Rightarrow>
                                 if n - 1 \<le> 0
                                 then Some (Inr (), hw\<lparr>decomp_async_job_map := map_erase it (decomp_async_job_map hw)\<rparr>, sw', s2\<lparr>pool := p'\<rparr>)
                                 else if it = length (map_erase it (decomp_async_job_map hw))
                                 then f E (n - 1) 0
                                        (hw\<lparr>decomp_async_job_map := map_erase it (decomp_async_job_map hw)\<rparr>)
                                        sw' (do_tpause E (s2\<lparr>pool := p'\<rparr>))
                                 else f E (n - 1) it
                                        (hw\<lparr>decomp_async_job_map := map_erase it (decomp_async_job_map hw)\<rparr>)
                                        sw' (s2\<lparr>pool := p'\<rparr>))
   = (case flush_iteration E n it hw sw s of
        None \<Rightarrow> None
      | Some (Inl r) \<Rightarrow> Some r
      | Some (Inr (n', it', hw', sw', s')) \<Rightarrow> f E n' it' hw' sw' s')"
  by (simp add: flush_iteration_def split: prod.splits sum.splits option.splits)

lemma flush_while_iteration:
  "flushAsynchronousDecompressRequests_while E n it hw sw s =
     (case flush_iteration E n it hw sw s of
        None \<Rightarrow> None
      | Some (Inl r) \<Rightarrow> Some r
      | Some (Inr (n', it', hw', sw', s')) \<Rightarrow>
          flushAsynchronousDecompressRequests_while E n' it' hw' sw' s')"
  by (subst flushAsynchronousDecompressRequests_while.simps) (rule flush_body_iteration)

lemma flush_while_induct:
  assumes run: "flushAsynchronousDecompressRequests_while E n it hw sw s = Some y"
    and fin: "\<And>n it hw sw s y. flush_iteration E n it hw sw s = Some (Inl y) \<Longrightarrow> P n it hw sw s y"
    and cont: "\<And>n it hw sw s n' it' hw' sw' s' y.
        flush_iteration E n it hw sw s = Some (Inr (n', it', hw', sw', s')) \<Longrightarrow>
        P n' it' hw' sw' s' y \<Longrightarrow> P n it hw sw s y"
  shows "P n it hw sw s y"
proof -
  have "E = E \<longrightarrow> P n it hw sw s y"
  proof (rule flushAsynchronousDecompressRequests_while.raw_induct
      [where P = "\<lambda>E' n it hw sw s y. E' = E \<longrightarrow> P n it hw sw s y", OF _ run])
    fix f E' n it hw sw and s :: "'a process" and y
    assume IH: "\<And>E' n it hw sw (s :: 'a process) y. f E' n it hw sw s = Some y \<Longrightarrow> E' = E \<longrightarrow> P n it hw sw s y"
      and body: "(if n = 0 then Some (Inr (), hw, sw, s)
      else if length (decomp_async_job_map hw) \<le> it then None
           else case decomp_async_job_map hw ! it of
                (job_id, job_ptr) \<Rightarrow>
                  case do_qpl_check_job E' job_ptr (load_job s job_ptr) s of
                  (status, job, s1) \<Rightarrow>
                    if status = QPL_STS_BEING_PROCESSED
                    then if Suc it = length (decomp_async_job_map hw)
                         then f E' n 0 hw sw (do_tpause E' (store_job job_ptr job s1))
                         else f E' n (Suc it) hw sw (store_job job_ptr job s1)
                    else case if status \<noteq> QPL_STS_OK
                              then SoftwareCodecDeflateQpl_doDecompressData
                                    E' (next_in_ptr job) (available_in job)
                                    (next_out_ptr job) (available_out job)
                                    sw (store_job job_ptr job s1)
                              else (Inr (), sw, store_job job_ptr job s1) of
                         (Inl e, sw', s2) \<Rightarrow> Some (Inl e, hw, sw', s2)
                         | (Inr u, sw', s2) \<Rightarrow>
                             case releaseJob (pool s2) job_id of None \<Rightarrow> None
                             | Some p' \<Rightarrow>
                                 if n - 1 \<le> 0
                                 then Some (Inr (), hw\<lparr>decomp_async_job_map := map_erase it (decomp_async_job_map hw)\<rparr>, sw', s2\<lparr>pool := p'\<rparr>)
                                 else if it = length (map_erase it (decomp_async_job_map hw))
                                 then f E' (n - 1) 0
                                        (hw\<lparr>decomp_async_job_map := map_erase it (decomp_async_job_map hw)\<rparr>)
                                        sw' (do_tpause E' (s2\<lparr>pool := p'\<rparr>))
                                 else f E' (n - 1) it
                                        (hw\<lparr>decomp_async_job_map := map_erase it (decomp_async_job_map hw)\<rparr>)
                                        sw' (s2\<lparr>pool := p'\<rparr>)) = Some y"
    show "E' = E \<longrightarrow> P n it hw sw s y"
    proof
      assume E: "E' = E"
      from body have b: "(case flush_iteration E n it hw sw s of
          None \<Rightarrow> None
        | Some (Inl r) \<Rightarrow> Some r
        | Some (Inr (n', it', hw', sw', s')) \<Rightarrow> f E n' it' hw' sw' s') = Some y"
        unfolding E flush_body_iteration .
      then obtain x where x: "flush_iteration E n it hw sw s = Some x"
        by (cases "flush_iteration E n it hw sw s") auto
      show "P n it hw sw s y"
      proof (cases x)
        case (Inl r)
        with b x have "r = y" by simp
        with x Inl show ?thesis by (intro fin) simp
      next
        case (Inr c)
        obtain n' it' hw' sw' s' where c: "c = (n', it', hw', sw', s')" by (cases c) auto
        with b x Inr have "f E n' it' hw' sw' s' = Some y" by simp
        from IH [OF this] have "P n' it' hw' sw' s' y" by simp
        with x Inr c show ?thesis by (intro cont [of n it hw sw s n' it' hw' sw' s']) simp_all
      qed
    qed
  qed
  then show ?thesis by simp
qed

lemma flush_iteration_eq:
  assumes inv: "flush_inv others n it hw s" and n: "n \<noteq> 0"
    and e: "decomp_async_job_map hw ! it = (job_id, job_ptr)"
    and chk: "do_qpl_check_job E job_ptr (load_job s job_ptr) s = (status, job, s1)"
    and z: "(if status \<noteq> QPL_STS_OK
             then SoftwareCodecDeflateQpl_doDecompressData E (next_in_ptr job) (available_in job)
                    (next_out_ptr job) (available_out job) sw (store_job job_ptr job s1)
             else (Inr (), sw, store_job job_ptr job s1)) = (r, sw', s2)"
  shows "flush_iteration E n it hw sw s =
     Some (if status = QPL_STS_BEING_PROCESSED then
             Inr (n, if Suc it = n then 0 else Suc it, hw, sw,
                  if Suc it = n then do_tpause E (store_job job_ptr job s1)
                  else store_job job_ptr job s1)
           else case r of
             Inl ex \<Rightarrow> Inl (Inl ex, hw, sw', s2)
           | Inr u \<Rightarrow>
               if n = 1 then
                 Inl (Inr (), hw\<lparr>decomp_async_job_map := map_erase it (decomp_async_job_map hw)\<rparr>, sw',
                      s2\<lparr>pool := (pool s2)\<lparr>hw_job_ptr_locks := (hw_job_ptr_locks (pool s2))[job_ptr := False]\<rparr>\<rparr>)
               else
                 Inr (n - 1, if it = n - 1 then 0 else it,
                      hw\<lparr>decomp_async_job_map := map_erase it (decomp_async_job_map hw)\<rparr>, sw',
                      if it = n - 1
                      then do_tpause E (s2\<lparr>pool := (pool s2)\<lparr>hw_job_ptr_locks := (hw_job_ptr_locks (pool s2))[job_ptr := False]\<rparr>\<rparr>)
                      else s2\<lparr>pool := (pool s2)\<lparr>hw_job_ptr_locks := (hw_job_ptr_locks (pool s2))[job_ptr := False]\<rparr>\<rparr>))"
    and "pool s2 = (pool s)\<lparr>hw_jobs_buffer := (hw_jobs_buffer (pool s))[job_ptr := job]\<rparr>"
    and "slot_balance (pool s2) hw others"
proof -
  let ?m = "decomp_async_job_map hw"
  from inv n have bal: "slot_balance (pool s) hw others" and len: "n = length ?m" and it: "it < length ?m"
    by (auto simp: flush_inv_def)
  have p1: "pool s1 = pool s" using chk by (auto simp: do_qpl_check_job_eq)
  have p2: "pool s2 = pool (store_job job_ptr job s1)"
    using z sw_decompress_pool [of E "next_in_ptr job" "available_in job" "next_out_ptr job"
        "available_out job" sw "store_job job_ptr job s1"]
    by (auto split: if_splits)
  show p2': "pool s2 = (pool s)\<lparr>hw_jobs_buffer := (hw_jobs_buffer (pool s))[job_ptr := job]\<rparr>"
    using p1 p2 by (simp add: store_job_def)
  have "slot_balance (pool s2) hw others = slot_balance (pool s) hw others"
    by (rule slot_balance_cong) (simp_all add: p2')
  with bal show bal2: "slot_balance (pool s2) hw others" by simp
  have rel: "releaseJob (pool s2) job_id =
      Some ((pool s2)\<lparr>hw_job_ptr_locks := (hw_job_ptr_locks (pool s2))[job_ptr := False]\<rparr>)"
    by (rule slot_balance_erase(1) [OF bal2 it e])
  have le: "length (map_erase it ?m) = n - 1" using it len by (simp add: map_erase_length)
  show "flush_iteration E n it hw sw s =
     Some (if status = QPL_STS_BEING_PROCESSED then
             Inr (n, if Suc it = n then 0 else Suc it, hw, sw,
                  if Suc it = n then do_tpause E (store_job job_ptr job s1)
                  else store_job job_ptr job s1)
           else case r of
             Inl ex \<Rightarrow> Inl (Inl ex, hw, sw', s2)
           | Inr u \<Rightarrow>
               if n = 1 then
                 Inl (Inr (), hw\<lparr>decomp_async_job_map := map_erase it (decomp_async_job_map hw)\<rparr>, sw',
                      s2\<lparr>pool := (pool s2)\<lparr>hw_job_ptr_locks := (hw_job_ptr_locks (pool s2))[job_ptr := False]\<rparr>\<rparr>)
               else
                 Inr (n - 1, if it = n - 1 then 0 else it,
                      hw\<lparr>decomp_async_job_map := map_erase it (decomp_async_job_map hw)\<rparr>, sw',
                      if it = n - 1
                      then do_tpause E (s2\<lparr>pool := (pool s2)\<lparr>hw_job_ptr_locks := (hw_job_ptr_locks (pool s2))[job_ptr := False]\<rparr>\<rparr>)
                      else s2\<lparr>pool := (pool s2)\<lparr>hw_job_ptr_locks := (hw_job_ptr_locks (pool s2))[job_ptr := False]\<rparr>\<rparr>))"
  proof (cases "status = QPL_STS_BEING_PROCESSED")
    case True
    then show ?thesis using n it e chk len
      by (simp add: flush_iteration_def)
  next
    case False
    show ?thesis
    proof (cases r)
      case (Inl ex)
      then show ?thesis using False n it e chk z
        by (simp add: flush_iteration_def)
    next
      case (Inr u)
      have n1: "(n - 1 \<le> 0) = (n = 1)" using n by auto
      show ?thesis using Inr False n it e chk z rel le n1
        by (simp add: flush_iteration_def)
    qed
  qed
qed

lemma do_tpause_slots:
  "pool (do_tpause E s) = pool s" "calls (do_tpause E s) = calls s"
  by (simp_all add: do_tpause_def split: prod.splits)

lemma flush_inv_pool:
  assumes "flush_inv others n it hw s" "pool s' = pool s"
  shows "flush_inv others n it hw s'"
  using assms by (auto simp: flush_inv_def)

lemma flush_iteration_partial:
  assumes inv: "flush_inv others n it hw s"
  shows "flush_iteration E n it hw sw s = Some (Inl (r, hw', sw', s')) \<Longrightarrow>
           slot_balance (pool s') hw' others
           \<and> set (decomp_async_job_map hw') \<subseteq> set (decomp_async_job_map hw)
           \<and> (r = Inr () \<longrightarrow> decomp_async_job_map hw' = [])"
    and "flush_iteration E n it hw sw s = Some (Inr (n', it', hw', sw', s')) \<Longrightarrow>
           flush_inv others n' it' hw' s'
           \<and> set (decomp_async_job_map hw') \<subseteq> set (decomp_async_job_map hw)"
proof -
  let ?m = "decomp_async_job_map hw"
  from inv have bal: "slot_balance (pool s) hw others" and len: "n = length ?m"
    by (simp_all add: flush_inv_def)
  have both: "(flush_iteration E n it hw sw s = Some (Inl (r, hw', sw', s')) \<longrightarrow>
           slot_balance (pool s') hw' others
           \<and> set (decomp_async_job_map hw') \<subseteq> set ?m
           \<and> (r = Inr () \<longrightarrow> decomp_async_job_map hw' = []))
     \<and> (flush_iteration E n it hw sw s = Some (Inr (n', it', hw', sw', s')) \<longrightarrow>
           flush_inv others n' it' hw' s'
           \<and> set (decomp_async_job_map hw') \<subseteq> set ?m)"
  proof (cases "n = 0")
    case True
    with len bal show ?thesis by (auto simp: flush_iteration_def)
  next
    case False
    with inv have it: "it < length ?m" by (auto simp: flush_inv_def)
    obtain job_id job_ptr where e: "?m ! it = (job_id, job_ptr)" by (cases "?m ! it")
    obtain status job s1 where chk: "do_qpl_check_job E job_ptr (load_job s job_ptr) s = (status, job, s1)"
      by (cases "do_qpl_check_job E job_ptr (load_job s job_ptr) s")
    obtain r0 sw0 s2 where z: "(if status \<noteq> QPL_STS_OK
             then SoftwareCodecDeflateQpl_doDecompressData E (next_in_ptr job) (available_in job)
                    (next_out_ptr job) (available_out job) sw (store_job job_ptr job s1)
             else (Inr (), sw, store_job job_ptr job s1)) = (r0, sw0, s2)"
      by (cases "(if status \<noteq> QPL_STS_OK
             then SoftwareCodecDeflateQpl_doDecompressData E (next_in_ptr job) (available_in job)
                    (next_out_ptr job) (available_out job) sw (store_job job_ptr job s1)
             else (Inr (), sw, store_job job_ptr job s1))")
    note eq = flush_iteration_eq [OF inv False e chk z]
    let ?hw' = "hw\<lparr>decomp_async_job_map := map_erase it ?m\<rparr>"
    let ?s3 = "s2\<lparr>pool := (pool s2)\<lparr>hw_job_ptr_locks := (hw_job_ptr_locks (pool s2))[job_ptr := False]\<rparr>\<rparr>"
    have p1: "pool s1 = pool s" using chk by (auto simp: do_qpl_check_job_eq)
    have d: "distinct (map snd ?m)" using bal by (simp add: slot_balance_def pending_wf_def)
    note er = map_erase_set [OF it d]
    have bal3: "slot_balance (pool ?s3) ?hw' others"
      using slot_balance_erase(2) [OF eq(3) it e] by simp
    have le: "length (map_erase it ?m) = n - 1" using it len by (simp add: map_erase_length)
    show ?thesis
    proof (cases "status = QPL_STS_BEING_PROCESSED")
      case True
      have "slot_balance (pool (store_job job_ptr job s1)) hw others = slot_balance (pool s) hw others"
        by (rule slot_balance_cong) (simp_all add: store_job_slots p1)
      with bal have b1: "slot_balance (pool (store_job job_ptr job s1)) hw others" by simp
      have i0: "flush_inv others n (if Suc it = n then 0 else Suc it) hw (store_job job_ptr job s1)"
        using b1 len it False by (simp add: flush_inv_def)
      have i1: "flush_inv others n (if Suc it = n then 0 else Suc it) hw
                  (if Suc it = n then do_tpause E (store_job job_ptr job s1) else store_job job_ptr job s1)"
      proof (cases "Suc it = n")
        case True
        have "flush_inv others n (if Suc it = n then 0 else Suc it) hw (do_tpause E (store_job job_ptr job s1))"
          by (rule flush_inv_pool [OF i0]) (simp add: do_tpause_slots)
        with True show ?thesis by simp
      next
        case False
        with i0 show ?thesis by simp
      qed
      have out: "flush_iteration E n it hw sw s =
          Some (Inr (n, if Suc it = n then 0 else Suc it, hw, sw,
                  if Suc it = n then do_tpause E (store_job job_ptr job s1)
                  else store_job job_ptr job s1))"
        using eq(1) True by simp
      show ?thesis unfolding out using i1 by auto
    next
      case nbp: False
      show ?thesis
      proof (cases r0)
        case (Inl ex)
        have out: "flush_iteration E n it hw sw s = Some (Inl (Inl ex, hw, sw0, s2))"
          using eq(1) nbp Inl by simp
        show ?thesis unfolding out using eq(3) by auto
      next
        case (Inr u)
        show ?thesis
        proof (cases "n = 1")
          case True
          have out: "flush_iteration E n it hw sw s = Some (Inl (Inr (), ?hw', sw0, ?s3))"
            using eq(1) nbp Inr True by simp
          have "decomp_async_job_map ?hw' = []" using le True by simp
          then show ?thesis unfolding out using bal3 er(1) by auto
        next
          case n1: False
          have i0: "flush_inv others (n - 1) (if it = n - 1 then 0 else it) ?hw' ?s3"
            using bal3 le it len False n1 by (auto simp: flush_inv_def)
          have i2: "flush_inv others (n - 1) (if it = n - 1 then 0 else it) ?hw'
                      (if it = n - 1 then do_tpause E ?s3 else ?s3)"
          proof (cases "it = n - 1")
            case True
            have "flush_inv others (n - 1) (if it = n - 1 then 0 else it) ?hw' (do_tpause E ?s3)"
              by (rule flush_inv_pool [OF i0]) (simp add: do_tpause_slots)
            with True show ?thesis by simp
          next
            case False
            with i0 show ?thesis by simp
          qed
          have out: "flush_iteration E n it hw sw s =
              Some (Inr (n - 1, if it = n - 1 then 0 else it, ?hw', sw0,
                      if it = n - 1 then do_tpause E ?s3 else ?s3))"
            using eq(1) nbp Inr n1 by simp
          show ?thesis unfolding out using i2 er(1) by auto
        qed
      qed
    qed
  qed
  from both show "flush_iteration E n it hw sw s = Some (Inl (r, hw', sw', s')) \<Longrightarrow>
           slot_balance (pool s') hw' others
           \<and> set (decomp_async_job_map hw') \<subseteq> set (decomp_async_job_map hw)
           \<and> (r = Inr () \<longrightarrow> decomp_async_job_map hw' = [])"
    by blast
  from both show "flush_iteration E n it hw sw s = Some (Inr (n', it', hw', sw', s')) \<Longrightarrow>
           flush_inv others n' it' hw' s'
           \<and> set (decomp_async_job_map hw') \<subseteq> set (decomp_async_job_map hw)"
    by blast
qed

lemma flush_while_partial:
  assumes run: "flushAsynchronousDecompressRequests_while E n it hw sw s = Some y"
    and inv: "flush_inv others n it hw s"
  shows "slot_balance (pool (snd (snd (snd y)))) (fst (snd y)) others
       \<and> set (decomp_async_job_map (fst (snd y))) \<subseteq> set (decomp_async_job_map hw)
       \<and> (fst y = Inr () \<longrightarrow> decomp_async_job_map (fst (snd y)) = [])"
proof -
  have "flush_inv others n it hw s \<longrightarrow>
        slot_balance (pool (snd (snd (snd y)))) (fst (snd y)) others
       \<and> set (decomp_async_job_map (fst (snd y))) \<subseteq> set (decomp_async_job_map hw)
       \<and> (fst y = Inr () \<longrightarrow> decomp_async_job_map (fst (snd y)) = [])"
  proof (rule flush_while_induct [OF run])
    fix n it hw sw and s :: "'a process" and y
    assume f: "flush_iteration E n it hw sw s = Some (Inl y)"
    show "flush_inv others n it hw s \<longrightarrow>
        slot_balance (pool (snd (snd (snd y)))) (fst (snd y)) others
       \<and> set (decomp_async_job_map (fst (snd y))) \<subseteq> set (decomp_async_job_map hw)
       \<and> (fst y = Inr () \<longrightarrow> decomp_async_job_map (fst (snd y)) = [])"
    proof
      assume i: "flush_inv others n it hw s"
      obtain r hw' sw' s' where y: "y = (r, hw', sw', s')" by (cases y) auto
      from flush_iteration_partial(1) [OF i f [unfolded y]] y
      show "slot_balance (pool (snd (snd (snd y)))) (fst (snd y)) others
       \<and> set (decomp_async_job_map (fst (snd y))) \<subseteq> set (decomp_async_job_map hw)
       \<and> (fst y = Inr () \<longrightarrow> decomp_async_job_map (fst (snd y)) = [])"
        by simp
    qed
  next
    fix n it hw sw and s :: "'a process" and n' it' hw' sw' and s' :: "'a process" and y
    assume f: "flush_iteration E n it hw sw s = Some (Inr (n', it', hw', sw', s'))"
      and IH: "flush_inv others n' it' hw' s' \<longrightarrow>
        slot_balance (pool (snd (snd (snd y)))) (fst (snd y)) others
       \<and> set (decomp_async_job_map (fst (snd y))) \<subseteq> set (decomp_async_job_map hw')
       \<and> (fst y = Inr () \<longrightarrow> decomp_async_job_map (fst (snd y)) = [])"
    show "flush_inv others n it hw s \<longrightarrow>
        slot_balance (pool (snd (snd (snd y)))) (fst (snd y)) others
       \<and> set (decomp_async_job_map (fst (snd y))) \<subseteq> set (decomp_async_job_map hw)
       \<and> (fst y = Inr () \<longrightarrow> decomp_async_job_map (fst (snd y)) = [])"
    proof
      assume i: "flush_inv others n it hw s"
      from flush_iteration_partial(2) [OF i f] IH
      show "slot_balance (pool (snd (snd (snd y)))) (fst (snd y)) others
       \<and> set (decomp_async_job_map (fst (snd y))) \<subseteq> set (decomp_async_job_map hw)
       \<and> (fst y = Inr () \<longrightarrow> decomp_async_job_map (fst (snd y)) = [])"
        by blast
    qed
  qed
  with inv show ?thesis by simp
qed

lemma slot_balance_held:
  "slot_balance p hw others \<Longrightarrow> held_slots p = registered_slots hw \<union> others"
  by (simp add: slot_balance_def)


lemma machine_simps:
  "machine (store_job job_ptr job s) = machine s"
  "machine (s\<lparr>pool := p\<rparr>) = machine s"
  "machine (do_tpause E s) = tpause E (machine s)"
  "machine (snd (snd (do_qpl_check_job E job_ptr job s))) = snd (snd (qpl_check_job E job_ptr job (machine s)))"
  "machine (snd (snd (do_qpl_execute_job E path job s))) = snd (snd (qpl_execute_job E path job (machine s)))"
  "machine (snd (snd (do_qpl_init_job E path s))) = snd (snd (qpl_init_job E path (machine s)))"
  by (simp_all add: machine_def store_job_def do_tpause_def do_qpl_check_job_eq
        do_qpl_execute_job_eq do_qpl_init_job_eq split: prod.splits)

lemma getJobCodecPtr_remaining:
  assumes "jobs_finish E R"
  shows "R other (machine (snd (snd (getJobCodecPtr E sw s)))) \<le> R other (machine s)"
proof (cases "sw_job sw")
  case None
  have "R other (snd (snd (qpl_init_job E qpl_path_software (machine s)))) \<le> R other (machine s)"
    using assms unfolding jobs_finish_def by blast
  with None show ?thesis
    by (simp add: getJobCodecPtr_def do_qpl_init_job_eq machine_def)
next
  case (Some j)
  then show ?thesis by (simp add: getJobCodecPtr_def)
qed

text \<open>With a software path that never fails, the software decompression returns normally.\<close>

lemma sw_decompress_succeeds:
  assumes ss: "software_succeeds E"
  shows "\<exists>pre j.
           fst (SoftwareCodecDeflateQpl_doDecompressData E source k dest n sw s) = Inr ()
           \<and> calls (snd (snd (SoftwareCodecDeflateQpl_doDecompressData E source k dest n sw s)))
               = calls s @ pre @ [Call_execute qpl_path_software (decompress_job j source k dest n)]
           \<and> (pre = [] \<or> pre = [Call_init qpl_path_software])"
proof -
  from ss have i: "\<And>m. fst (qpl_init_job E qpl_path_software m) = QPL_STS_OK"
    and x: "\<And>job m. fst (qpl_execute_job E qpl_path_software job m) = QPL_STS_OK"
    by (auto simp add: software_succeeds_def)
  show ?thesis
  proof (cases "sw_job sw")
    case None
    let ?i = "qpl_init_job E qpl_path_software (memory s, device s)"
    let ?s1 = "s\<lparr>memory := fst (snd (snd ?i)), device := snd (snd (snd ?i)),
                 calls := calls s @ [Call_init qpl_path_software]\<rparr>"
    let ?cfg = "decompress_job (fst (snd ?i)) source k dest n"
    let ?x = "qpl_execute_job E qpl_path_software ?cfg (memory ?s1, device ?s1)"
    have "SoftwareCodecDeflateQpl_doDecompressData E source k dest n sw s =
        (Inr (), sw\<lparr>sw_job := Some (fst (snd ?x))\<rparr>,
         ?s1\<lparr>memory := fst (snd (snd ?x)), device := snd (snd (snd ?x)),
              calls := calls ?s1 @ [Call_execute qpl_path_software ?cfg]\<rparr>)"
      using None i x
      by (simp add: SoftwareCodecDeflateQpl_doDecompressData_def getJobCodecPtr_def
            do_qpl_init_job_eq do_qpl_execute_job_eq decompress_job_def)
    then show ?thesis
      by (intro exI [of _ "[Call_init qpl_path_software]"] exI [of _ "fst (snd ?i)"]) simp
  next
    case (Some j)
    let ?cfg = "decompress_job j source k dest n"
    let ?x = "qpl_execute_job E qpl_path_software ?cfg (memory s, device s)"
    have "SoftwareCodecDeflateQpl_doDecompressData E source k dest n sw s =
        (Inr (), sw\<lparr>sw_job := Some (fst (snd ?x))\<rparr>,
         s\<lparr>memory := fst (snd (snd ?x)), device := snd (snd (snd ?x)),
              calls := calls s @ [Call_execute qpl_path_software ?cfg]\<rparr>)"
      using Some x
      by (simp add: SoftwareCodecDeflateQpl_doDecompressData_def getJobCodecPtr_def
            do_qpl_execute_job_eq decompress_job_def)
    then show ?thesis by (intro exI [of _ "[]"] exI [of _ j]) simp
  qed
qed

lemma sw_decompress_remaining:
  assumes jf: "jobs_finish E R"
  shows "R other (machine (snd (snd (SoftwareCodecDeflateQpl_doDecompressData E source k dest n sw s))))
           \<le> R other (machine s)"
proof -
  obtain g sw1 s1 where gs: "getJobCodecPtr E sw s = (g, sw1, s1)" by (cases "getJobCodecPtr E sw s")
  have g: "R other (machine s1) \<le> R other (machine s)"
    using getJobCodecPtr_remaining [OF jf, of other sw s] gs by simp
  show ?thesis
  proof (cases g)
    case (Inl e)
    with gs g show ?thesis by (simp add: SoftwareCodecDeflateQpl_doDecompressData_def)
  next
    case (Inr j)
    let ?cfg = "decompress_job j source k dest n"
    have "R other (snd (snd (qpl_execute_job E qpl_path_software ?cfg (machine s1)))) \<le> R other (machine s1)"
      using jf unfolding jobs_finish_def by blast
    moreover have "machine (snd (snd (SoftwareCodecDeflateQpl_doDecompressData E source k dest n sw s)))
        = snd (snd (qpl_execute_job E qpl_path_software ?cfg (machine s1)))"
      using gs Inr
      by (simp add: SoftwareCodecDeflateQpl_doDecompressData_def do_qpl_execute_job_eq
            decompress_job_def machine_def)
    ultimately show ?thesis using g by simp
  qed
qed

lemma sum_list_mono_strict:
  fixes f g :: "'a \<Rightarrow> nat"
  assumes "\<forall>x \<in> set xs. f x \<le> g x" "i < length xs" "f (xs ! i) < g (xs ! i)"
  shows "sum_list (map f xs) < sum_list (map g xs)"
proof -
  have xs: "xs = take i xs @ xs ! i # drop (Suc i) xs" using assms(2) by (rule id_take_nth_drop)
  have a: "sum_list (map f (take i xs)) \<le> sum_list (map g (take i xs))"
    using assms(1) by (intro sum_list_mono) (auto dest: in_set_takeD)
  have b: "sum_list (map f (drop (Suc i) xs)) \<le> sum_list (map g (drop (Suc i) xs))"
    using assms(1) by (intro sum_list_mono) (auto dest: in_set_dropD)
  have "sum_list (map f xs) = sum_list (map f (take i xs)) + f (xs ! i) + sum_list (map f (drop (Suc i) xs))"
    by (subst xs) simp
  moreover have "sum_list (map g xs) = sum_list (map g (take i xs)) + g (xs ! i) + sum_list (map g (drop (Suc i) xs))"
    by (subst xs) simp
  ultimately show ?thesis using a b assms(3) by linarith
qed

lemma sum_list_erase:
  fixes f g :: "(UInt32 \<times> nat) \<Rightarrow> nat"
  assumes "\<forall>x \<in> set m. f x \<le> g x" "it < length m" "0 < g (m ! it)"
  shows "sum_list (map f (map_erase it m)) < sum_list (map g m)"
proof -
  have m: "m = take it m @ m ! it # drop (Suc it) m" using assms(2) by (rule id_take_nth_drop)
  have a: "sum_list (map f (take it m)) \<le> sum_list (map g (take it m))"
    using assms(1) by (intro sum_list_mono) (auto dest: in_set_takeD)
  have b: "sum_list (map f (drop (Suc it) m)) \<le> sum_list (map g (drop (Suc it) m))"
    using assms(1) by (intro sum_list_mono) (auto dest: in_set_dropD)
  have "sum_list (map g m) = sum_list (map g (take it m)) + g (m ! it) + sum_list (map g (drop (Suc it) m))"
    by (subst m) simp
  moreover have "sum_list (map f (map_erase it m)) = sum_list (map f (take it m)) + sum_list (map f (drop (Suc it) m))"
    by (simp add: map_erase_def)
  ultimately show ?thesis using a b assms(3) by linarith
qed

lemma mset_erase:
  assumes "it < length m"
  shows "{#snd (m ! it)#} + mset (map snd (map_erase it m)) = mset (map snd m)"
proof -
  have m: "m = take it m @ m ! it # drop (Suc it) m" using assms by (rule id_take_nth_drop)
  have "mset (map snd m) = mset (map snd (take it m @ m ! it # drop (Suc it) m))"
    using m by simp
  then show ?thesis by (simp add: map_erase_def)
qed

lemma check_remaining:
  assumes jf: "jobs_finish E R"
    and chk: "do_qpl_check_job E job_ptr j0 s = (status, job, s1)"
  shows "R other (machine s1) \<le> R other (machine s)"
    and "status = QPL_STS_BEING_PROCESSED \<Longrightarrow> R job_ptr (machine s1) < R job_ptr (machine s)"
    and "calls s1 = calls s @ [Call_check job_ptr status job]"
proof -
  let ?c = "qpl_check_job E job_ptr j0 (machine s)"
  from chk have st: "status = fst ?c" and m: "machine s1 = snd (snd ?c)"
    and c: "calls s1 = calls s @ [Call_check job_ptr status job]"
    by (auto simp: do_qpl_check_job_eq machine_def)
  from jf have "R other (snd (snd ?c)) \<le> R other (machine s)"
    unfolding jobs_finish_def by blast
  with m show "R other (machine s1) \<le> R other (machine s)" by simp
  from jf have "fst ?c = QPL_STS_BEING_PROCESSED \<longrightarrow> R job_ptr (snd (snd ?c)) < R job_ptr (machine s)"
    unfolding jobs_finish_def by blast
  with m st show "status = QPL_STS_BEING_PROCESSED \<Longrightarrow> R job_ptr (machine s1) < R job_ptr (machine s)"
    by simp
  from c show "calls s1 = calls s @ [Call_check job_ptr status job]" .
qed

lemma tpause_remaining:
  assumes jf: "jobs_finish E R"
  shows "R other (machine (do_tpause E s)) \<le> R other (machine s)"
proof -
  from jf have "R other (tpause E (machine s)) \<le> R other (machine s)"
    unfolding jobs_finish_def by blast
  then show ?thesis by (simp add: machine_simps)
qed

lemma flush_measure_waiting:
  assumes le: "\<And>other. R other (machine s') \<le> R other (machine s)"
    and it: "it < length (decomp_async_job_map hw)"
    and lt: "R (snd (decomp_async_job_map hw ! it)) (machine s')
               < R (snd (decomp_async_job_map hw ! it)) (machine s)"
  shows "flush_measure R hw s' < flush_measure R hw s"
  unfolding flush_measure_def
proof (rule sum_list_mono_strict [where i = it])
  show "\<forall>x\<in>set (decomp_async_job_map hw).
          Suc (R (snd x) (machine s')) \<le> Suc (R (snd x) (machine s))"
    using le by simp
  show "it < length (decomp_async_job_map hw)" by (rule it)
  show "Suc (R (snd (decomp_async_job_map hw ! it)) (machine s'))
          < Suc (R (snd (decomp_async_job_map hw ! it)) (machine s))"
    using lt by simp
qed

lemma flush_measure_erase:
  assumes le: "\<And>other. R other (machine s') \<le> R other (machine s)"
    and it: "it < length (decomp_async_job_map hw)"
  shows "flush_measure R (hw\<lparr>decomp_async_job_map := map_erase it (decomp_async_job_map hw)\<rparr>) s'
           < flush_measure R hw s"
proof -
  have "sum_list (map (\<lambda>e. Suc (R (snd e) (machine s'))) (map_erase it (decomp_async_job_map hw)))
          < sum_list (map (\<lambda>e. Suc (R (snd e) (machine s))) (decomp_async_job_map hw))"
  proof (rule sum_list_erase)
    show "\<forall>x\<in>set (decomp_async_job_map hw).
          Suc (R (snd x) (machine s')) \<le> Suc (R (snd x) (machine s))"
      using le by simp
    show "it < length (decomp_async_job_map hw)" by (rule it)
    show "0 < Suc (R (snd (decomp_async_job_map hw ! it)) (machine s))" by simp
  qed
  then show ?thesis by (simp add: flush_measure_def)
qed

lemma flush_trace_refl: "flush_trace c c m m"
  unfolding flush_trace_def by (rule exI [of _ "[]"]) simp

lemma flush_trace_trans:
  assumes "flush_trace a b m m'" "flush_trace b c m' m''"
  shows "flush_trace a c m m''"
proof -
  from assms(1) obtain n1 where 1: "b = a @ n1"
    "concat (map decompress_args n1) = concat (map rerun_args n1)"
    "mset (concat (map finished_check n1)) + mset (map snd m') = mset (map snd m)"
    unfolding flush_trace_def by blast
  from assms(2) obtain n2 where 2: "c = b @ n2"
    "concat (map decompress_args n2) = concat (map rerun_args n2)"
    "mset (concat (map finished_check n2)) + mset (map snd m'') = mset (map snd m')"
    unfolding flush_trace_def by blast
  have "mset (concat (map finished_check (n1 @ n2))) + mset (map snd m'')
      = mset (concat (map finished_check n1)) + (mset (concat (map finished_check n2)) + mset (map snd m''))"
    by simp
  also have "\<dots> = mset (map snd m)" using 1(3) 2(3) by simp
  finally have 3: "mset (concat (map finished_check (n1 @ n2))) + mset (map snd m'') = mset (map snd m)" .
  show ?thesis
    unfolding flush_trace_def
    by (rule exI [of _ "n1 @ n2"]) (use 1 2 3 in simp)
qed

lemma flush_trace_waiting:
  "flush_trace c (c @ [Call_check job_ptr QPL_STS_BEING_PROCESSED job]) m m"
  unfolding flush_trace_def
  by (rule exI [of _ "[Call_check job_ptr QPL_STS_BEING_PROCESSED job]"]) simp

lemma flush_trace_ok:
  assumes "it < length m" "snd (m ! it) = job_ptr"
  shows "flush_trace c (c @ [Call_check job_ptr QPL_STS_OK job]) m (map_erase it m)"
  unfolding flush_trace_def
  by (rule exI [of _ "[Call_check job_ptr QPL_STS_OK job]"])
     (use mset_erase [OF assms(1)] assms(2) in simp)

lemma flush_trace_rerun:
  assumes "it < length m" "snd (m ! it) = job_ptr"
    and "status \<noteq> QPL_STS_OK" "status \<noteq> QPL_STS_BEING_PROCESSED"
    and "pre = [] \<or> pre = [Call_init qpl_path_software]"
  shows "flush_trace c
           (c @ [Call_check job_ptr status job] @ pre @
              [Call_execute qpl_path_software
                 (decompress_job j (next_in_ptr job) (available_in job)
                    (next_out_ptr job) (available_out job))])
           m (map_erase it m)"
  unfolding flush_trace_def
  by (rule exI [of _ "[Call_check job_ptr status job] @ pre @
              [Call_execute qpl_path_software
                 (decompress_job j (next_in_ptr job) (available_in job)
                    (next_out_ptr job) (available_out job))]"])
     (use mset_erase [OF assms(1)] assms(2-5) in \<open>auto simp: decompress_job_def\<close>)

text \<open>
  One pass of the drain when every job finishes and the software path never fails: the
  pass has a result, it never raises, it lowers the measure when the loop goes on, and what
  it adds to the record of calls is a check, followed by the software decompression with
  the arguments of the checked job when the check reported a failure.
\<close>

lemma flush_iteration_total:
  assumes inv: "flush_inv others n it hw s"
    and jf: "jobs_finish E R" and ss: "software_succeeds E"
  shows "\<exists>x. flush_iteration E n it hw sw s = Some x"
    and "flush_iteration E n it hw sw s = Some (Inl (r, hw', sw', s')) \<Longrightarrow>
           r = Inr ()
           \<and> flush_trace (calls s) (calls s') (decomp_async_job_map hw) (decomp_async_job_map hw')"
    and "flush_iteration E n it hw sw s = Some (Inr (n', it', hw', sw', s')) \<Longrightarrow>
           flush_measure R hw' s' < flush_measure R hw s
           \<and> flush_trace (calls s) (calls s') (decomp_async_job_map hw) (decomp_async_job_map hw')"
proof -
  let ?m = "decomp_async_job_map hw"
  let ?fin = "\<lambda>r hw' s'. r = Inr () \<and> flush_trace (calls s) (calls s') ?m (decomp_async_job_map hw')"
  let ?go = "\<lambda>hw' s'. flush_measure R hw' s' < flush_measure R hw s
                \<and> flush_trace (calls s) (calls s') ?m (decomp_async_job_map hw')"
  have all: "(\<exists>x. flush_iteration E n it hw sw s = Some x)
     \<and> (flush_iteration E n it hw sw s = Some (Inl (r, hw', sw', s')) \<longrightarrow> ?fin r hw' s')
     \<and> (flush_iteration E n it hw sw s = Some (Inr (n', it', hw', sw', s')) \<longrightarrow> ?go hw' s')"
  proof (cases "n = 0")
    case True
    then have out: "flush_iteration E n it hw sw s = Some (Inl (Inr (), hw, sw, s))"
      by (simp add: flush_iteration_def)
    show ?thesis unfolding out by (auto simp: flush_trace_refl)
  next
    case False
    with inv have it: "it < length ?m" and len: "n = length ?m" by (auto simp: flush_inv_def)
    obtain job_id job_ptr where e: "?m ! it = (job_id, job_ptr)" by (cases "?m ! it")
    then have sn: "snd (?m ! it) = job_ptr" by simp
    obtain status job s1 where chk: "do_qpl_check_job E job_ptr (load_job s job_ptr) s = (status, job, s1)"
      by (cases "do_qpl_check_job E job_ptr (load_job s job_ptr) s")
    obtain r0 sw0 s2 where z: "(if status \<noteq> QPL_STS_OK
             then SoftwareCodecDeflateQpl_doDecompressData E (next_in_ptr job) (available_in job)
                    (next_out_ptr job) (available_out job) sw (store_job job_ptr job s1)
             else (Inr (), sw, store_job job_ptr job s1)) = (r0, sw0, s2)"
      by (cases "(if status \<noteq> QPL_STS_OK
             then SoftwareCodecDeflateQpl_doDecompressData E (next_in_ptr job) (available_in job)
                    (next_out_ptr job) (available_out job) sw (store_job job_ptr job s1)
             else (Inr (), sw, store_job job_ptr job s1))")
    note eq = flush_iteration_eq [OF inv False e chk z]
    note cr = check_remaining [OF jf chk]
    let ?t1 = "store_job job_ptr job s1"
    let ?hw' = "hw\<lparr>decomp_async_job_map := map_erase it ?m\<rparr>"
    let ?s3 = "s2\<lparr>pool := (pool s2)\<lparr>hw_job_ptr_locks := (hw_job_ptr_locks (pool s2))[job_ptr := False]\<rparr>\<rparr>"
    have t1: "\<And>other. R other (machine ?t1) \<le> R other (machine s)"
      using cr(1) by (simp add: machine_simps)
    have c1: "calls ?t1 = calls s @ [Call_check job_ptr status job]"
      using cr(3) by (simp add: store_job_def)
    show ?thesis
    proof (cases "status = QPL_STS_BEING_PROCESSED")
      case True
      let ?s' = "if Suc it = n then do_tpause E ?t1 else ?t1"
      have out: "flush_iteration E n it hw sw s =
          Some (Inr (n, if Suc it = n then 0 else Suc it, hw, sw, ?s'))"
        using eq(1) True by simp
      have lt1: "R job_ptr (machine ?t1) < R job_ptr (machine s)"
        using cr(2) [OF True] by (simp add: machine_simps)
      have le': "\<And>other. R other (machine ?s') \<le> R other (machine s)"
      proof -
        fix other
        show "R other (machine ?s') \<le> R other (machine s)"
          using tpause_remaining [OF jf, of other ?t1] t1 [of other]
          by (cases "Suc it = n") simp_all
      qed
      have lt': "R job_ptr (machine ?s') < R job_ptr (machine s)"
        using tpause_remaining [OF jf, of job_ptr ?t1] lt1
        by (cases "Suc it = n") simp_all
      have ms: "flush_measure R hw ?s' < flush_measure R hw s"
        by (rule flush_measure_waiting [OF le' it]) (simp only: sn lt')
      have cs: "calls ?s' = calls s @ [Call_check job_ptr QPL_STS_BEING_PROCESSED job]"
        using c1 True by (simp add: do_tpause_slots)
      have tr: "flush_trace (calls s) (calls ?s') ?m ?m"
        unfolding cs by (rule flush_trace_waiting)
      show ?thesis unfolding out using ms tr by auto
    next
      case nbp: False
      have r0: "r0 = Inr ()"
        and le2: "\<And>other. R other (machine s2) \<le> R other (machine s)"
        and tr2: "flush_trace (calls s) (calls s2) ?m (map_erase it ?m)"
      proof -
        have "r0 = Inr () \<and> (\<forall>other. R other (machine s2) \<le> R other (machine s))
            \<and> flush_trace (calls s) (calls s2) ?m (map_erase it ?m)"
        proof (cases "status = QPL_STS_OK")
          case True
          with z have s2: "s2 = ?t1" and r: "r0 = Inr ()" by simp_all
          have "flush_trace (calls s) (calls s @ [Call_check job_ptr QPL_STS_OK job]) ?m (map_erase it ?m)"
            by (rule flush_trace_ok [OF it sn])
          with c1 True have "flush_trace (calls s) (calls s2) ?m (map_erase it ?m)"
            by (simp add: s2)
          with r t1 show ?thesis by (simp add: s2)
        next
          case nok: False
          let ?sw = "SoftwareCodecDeflateQpl_doDecompressData E (next_in_ptr job) (available_in job)
                    (next_out_ptr job) (available_out job) sw ?t1"
          from z nok have zz: "?sw = (r0, sw0, s2)" by simp
          from sw_decompress_succeeds [OF ss, of "next_in_ptr job" "available_in job"
              "next_out_ptr job" "available_out job" sw ?t1]
          obtain pre j where r: "fst ?sw = Inr ()"
            and c: "calls (snd (snd ?sw)) = calls ?t1 @ pre @
                [Call_execute qpl_path_software (decompress_job j (next_in_ptr job) (available_in job)
                    (next_out_ptr job) (available_out job))]"
            and p: "pre = [] \<or> pre = [Call_init qpl_path_software]"
            by blast
          from r zz have r': "r0 = Inr ()" by simp
          from c zz c1 have c': "calls s2 = calls s @ [Call_check job_ptr status job] @ pre @
                [Call_execute qpl_path_software (decompress_job j (next_in_ptr job) (available_in job)
                    (next_out_ptr job) (available_out job))]"
            by simp
          have tr: "flush_trace (calls s) (calls s2) ?m (map_erase it ?m)"
            unfolding c' by (rule flush_trace_rerun [OF it sn nok nbp p])
          have "\<And>other. R other (machine s2) \<le> R other (machine s)"
          proof -
            fix other
            have "R other (machine (snd (snd ?sw))) \<le> R other (machine ?t1)"
              by (rule sw_decompress_remaining [OF jf])
            with zz t1 [of other] show "R other (machine s2) \<le> R other (machine s)" by simp
          qed
          with r' tr show ?thesis by simp
        qed
        then show "r0 = Inr ()" and "\<And>other. R other (machine s2) \<le> R other (machine s)"
          and "flush_trace (calls s) (calls s2) ?m (map_erase it ?m)"
          by simp_all
      qed
      show ?thesis
      proof (cases "n = 1")
        case True
        have out: "flush_iteration E n it hw sw s = Some (Inl (Inr (), ?hw', sw0, ?s3))"
          using eq(1) nbp r0 True by simp
        show ?thesis unfolding out using tr2 by auto
      next
        case n1: False
        let ?s' = "if it = n - 1 then do_tpause E ?s3 else ?s3"
        have out: "flush_iteration E n it hw sw s =
            Some (Inr (n - 1, if it = n - 1 then 0 else it, ?hw', sw0, ?s'))"
          using eq(1) nbp r0 n1 by simp
        have le': "\<And>other. R other (machine ?s') \<le> R other (machine s)"
        proof -
          fix other
          have "R other (machine ?s3) \<le> R other (machine s)"
            using le2 [of other] by (simp add: machine_simps)
          then show "R other (machine ?s') \<le> R other (machine s)"
            using tpause_remaining [OF jf, of other ?s3]
            by (cases "it = n - 1") simp_all
        qed
        have ms: "flush_measure R ?hw' ?s' < flush_measure R hw s"
          by (rule flush_measure_erase [OF le' it])
        have "calls ?s' = calls s2" by (simp add: do_tpause_slots)
        with tr2 have tr: "flush_trace (calls s) (calls ?s') ?m (decomp_async_job_map ?hw')"
          by simp
        show ?thesis unfolding out using ms tr by auto
      qed
    qed
  qed
  from all show "\<exists>x. flush_iteration E n it hw sw s = Some x" by blast
  from all show "flush_iteration E n it hw sw s = Some (Inl (r, hw', sw', s')) \<Longrightarrow> ?fin r hw' s'"
    by blast
  from all show "flush_iteration E n it hw sw s = Some (Inr (n', it', hw', sw', s')) \<Longrightarrow> ?go hw' s'"
    by blast
qed

text \<open>The drain terminates: induction on the measure.\<close>

lemma flush_while_total:
  assumes jf: "jobs_finish E R" and ss: "software_succeeds E"
  shows "flush_inv others n it hw s \<Longrightarrow>
         \<exists>hw' sw' s'.
           flushAsynchronousDecompressRequests_while E n it hw sw s = Some (Inr (), hw', sw', s')
           \<and> decomp_async_job_map hw' = []
           \<and> slot_balance (pool s') hw' others
           \<and> flush_trace (calls s) (calls s') (decomp_async_job_map hw) []"
proof (induction "flush_measure R hw s" arbitrary: n it hw sw s rule: less_induct)
  case less
  note inv = less.prems
  note tot = flush_iteration_total [OF inv jf ss]
  from tot(1) [of sw] obtain x where x: "flush_iteration E n it hw sw s = Some x" by blast
  show ?case
  proof (cases x)
    case (Inl y)
    obtain r hw' sw' s' where y: "y = (r, hw', sw', s')" by (cases y) auto
    from x Inl y have f: "flush_iteration E n it hw sw s = Some (Inl (r, hw', sw', s'))" by simp
    from tot(2) [OF f] have r: "r = Inr ()"
      and tr: "flush_trace (calls s) (calls s') (decomp_async_job_map hw) (decomp_async_job_map hw')"
      by simp_all
    from flush_iteration_partial(1) [OF inv f] r
    have b: "slot_balance (pool s') hw' others" and em: "decomp_async_job_map hw' = []" by simp_all
    have "flushAsynchronousDecompressRequests_while E n it hw sw s = Some (Inr (), hw', sw', s')"
      by (subst flush_while_iteration) (simp add: f r)
    with b em tr show ?thesis by auto
  next
    case (Inr y)
    obtain n' it' hw' sw' s' where y: "y = (n', it', hw', sw', s')" by (cases y) auto
    from x Inr y have f: "flush_iteration E n it hw sw s = Some (Inr (n', it', hw', sw', s'))" by simp
    from tot(3) [OF f] have ms: "flush_measure R hw' s' < flush_measure R hw s"
      and tr: "flush_trace (calls s) (calls s') (decomp_async_job_map hw) (decomp_async_job_map hw')"
      by simp_all
    from flush_iteration_partial(2) [OF inv f] have inv': "flush_inv others n' it' hw' s'" by simp
    from less.hyps [OF ms inv', of sw']
    obtain hw'' sw'' s'' where
      w: "flushAsynchronousDecompressRequests_while E n' it' hw' sw' s' = Some (Inr (), hw'', sw'', s'')"
      and em: "decomp_async_job_map hw'' = []"
      and b: "slot_balance (pool s'') hw'' others"
      and tr': "flush_trace (calls s') (calls s'') (decomp_async_job_map hw') []"
      by blast
    have "flushAsynchronousDecompressRequests_while E n it hw sw s = Some (Inr (), hw'', sw'', s'')"
      by (subst flush_while_iteration) (simp add: f w)
    with em b flush_trace_trans [OF tr tr'] show ?thesis by auto
  qed
qed

text \<open>
  What the drain does when no software re-run fails. From a state in which the slot balance
  holds, with an engine in which every job eventually leaves the in-progress status
  (\<open>remaining\<close> bounds the in-progress answers still to come) and a software path that
  never fails, \<^verbatim>\<open>flushAsynchronousDecompressRequests\<close> of the hardware codec returns, and
  returns normally; its map is then empty and the slots still held are those of the other
  codecs. Over the calls it has added to the record: the jobs whose check reported an end
  are, counted with multiplicity, exactly the jobs that were registered; and the software
  decompressions run are, in order and one for one, those of the checks that reported a
  failure, each with the source pointer, source length, destination pointer and destination
  length found on the job object as that check left it.
\<close>

lemma flush_resolves_when_software_succeeds:
  assumes bal: "slot_balance (pool s) hw others"
    and fin: "jobs_finish E remaining"
    and sw_ok: "software_succeeds E"
  shows "\<exists>hw' sw' s' new.
           HardwareCodecDeflateQpl_flushAsynchronousDecompressRequests E hw sw s
             = Some (Inr (), hw', sw', s')
           \<and> decomp_async_job_map hw' = []
           \<and> held_slots (pool s') = others
           \<and> held_slots (pool s) = registered_slots hw \<union> others
           \<and> calls s' = calls s @ new
           \<and> mset (concat (map finished_check new)) = mset (map snd (decomp_async_job_map hw))
           \<and> concat (map decompress_args new) = concat (map rerun_args new)"
proof -
  have inv: "flush_inv others (length (decomp_async_job_map hw)) 0 hw s"
    using bal by (simp add: flush_inv_def)
  from flush_while_total [OF fin sw_ok inv, of sw]
  obtain hw' sw' s' where
    run: "flushAsynchronousDecompressRequests_while E (length (decomp_async_job_map hw)) 0 hw sw s
            = Some (Inr (), hw', sw', s')"
    and em: "decomp_async_job_map hw' = []"
    and b': "slot_balance (pool s') hw' others"
    and tr: "flush_trace (calls s) (calls s') (decomp_async_job_map hw) []"
    by blast
  from tr obtain new where n: "calls s' = calls s @ new"
    "concat (map decompress_args new) = concat (map rerun_args new)"
    "mset (concat (map finished_check new)) = mset (map snd (decomp_async_job_map hw))"
    unfolding flush_trace_def by auto
  have h': "held_slots (pool s') = others"
    using slot_balance_held [OF b'] em by (simp add: registered_slots_def)
  have h: "held_slots (pool s) = registered_slots hw \<union> others"
    by (rule slot_balance_held [OF bal])
  have "HardwareCodecDeflateQpl_flushAsynchronousDecompressRequests E hw sw s
          = Some (Inr (), hw', sw', s')"
    using run by (simp add: HardwareCodecDeflateQpl_flushAsynchronousDecompressRequests_def)
  with em h' h n show ?thesis by blast
qed

section \<open>Facts about the concrete states\<close>

lemma example_env_simps:
  "qpl_init_job (example_env a b c d out) = (\<lambda>path m. (QPL_STS_OK, example_job, m))"
  "qpl_fini_job (example_env a b c d out) = (\<lambda>job m. m)"
  "qpl_execute_job (example_env a b c d out) =
     (\<lambda>path job m. (if path = qpl_path_hardware then c else d,
                     job\<lparr>total_out := min out (available_out job)\<rparr>, m))"
  "qpl_submit_job (example_env a b c d out) = (\<lambda>job_ptr job m. (a, job, m))"
  "qpl_check_job (example_env a b c d out) =
     (\<lambda>job_ptr job m. if snd m = 0 then (b, job, m)
                        else (QPL_STS_BEING_PROCESSED, job, fst m, snd m - 1))"
  "tpause (example_env a b c d out) = (\<lambda>m. m)"
  "getPageSize (example_env a b c d out) = 4096"
  "RET_ERROR (example_env a b c d out) = - 1"
  by (simp_all add: example_env_def)

lemma example_acquire:
  "acquireJob (example_pool [True, False] (\<lambda>k. 1)) =
     Some (Some (1, 1), example_pool [True, True] (\<lambda>k. 1))"
  by (simp add: acquireJob_def isJobPoolReady_def distribution_def example_pool_def Let_def
        acquireJob_while.simps [of _ 0 1] tryLockJob_def)

lemma example_acquire_free:
  "acquireJob (example_pool [False, False] (\<lambda>k. 0)) =
     Some (Some (0, 2), example_pool [True, False] (\<lambda>k. 0))"
  by (simp add: acquireJob_def isJobPoolReady_def distribution_def example_pool_def Let_def
        acquireJob_while.simps [of _ 0 0] tryLockJob_def)

text \<open>
  One pending job (handle 1, slot 1) whose check reports a failure, and a software codec
  whose execution fails as well: the drain ends with the exception.
\<close>

lemma example_hw_flush_raises:
  "HardwareCodecDeflateQpl_flushAsynchronousDecompressRequests
     (example_env QPL_STS_OK (QPL_STS_OTHER 1) QPL_STS_OK (QPL_STS_OTHER 2) 0)
     \<lparr>decomp_async_job_map = [(1, 1)]\<rparr> \<lparr>sw_job = None\<rparr>
     (example_process [False, True] (\<lambda>k. 0) 0) =
   Some (Inl (Exception CANNOT_DECOMPRESS (QPL_STS_OTHER 2)),
         \<lparr>decomp_async_job_map = [(1, 1)]\<rparr>,
         \<lparr>sw_job = Some (example_job\<lparr>flags := {QPL_FLAG_FIRST, QPL_FLAG_LAST}\<rparr>)\<rparr>,
         (example_process [False, True] (\<lambda>k. 0) 0)
           \<lparr>calls := [Call_check 1 (QPL_STS_OTHER 1) example_job, Call_init qpl_path_software,
                       Call_execute qpl_path_software
                         (example_job\<lparr>flags := {QPL_FLAG_FIRST, QPL_FLAG_LAST}\<rparr>)]\<rparr>)"
  apply (simp add: HardwareCodecDeflateQpl_flushAsynchronousDecompressRequests_def)
  apply (subst flushAsynchronousDecompressRequests_while.simps)
  apply (simp add: example_env_simps example_process_def example_pool_def example_job_def
      do_qpl_check_job_def load_job_def store_job_def SoftwareCodecDeflateQpl_doDecompressData_def
      getJobCodecPtr_def do_qpl_init_job_def do_qpl_execute_job_def)
  done

text \<open>The same pending job, finished with \<^verbatim>\<open>QPL_STS_OK\<close>.\<close>

lemma example_hw_flush_ok:
  "HardwareCodecDeflateQpl_flushAsynchronousDecompressRequests
     (example_env QPL_STS_OK QPL_STS_OK QPL_STS_OK QPL_STS_OK 0)
     \<lparr>decomp_async_job_map = [(1, 1)]\<rparr> \<lparr>sw_job = None\<rparr>
     (example_process [False, True] (\<lambda>k. 0) 0) =
   Some (Inr (), \<lparr>decomp_async_job_map = []\<rparr>, \<lparr>sw_job = None\<rparr>,
         \<lparr>pool = example_pool [False, False] (\<lambda>k. 0), memory = (\<lambda>a. 0), device = 0,
          calls = [Call_check 1 QPL_STS_OK example_job]\<rparr>)"
  apply (simp add: HardwareCodecDeflateQpl_flushAsynchronousDecompressRequests_def)
  apply (subst flushAsynchronousDecompressRequests_while.simps)
  apply (simp add: example_env_simps example_process_def example_pool_def
      do_qpl_check_job_def load_job_def store_job_def releaseJob_def isJobPoolReady_def
      unLockJob_def map_erase_def)
  done

lemma example_engine_respects_capacity:
  "engine_respects_capacity (example_env a b c d out)"
  by (simp add: engine_respects_capacity_def example_env_simps)

lemma example_compress:
  "CompressionCodecDeflateQpl_doCompressData
     (example_env QPL_STS_OK QPL_STS_OK QPL_STS_OK QPL_STS_OK 5) 100 8 200
     (example_codec [] Synchronous) (example_process [False, False] (\<lambda>k. 0) 0) =
   Some (Inr 5, example_codec [] Synchronous,
         (example_process [False, False] (\<lambda>k. 0) 0)
           \<lparr>pool := (example_pool [False, False] (\<lambda>k. 0))
                \<lparr>hw_jobs_buffer := [(compress_job example_job 100 8 200 21)\<lparr>total_out := 5\<rparr>, example_job]\<rparr>,
            calls := [Call_execute qpl_path_hardware (compress_job example_job 100 8 200 21)]\<rparr>)"
proof -
  have a: "acquireJob (pool (example_process [False, False] (\<lambda>k. 0) 0)) =
       Some (Some (0, 2), example_pool [True, False] (\<lambda>k. 0))"
    using example_acquire_free by (simp add: example_process_def)
  have g: "getMaxCompressedDataSize 8 = 21" by (simp add: getMaxCompressedDataSize_def)
  show ?thesis
    by (simp add: CompressionCodecDeflateQpl_doCompressData_def
        HardwareCodecDeflateQpl_doCompressData_def a g compress_job_hw do_qpl_execute_job_eq
        example_env_simps)
       (simp add: example_process_def example_pool_def isJobPoolReady_def load_job_def store_job_def
          releaseJob_def unLockJob_def compress_job_fields example_env_simps)
qed

lemma example_hw_sync_refused:
  "HardwareCodecDeflateQpl_doDecompressDataSynchronous
     (example_env (QPL_STS_OTHER 1) QPL_STS_OK QPL_STS_OK QPL_STS_OK 0) 100 8 200 0
     (example_process [False, False] (\<lambda>k. 0) 0) =
   Some (- 1,
         (example_process [False, False] (\<lambda>k. 0) 0)
           \<lparr>pool := (example_pool [False, False] (\<lambda>k. 0))
                \<lparr>hw_jobs_buffer := [decompress_job example_job 100 8 200 0, example_job]\<rparr>,
            calls := [Call_submit 0 (decompress_job example_job 100 8 200 0)]\<rparr>)"
proof -
  have a: "acquireJob (pool (example_process [False, False] (\<lambda>k. 0) 0)) =
       Some (Some (0, 2), example_pool [True, False] (\<lambda>k. 0))"
    using example_acquire_free by (simp add: example_process_def)
  show ?thesis
    by (simp add: HardwareCodecDeflateQpl_doDecompressDataSynchronous_def a
        do_qpl_submit_job_eq example_env_simps)
       (simp add: example_process_def example_pool_def isJobPoolReady_def load_job_def store_job_def
          releaseJob_def unLockJob_def decompress_job_def example_env_simps)
qed

lemma example_hw_async:
  "HardwareCodecDeflateQpl_doDecompressDataAsynchronous
     (example_env QPL_STS_OK QPL_STS_OK QPL_STS_OK QPL_STS_OK 0) 100 8 200 0
     \<lparr>decomp_async_job_map = []\<rparr> (example_process [False, False] (\<lambda>k. 0) 0) =
   Some (2, \<lparr>decomp_async_job_map = [(2, 0)]\<rparr>,
         (example_process [True, False] (\<lambda>k. 0) 0)
           \<lparr>pool := (example_pool [True, False] (\<lambda>k. 0))
                \<lparr>hw_jobs_buffer := [decompress_job example_job 100 8 200 0, example_job]\<rparr>,
            calls := [Call_submit 0 (decompress_job example_job 100 8 200 0)]\<rparr>)"
proof -
  have a: "acquireJob (pool (example_process [False, False] (\<lambda>k. 0) 0)) =
       Some (Some (0, 2), example_pool [True, False] (\<lambda>k. 0))"
    using example_acquire_free by (simp add: example_process_def)
  show ?thesis
    by (simp add: HardwareCodecDeflateQpl_doDecompressDataAsynchronous_def a
        do_qpl_submit_job_eq example_env_simps)
       (simp add: example_process_def example_pool_def load_job_def store_job_def
          decompress_job_def)
qed

lemma held_slots_code:
  "held_slots p = set (filter (\<lambda>i. hw_job_ptr_locks p ! i) [0 ..< length (hw_job_ptr_locks p)])"
  by (auto simp: held_slots_def)

lemma example_slot_balance:
  "slot_balance (pool (example_process [False, False] (\<lambda>k. 0) 0)) \<lparr>decomp_async_job_map = []\<rparr> {}"
  by (simp add: slot_balance_def pending_wf_def held_slots_code registered_slots_def
        example_process_def example_pool_def)

text \<open>The countdown of the example device bounds the in-progress answers of any job.\<close>

lemma example_jobs_finish:
  "b \<noteq> QPL_STS_BEING_PROCESSED \<Longrightarrow> jobs_finish (example_env a b c d out) (\<lambda>job_ptr m. snd m)"
  by (simp add: jobs_finish_def example_env_simps)

lemma example_software_succeeds:
  "software_succeeds (example_env a b c QPL_STS_OK out)"
  by (simp add: software_succeeds_def example_env_simps)

lemma example_pending_balance:
  "slot_balance (pool (example_process [False, True] (\<lambda>k. 0) n)) \<lparr>decomp_async_job_map = [(1, 1)]\<rparr> {}"
  by (simp add: slot_balance_def pending_wf_def held_slots_code registered_slots_def
        example_process_def example_pool_def)

text \<open>
  One pending job (handle 1, slot 1) that is in progress at the first check and has failed
  at the second, with a software codec whose execution succeeds.
\<close>

lemma example_hw_flush_rerun:
  "HardwareCodecDeflateQpl_flushAsynchronousDecompressRequests
     (example_env QPL_STS_OK (QPL_STS_OTHER 1) QPL_STS_OK QPL_STS_OK 0)
     \<lparr>decomp_async_job_map = [(1, 1)]\<rparr> \<lparr>sw_job = None\<rparr>
     (example_process [False, True] (\<lambda>k. 0) 1) =
   Some (Inr (), \<lparr>decomp_async_job_map = []\<rparr>,
         \<lparr>sw_job = Some (example_job\<lparr>flags := {QPL_FLAG_FIRST, QPL_FLAG_LAST}\<rparr>)\<rparr>,
         \<lparr>pool = example_pool [False, False] (\<lambda>k. 0), memory = (\<lambda>a. 0), device = 0,
          calls = [Call_check 1 QPL_STS_BEING_PROCESSED example_job,
                   Call_check 1 (QPL_STS_OTHER 1) example_job,
                   Call_init qpl_path_software,
                   Call_execute qpl_path_software
                     (example_job\<lparr>flags := {QPL_FLAG_FIRST, QPL_FLAG_LAST}\<rparr>)]\<rparr>)"
  apply (simp add: HardwareCodecDeflateQpl_flushAsynchronousDecompressRequests_def)
  apply (subst flushAsynchronousDecompressRequests_while.simps)
  apply (simp add: example_env_simps example_process_def example_pool_def example_job_def
      do_qpl_check_job_def load_job_def store_job_def do_tpause_def)
  apply (subst flushAsynchronousDecompressRequests_while.simps)
  apply (simp add: example_env_simps example_process_def example_pool_def example_job_def
      do_qpl_check_job_def load_job_def store_job_def SoftwareCodecDeflateQpl_doDecompressData_def
      getJobCodecPtr_def do_qpl_init_job_def do_qpl_execute_job_def
      releaseJob_def isJobPoolReady_def unLockJob_def map_erase_def)
  done
section \<open>Interleavings of threads on the pool\<close>

lemma slot_of_inj:
  assumes "slot_of p a = slot_of p b"
  shows "a = b"
proof -
  from assms have "max_hw_jobs p - a = max_hw_jobs p - b"
    by (simp add: slot_of_def word_unat_eq_iff)
  then show ?thesis by simp
qed

lemma slot_of_frame: "max_hw_jobs p' = max_hw_jobs p \<Longrightarrow> slot_of p' = slot_of p"
  by (simp add: slot_of_def fun_eq_iff)

lemma initial_exclusive: "initial sys \<Longrightarrow> exclusive sys"
  by (simp add: initial_def exclusive_def holds_def)

text \<open>A step that changes neither the flags, nor the capacity, nor any thread's job ids.\<close>

lemma exclusive_frame:
  assumes "exclusive sys"
    and "max_hw_jobs (shared sys') = max_hw_jobs (shared sys)"
    and "hw_job_ptr_locks (shared sys') = hw_job_ptr_locks (shared sys)"
    and "\<And>u. handles (threads sys' u) = handles (threads sys u)"
  shows "exclusive sys'"
proof -
  have h: "\<And>u i. holds sys' u i = holds sys u i"
    using assms(2,4) by (simp add: holds_def slot_of_def)
  have "held_slots (shared sys') = held_slots (shared sys)"
    by (rule held_slots_locks [OF assms(3)])
  with assms(1) h show ?thesis by (simp add: exclusive_def)
qed

text \<open>A successful \<^verbatim>\<open>tryLockJob\<close>: the slot was free, so nobody held it.\<close>

lemma exclusive_lock:
  assumes ex: "exclusive sys"
    and lock: "tryLockJob (shared sys) index = Some (True, p')"
  shows "exclusive (sys\<lparr>shared := p',
           threads := (threads sys)
             (t := \<lparr>control = Idle,
                    handles = insert (max_hw_jobs p' - index) (handles (threads sys t))\<rparr>)\<rparr>)"
    (is "exclusive ?sys'")
proof -
  let ?p = "shared sys"
  from lock have rng: "index < max_hw_jobs ?p" and len: "unat index < length (hw_job_ptr_locks ?p)"
    and free: "\<not> hw_job_ptr_locks ?p ! unat index"
    and p': "p' = ?p\<lparr>hw_job_ptr_locks := (hw_job_ptr_locks ?p)[unat index := True]\<rparr>"
    by (auto simp: tryLockJob_def split: if_splits)
  have mx: "max_hw_jobs p' = max_hw_jobs ?p" by (simp add: p')
  have so: "slot_of p' = slot_of ?p" by (rule slot_of_frame [OF mx])
  have new: "slot_of ?p (max_hw_jobs ?p - index) = unat index" by (simp add: slot_of_def)
  have hs: "held_slots p' = insert (unat index) (held_slots ?p)"
    unfolding p' by (rule held_slots_update(1) [OF len])
  have nf: "unat index \<notin> held_slots ?p" using free by (simp add: held_slots_def)
  have nobody: "\<And>u. \<not> holds sys u (unat index)"
    using ex nf by (auto simp: exclusive_def)
  have h: "\<And>u i. holds ?sys' u i \<longleftrightarrow> holds sys u i \<or> (u = t \<and> i = unat index)"
    using new by (auto simp: holds_def so mx)
  show ?thesis
    unfolding exclusive_def
  proof (intro allI impI)
    fix u i
    assume a: "holds ?sys' u i"
    show "i \<in> held_slots (shared ?sys') \<and> (\<forall>t'. holds ?sys' t' i \<longrightarrow> t' = u)"
    proof (cases "i = unat index")
      case True
      with a h nobody have u: "u = t" by blast
      have "\<forall>t'. holds ?sys' t' i \<longrightarrow> t' = u"
        using h nobody True u by blast
      with True hs show ?thesis by simp
    next
      case False
      with a h have o: "holds sys u i" by blast
      with ex have "i \<in> held_slots ?p" and "\<forall>t'. holds sys t' i \<longrightarrow> t' = u"
        by (auto simp: exclusive_def)
      with False h hs show ?thesis by auto
    qed
  qed
qed

text \<open>A release of a job id that the thread holds: no other job id has its slot.\<close>

lemma exclusive_release:
  assumes ex: "exclusive sys"
    and held: "job_id \<in> handles (threads sys t)"
    and rel: "releaseJob (shared sys) job_id = Some p'"
  shows "exclusive (sys\<lparr>shared := p',
           threads := (threads sys)
             (t := (threads sys t)\<lparr>handles := handles (threads sys t) - {job_id}\<rparr>)\<rparr>)"
    (is "exclusive ?sys'")
proof -
  let ?p = "shared sys"
  let ?i = "slot_of ?p job_id"
  have mx: "max_hw_jobs p' = max_hw_jobs ?p"
    and hs: "held_slots p' = held_slots ?p \<or> held_slots p' = held_slots ?p - {?i}"
    using rel
    by (auto simp: releaseJob_def unLockJob_def slot_of_def held_slots_update(2) split: if_splits)
  have so: "slot_of p' = slot_of ?p" by (rule slot_of_frame [OF mx])
  have mine: "holds sys t ?i" using held by (auto simp: holds_def)
  have h: "\<And>u i. holds ?sys' u i \<longleftrightarrow> holds sys u i \<and> \<not> (u = t \<and> i = ?i)"
  proof -
    fix u i
    show "holds ?sys' u i \<longleftrightarrow> holds sys u i \<and> \<not> (u = t \<and> i = ?i)"
    proof (cases "u = t")
      case True
      have "holds ?sys' t i \<longleftrightarrow> (\<exists>a \<in> handles (threads sys t) - {job_id}. slot_of ?p a = i)"
        by (simp add: holds_def so)
      also have "\<dots> \<longleftrightarrow> holds sys t i \<and> i \<noteq> ?i"
        using slot_of_inj [of ?p _ job_id] by (auto simp: holds_def)
      finally show ?thesis using True by simp
    next
      case False
      then show ?thesis by (simp add: holds_def so)
    qed
  qed
  show ?thesis
    unfolding exclusive_def
  proof (intro allI impI)
    fix u i
    assume a: "holds ?sys' u i"
    with h have o: "holds sys u i" and ne: "\<not> (u = t \<and> i = ?i)" by blast+
    from ex o have in_h: "i \<in> held_slots ?p" and uniq: "\<forall>t'. holds sys t' i \<longrightarrow> t' = u"
      by (auto simp: exclusive_def)
    have "i \<noteq> ?i"
    proof
      assume "i = ?i"
      with uniq mine have "t = u" by blast
      with ne \<open>i = ?i\<close> show False by simp
    qed
    with in_h hs have "i \<in> held_slots p'" by auto
    moreover have "\<forall>t'. holds ?sys' t' i \<longrightarrow> t' = u" using h uniq by blast
    ultimately show "i \<in> held_slots (shared ?sys') \<and> (\<forall>t'. holds ?sys' t' i \<longrightarrow> t' = u)"
      by simp
  qed
qed

lemma thread_step_exclusive:
  assumes ex: "exclusive sys"
    and pr: "releases_held t c sys"
    and st: "thread_step t c sys = Some sys'"
  shows "exclusive sys'"
proof (cases "control (threads sys t)")
  case Idle
  show ?thesis
  proof (cases c)
    case Acquire
    show ?thesis
    proof (rule exclusive_frame [OF ex])
      show "max_hw_jobs (shared sys') = max_hw_jobs (shared sys)"
        using st Idle Acquire by (auto simp: thread_step_def split: if_splits)
      show "hw_job_ptr_locks (shared sys') = hw_job_ptr_locks (shared sys)"
        using st Idle Acquire by (auto simp: thread_step_def split: if_splits)
      show "\<And>u. handles (threads sys' u) = handles (threads sys u)"
        using st Idle Acquire by (auto simp: thread_step_def split: if_splits)
    qed
  next
    case (Release job_id)
    from pr Idle Release have held: "job_id \<in> handles (threads sys t)"
      by (simp add: releases_held_def)
    from st Idle Release obtain p' where rel: "releaseJob (shared sys) job_id = Some p'"
      and s': "sys' = sys\<lparr>shared := p',
           threads := (threads sys)
             (t := (threads sys t)\<lparr>handles := handles (threads sys t) - {job_id}\<rparr>)\<rparr>"
      by (auto simp: thread_step_def split: option.splits)
    show ?thesis unfolding s' by (rule exclusive_release [OF ex held rel])
  qed
next
  case (Draw r)
  show ?thesis
  proof (rule exclusive_frame [OF ex])
    show "max_hw_jobs (shared sys') = max_hw_jobs (shared sys)"
      using st Draw
      by (auto simp: thread_step_def Let_def distribution_fields split: option.splits if_splits)
    show "hw_job_ptr_locks (shared sys') = hw_job_ptr_locks (shared sys)"
      using st Draw
      by (auto simp: thread_step_def Let_def distribution_fields split: option.splits if_splits)
    show "\<And>u. handles (threads sys' u) = handles (threads sys u)"
      using st Draw
      by (auto simp: thread_step_def Let_def split: option.splits if_splits)
  qed
next
  case (Try retry index)
  from st Try obtain r where tl: "tryLockJob (shared sys) index = Some r"
    by (auto simp: thread_step_def split: option.splits)
  show ?thesis
  proof (cases "fst r")
    case True
    with tl have lock: "tryLockJob (shared sys) index = Some (True, snd r)"
      by (cases r) simp
    have s': "sys' = sys\<lparr>shared := snd r,
           threads := (threads sys)
             (t := \<lparr>control = Idle,
                    handles = insert (max_hw_jobs (snd r) - index) (handles (threads sys t))\<rparr>)\<rparr>"
      using st Try tl True by (simp add: thread_step_def)
    show ?thesis unfolding s' by (rule exclusive_lock [OF ex lock])
  next
    case False
    with tl have same: "snd r = shared sys"
      by (auto simp: tryLockJob_def split: if_splits)
    have s': "sys' = sys\<lparr>shared := snd r,
           threads := (threads sys)(t := (threads sys t)\<lparr>control := Draw (Some retry)\<rparr>)\<rparr>"
      using st Try tl False by (simp add: thread_step_def)
    show ?thesis
      by (rule exclusive_frame [OF ex]) (simp_all add: s' same)
  qed
qed

lemma run_exclusive:
  "exclusive sys \<Longrightarrow> callers_release_held sched sys \<Longrightarrow> run sched sys = Some sys' \<Longrightarrow>
     exclusive sys'"
proof (induction sched arbitrary: sys)
  case Nil
  then show ?case by simp
next
  case (Cons tc sched)
  from Cons.prems(3) obtain sys1 where st: "thread_step (fst tc) (snd tc) sys = Some sys1"
    and rest: "run sched sys1 = Some sys'"
    by (auto split: option.splits)
  from Cons.prems(2) st have pr: "releases_held (fst tc) (snd tc) sys"
    and pr': "callers_release_held sched sys1"
    by simp_all
  have "exclusive sys1" by (rule thread_step_exclusive [OF Cons.prems(1) pr st])
  then show ?case by (rule Cons.IH [OF _ pr' rest])
qed

text \<open>
  With the arrays the constructor allocates, no step of a thread fails an assertion: every
  interleaving of callers that release what they hold runs to its end.
\<close>

lemma thread_step_total:
  assumes ex: "exclusive sys" and tr: "tries_in_range sys"
    and pr: "releases_held t c sys"
  shows "\<exists>sys'. thread_step t c sys = Some sys' \<and> tries_in_range sys'"
proof -
  let ?p = "shared sys"
  from tr have wf: "pool_wf ?p"
    and rng: "\<And>u retry index. control (threads sys u) = Try retry index \<Longrightarrow> index < max_hw_jobs ?p"
    by (auto simp: tries_in_range_def)
  from wf have len: "length (hw_job_ptr_locks ?p) = unat (max_hw_jobs ?p)" and pos: "0 < max_hw_jobs ?p"
    by (simp_all add: pool_wf_def)
  have keep: "\<And>sys'. pool_wf (shared sys') \<Longrightarrow> max_hw_jobs (shared sys') = max_hw_jobs ?p \<Longrightarrow>
      (\<And>u retry index. control (threads sys' u) = Try retry index \<Longrightarrow>
          index < max_hw_jobs ?p) \<Longrightarrow> tries_in_range sys'"
    by (simp add: tries_in_range_def)
  show ?thesis
  proof (cases "control (threads sys t)")
    case Idle
    show ?thesis
    proof (cases c)
      case Acquire
      show ?thesis
      proof (cases "isJobPoolReady ?p")
        case True
        let ?sys' = "sys\<lparr>threads := (threads sys)(t := (threads sys t)\<lparr>control := Draw None\<rparr>)\<rparr>"
        have "thread_step t c sys = Some ?sys'"
          using Idle Acquire True by (simp add: thread_step_def)
        moreover have "tries_in_range ?sys'"
          by (rule keep) (use wf rng in \<open>auto split: if_splits\<close>)
        ultimately show ?thesis by blast
      next
        case False
        have "thread_step t c sys = Some sys"
          using Idle Acquire False by (simp add: thread_step_def)
        with tr show ?thesis by blast
      qed
    next
      case (Release job_id)
      from pr Idle Release have held: "job_id \<in> handles (threads sys t)"
        by (simp add: releases_held_def)
      then have "holds sys t (slot_of ?p job_id)" by (auto simp: holds_def)
      with ex have "slot_of ?p job_id \<in> held_slots ?p" by (auto simp: exclusive_def)
      then have in_len: "unat (max_hw_jobs ?p - job_id) < length (hw_job_ptr_locks ?p)"
        by (simp add: held_slots_def slot_of_def)
      with len have in_rng: "max_hw_jobs ?p - job_id < max_hw_jobs ?p"
        by (simp add: word_less_nat_alt)
      obtain p' where rel: "releaseJob ?p job_id = Some p'"
        and mx: "max_hw_jobs p' = max_hw_jobs ?p" and wf': "pool_wf p'"
        using in_len in_rng wf
        by (cases "isJobPoolReady ?p") (auto simp: releaseJob_def unLockJob_def pool_wf_def)
      let ?sys' = "sys\<lparr>shared := p',
           threads := (threads sys)
             (t := (threads sys t)\<lparr>handles := handles (threads sys t) - {job_id}\<rparr>)\<rparr>"
      have "thread_step t c sys = Some ?sys'"
        using Idle Release rel by (simp add: thread_step_def)
      moreover have "tries_in_range ?sys'"
        by (rule keep) (use wf' mx rng in \<open>auto split: if_splits\<close>)
      ultimately show ?thesis by blast
    qed
  next
    case (Draw r)
    let ?d = "distribution ?p"
    have d: "fst ?d < max_hw_jobs ?p" by (rule distribution_in_range [OF pos])
    have wf': "pool_wf (snd ?d)" using wf by (simp add: pool_wf_distribution)
    have mx: "max_hw_jobs (snd ?d) = max_hw_jobs ?p" by (simp add: distribution_fields)
    define k where "k = (case r of None \<Rightarrow> Try 0 (fst ?d)
        | Some retry \<Rightarrow> if retry + 1 > max_hw_jobs (snd ?d) then Idle else Try (retry + 1) (fst ?d))"
    have k: "thread_step t c sys =
        Some (sys\<lparr>shared := snd ?d, threads := (threads sys)(t := (threads sys t)\<lparr>control := k\<rparr>)\<rparr>)"
      using Draw by (cases r) (simp_all add: thread_step_def Let_def k_def)
    have kk: "k = Idle \<or> (\<exists>retry. k = Try retry (fst ?d))"
      by (cases r) (simp_all add: k_def)
    have "tries_in_range (sys\<lparr>shared := snd ?d, threads := (threads sys)(t := (threads sys t)\<lparr>control := k\<rparr>)\<rparr>)"
      by (rule keep) (use wf' mx rng d kk in \<open>auto split: if_splits\<close>)
    with k show ?thesis by blast
  next
    case (Try retry index)
    from rng [OF Try] have i: "index < max_hw_jobs ?p" .
    then have il: "unat index < length (hw_job_ptr_locks ?p)"
      using len by (simp add: word_less_nat_alt)
    show ?thesis
    proof (cases "hw_job_ptr_locks ?p ! unat index")
      case True
      let ?sys' = "sys\<lparr>shared := ?p,
             threads := (threads sys)(t := (threads sys t)\<lparr>control := Draw (Some retry)\<rparr>)\<rparr>"
      have "thread_step t c sys = Some ?sys'"
        using Try i il True by (simp add: thread_step_def tryLockJob_def)
      moreover have "tries_in_range ?sys'"
        by (rule keep) (use wf rng in \<open>auto split: if_splits\<close>)
      ultimately show ?thesis by blast
    next
      case False
      let ?p' = "?p\<lparr>hw_job_ptr_locks := (hw_job_ptr_locks ?p)[unat index := True]\<rparr>"
      let ?sys' = "sys\<lparr>shared := ?p',
           threads := (threads sys)
             (t := \<lparr>control = Idle,
                    handles = insert (max_hw_jobs ?p' - index) (handles (threads sys t))\<rparr>)\<rparr>"
      have "thread_step t c sys = Some ?sys'"
        using Try i il False by (simp add: thread_step_def tryLockJob_def)
      moreover have "tries_in_range ?sys'"
        by (rule keep) (use wf rng in \<open>auto simp: pool_wf_def split: if_splits\<close>)
      ultimately show ?thesis by blast
    qed
  qed
qed

lemma run_total:
  "exclusive sys \<Longrightarrow> tries_in_range sys \<Longrightarrow> callers_release_held sched sys \<Longrightarrow>
     \<exists>sys'. run sched sys = Some sys'"
proof (induction sched arbitrary: sys)
  case Nil
  then show ?case by simp
next
  case (Cons tc sched)
  from Cons.prems(3) have pr: "releases_held (fst tc) (snd tc) sys" by simp
  from thread_step_total [OF Cons.prems(1,2) pr]
  obtain sys1 where st: "thread_step (fst tc) (snd tc) sys = Some sys1" and tr: "tries_in_range sys1"
    by blast
  have ex: "exclusive sys1" by (rule thread_step_exclusive [OF Cons.prems(1) pr st])
  from Cons.prems(3) st have pr': "callers_release_held sched sys1" by simp
  from Cons.IH [OF ex tr pr'] st show ?case by simp
qed

text \<open>A thread that tries a slot somebody holds fails, and the state of the pool stays.\<close>

lemma try_held_fails:
  assumes ex: "exclusive sys" and h: "holds sys t (unat index)"
    and c: "control (threads sys t') = Try retry index"
    and rng: "index < max_hw_jobs (shared sys)"
  shows "thread_step t' c' sys =
           Some (sys\<lparr>threads := (threads sys)(t' := (threads sys t')\<lparr>control := Draw (Some retry)\<rparr>)\<rparr>)"
proof -
  from ex h have "unat index \<in> held_slots (shared sys)" by (auto simp: exclusive_def)
  then have "unat index < length (hw_job_ptr_locks (shared sys))"
    and "hw_job_ptr_locks (shared sys) ! unat index"
    by (simp_all add: held_slots_def)
  with rng have "tryLockJob (shared sys) index = Some (False, shared sys)"
    by (simp add: tryLockJob_def)
  with c show ?thesis by (simp add: thread_step_def)
qed

text \<open>
  The steps of one thread are the sequential \<^verbatim>\<open>acquireJob\<close> cut at its accesses to the
  pool: a thread that takes all its steps without another thread in between goes through
  the call as the sequential model does.
\<close>

lemma acquireJob_while_steps:
  assumes "acquireJob_while p retry index = Some y"
  shows "\<forall>sys. shared sys = p \<and> control (threads sys t) = Try retry index \<longrightarrow>
           (\<exists>k. run (replicate k (t, c)) sys =
                  Some (acquire_returns t
                          (map_option (\<lambda>i. max_hw_jobs (snd (snd y)) - i) (fst y))
                          (snd (snd y)) sys))"
proof (rule acquireJob_while.raw_induct [OF _ assms])
  fix f p retry index y
  assume IH: "\<And>p retry index y. f p retry index = Some y \<Longrightarrow>
        \<forall>sys. shared sys = p \<and> control (threads sys t) = Try retry index \<longrightarrow>
           (\<exists>k. run (replicate k (t, c)) sys =
                  Some (acquire_returns t
                          (map_option (\<lambda>i. max_hw_jobs (snd (snd y)) - i) (fst y))
                          (snd (snd y)) sys))"
    and body: "(case tryLockJob p index of None \<Rightarrow> None
      | Some r \<Rightarrow>
          if fst r then Some (Some index, retry, snd r)
          else let d = distribution (snd r); retry' = retry + 1
               in if max_hw_jobs (snd d) < retry' then Some (None, retry', snd d)
                  else f (snd d) retry' (fst d)) = Some y"
  from body obtain r where tl: "tryLockJob p index = Some r"
    by (cases "tryLockJob p index") auto
  show "\<forall>sys. shared sys = p \<and> control (threads sys t) = Try retry index \<longrightarrow>
           (\<exists>k. run (replicate k (t, c)) sys =
                  Some (acquire_returns t
                          (map_option (\<lambda>i. max_hw_jobs (snd (snd y)) - i) (fst y))
                          (snd (snd y)) sys))"
  proof (intro allI impI)
    fix sys :: system
    assume a: "shared sys = p \<and> control (threads sys t) = Try retry index"
    then have sh: "shared sys = p" and ct: "control (threads sys t) = Try retry index" by simp_all
    let ?goal = "\<exists>k. run (replicate k (t, c)) sys =
                  Some (acquire_returns t
                          (map_option (\<lambda>i. max_hw_jobs (snd (snd y)) - i) (fst y))
                          (snd (snd y)) sys)"
    show ?goal
    proof (cases "fst r")
      case True
      with tl body have y: "y = (Some index, retry, snd r)" by simp
      have "thread_step t c sys = Some (acquire_returns t (Some (max_hw_jobs (snd r) - index)) (snd r) sys)"
        using sh ct tl True by (simp add: thread_step_def acquire_returns_def)
      then have "run (replicate 1 (t, c)) sys =
          Some (acquire_returns t (map_option (\<lambda>i. max_hw_jobs (snd (snd y)) - i) (fst y)) (snd (snd y)) sys)"
        by (simp add: y)
      then show ?thesis by (rule exI)
    next
      case False
      with tl have r: "r = (False, p)"
        by (auto simp: tryLockJob_def split: if_splits)
      let ?d = "distribution p"
      let ?sys1 = "sys\<lparr>shared := p,
             threads := (threads sys)(t := (threads sys t)\<lparr>control := Draw (Some retry)\<rparr>)\<rparr>"
      have s1: "thread_step t c sys = Some ?sys1"
        using sh ct tl r by (simp add: thread_step_def)
      show ?thesis
      proof (cases "max_hw_jobs (snd ?d) < retry + 1")
        case True
        with tl r body have y: "y = (None, retry + 1, snd ?d)" by (simp add: Let_def)
        have s2: "thread_step t c ?sys1 = Some (acquire_returns t None (snd ?d) sys)"
          using True ct
          by (cases "threads sys t") (simp add: thread_step_def Let_def acquire_returns_def)
        have "run (replicate 2 (t, c)) sys =
            Some (acquire_returns t (map_option (\<lambda>i. max_hw_jobs (snd (snd y)) - i) (fst y)) (snd (snd y)) sys)"
          using s1 s2 by (simp add: y numeral_2_eq_2)
        then show ?thesis by (rule exI)
      next
        case False
        with tl r body have fy: "f (snd ?d) (retry + 1) (fst ?d) = Some y" by (simp add: Let_def)
        let ?sys2 = "sys\<lparr>shared := snd ?d,
             threads := (threads sys)(t := (threads sys t)\<lparr>control := Try (retry + 1) (fst ?d)\<rparr>)\<rparr>"
        have s2: "thread_step t c ?sys1 = Some ?sys2"
          using False by (simp add: thread_step_def Let_def)
        from IH [OF fy, rule_format, of ?sys2]
        obtain k where k: "run (replicate k (t, c)) ?sys2 =
            Some (acquire_returns t (map_option (\<lambda>i. max_hw_jobs (snd (snd y)) - i) (fst y)) (snd (snd y)) ?sys2)"
          by auto
        have same: "\<And>j p'. acquire_returns t j p' ?sys2 = acquire_returns t j p' sys"
          by (simp add: acquire_returns_def split: option.splits)
        have "run (replicate (Suc (Suc k)) (t, c)) sys =
            Some (acquire_returns t (map_option (\<lambda>i. max_hw_jobs (snd (snd y)) - i) (fst y)) (snd (snd y)) sys)"
          using s1 s2 k by (simp add: same)
        then show ?thesis by (rule exI)
      qed
    qed
  qed
qed

lemma acquireJob_steps:
  assumes idle: "control (threads sys t) = Idle"
    and acq: "acquireJob (shared sys) = Some (res, p')"
  shows "\<exists>k. run (replicate k (t, Acquire)) sys =
               Some (acquire_returns t (map_option snd res) p' sys)"
proof (cases "isJobPoolReady (shared sys)")
  case False
  with acq have r: "res = None" "p' = shared sys" by (simp_all add: acquireJob_def)
  have "acquire_returns t None (shared sys) sys = sys"
    using idle by (cases sys, cases "threads sys t") (auto simp: acquire_returns_def)
  moreover have "thread_step t Acquire sys = Some sys"
    using idle False by (simp add: thread_step_def)
  ultimately have "run (replicate 1 (t, Acquire)) sys =
      Some (acquire_returns t (map_option snd res) p' sys)"
    by (simp add: r)
  then show ?thesis by (rule exI)
next
  case True
  let ?d = "distribution (shared sys)"
  from acq True obtain y where y: "acquireJob_while (snd ?d) 0 (fst ?d) = Some y"
    by (cases "acquireJob_while (snd ?d) 0 (fst ?d)") (auto simp: acquireJob_def Let_def)
  from acq True y have p': "p' = snd (snd y)"
    and res: "map_option snd res = map_option (\<lambda>i. max_hw_jobs (snd (snd y)) - i) (fst y)"
    by (auto simp: acquireJob_def Let_def split: option.splits if_splits prod.splits)
  let ?sys1 = "sys\<lparr>threads := (threads sys)(t := (threads sys t)\<lparr>control := Draw None\<rparr>)\<rparr>"
  let ?sys2 = "sys\<lparr>shared := snd ?d,
       threads := (threads sys)(t := (threads sys t)\<lparr>control := Try 0 (fst ?d)\<rparr>)\<rparr>"
  have s1: "thread_step t Acquire sys = Some ?sys1"
    using idle True by (simp add: thread_step_def)
  have s2: "thread_step t Acquire ?sys1 = Some ?sys2"
    by (simp add: thread_step_def Let_def)
  from acquireJob_while_steps [OF y, of t Acquire, rule_format, of ?sys2]
  obtain k where k: "run (replicate k (t, Acquire)) ?sys2 =
      Some (acquire_returns t (map_option (\<lambda>i. max_hw_jobs (snd (snd y)) - i) (fst y)) (snd (snd y)) ?sys2)"
    by auto
  have same: "\<And>j q. acquire_returns t j q ?sys2 = acquire_returns t j q sys"
    by (simp add: acquire_returns_def split: option.splits)
  have "run (replicate (Suc (Suc k)) (t, Acquire)) sys =
      Some (acquire_returns t (map_option snd res) p' sys)"
    using s1 s2 k by (simp add: same res p')
  then show ?thesis by (rule exI)
qed

text \<open>
  Two threads on a pool of two free slots whose engine always draws index 0. Thread 0 calls
  \<^verbatim>\<open>acquireJob\<close> and takes its three steps: it leaves with job id 2 (slot 0). Thread 1 calls
  \<^verbatim>\<open>acquireJob\<close> and takes two steps: it is about to try slot 0.
\<close>

lemma example_system_run:
  "run [(0, Acquire), (0, Acquire), (0, Acquire), (1, Acquire), (1, Acquire)]
       (example_system Idle {} Idle {} [False, False])
     = Some (example_system Idle {2} (Try 0 0) {} [True, False])"
  by (simp add: thread_step_def example_system_def example_pool_def isJobPoolReady_def
        distribution_def tryLockJob_def Let_def fun_eq_iff)

lemma example_system_initial: "initial (example_system Idle {} Idle {} locks)"
  by (simp add: initial_def example_system_def)

lemma example_system_protocol:
  "callers_release_held [(0, Acquire), (0, Acquire), (0, Acquire), (1, Acquire), (1, Acquire)] sys"
  by (simp add: releases_held_def split: option.splits)

lemma example_system_wf: "pool_wf (shared (example_system c0 h0 c1 h1 [a, b]))"
  by (simp add: pool_wf_def example_system_def example_pool_def)
section \<open>The fallback and the engine\<close>

lemma hardware_writes_outputD:
  assumes "hardware_writes_output E"
  shows "a \<notin> out_window job \<Longrightarrow> fst (snd (snd (qpl_submit_job E job_ptr job m))) a = fst m a"
    and "out_window (fst (snd (qpl_submit_job E job_ptr job m))) \<subseteq> out_window job"
    and "a \<notin> out_window job \<Longrightarrow> fst (snd (snd (qpl_check_job E job_ptr job m))) a = fst m a"
    and "out_window (fst (snd (qpl_check_job E job_ptr job m))) \<subseteq> out_window job"
    and "a \<notin> out_window job \<Longrightarrow>
           fst (snd (snd (qpl_execute_job E qpl_path_hardware job m))) a = fst m a"
    and "fst (tpause E m) = fst m"
  using assms unfolding hardware_writes_output_def by blast+

lemma do_tpause_memory:
  "hardware_writes_output E \<Longrightarrow> memory (do_tpause E s) = memory s"
  using hardware_writes_outputD(6) [of E "(memory s, device s)"]
  by (auto simp: do_tpause_def split: prod.splits)

text \<open>The busy wait writes only inside the output window of the job it polls.\<close>

lemma wait_spares:
  assumes run: "doDecompressDataSynchronous_wait E job_ptr job s = Some y"
    and hw: "hardware_writes_output E"
  shows "\<forall>a. a \<notin> out_window job \<longrightarrow> memory (snd (snd y)) a = memory s a"
proof -
  have "E = E \<longrightarrow> (\<forall>a. a \<notin> out_window job \<longrightarrow> memory (snd (snd y)) a = memory s a)"
  proof (rule doDecompressDataSynchronous_wait.raw_induct
      [where P = "\<lambda>E' job_ptr job s y. E' = E \<longrightarrow>
          (\<forall>a. a \<notin> out_window job \<longrightarrow> memory (snd (snd y)) a = memory s a)", OF _ run])
    fix f E' job_ptr job and s :: "'a process" and y
    assume IH: "\<And>E' job_ptr job (s :: 'a process) y. f E' job_ptr job s = Some y \<Longrightarrow>
          E' = E \<longrightarrow> (\<forall>a. a \<notin> out_window job \<longrightarrow> memory (snd (snd y)) a = memory s a)"
      and body: "(case do_qpl_check_job E' job_ptr job (do_tpause E' s) of
        (status, job', s') \<Rightarrow>
          if status = QPL_STS_BEING_PROCESSED then f E' job_ptr job' s'
          else Some (status, job', s')) = Some y"
    show "E' = E \<longrightarrow> (\<forall>a. a \<notin> out_window job \<longrightarrow> memory (snd (snd y)) a = memory s a)"
    proof (intro impI allI)
      fix a
      assume E': "E' = E" and a: "a \<notin> out_window job"
      let ?t = "do_tpause E s"
      let ?r = "qpl_check_job E job_ptr job (memory ?t, device ?t)"
      let ?x = "do_qpl_check_job E job_ptr job ?t"
      have m: "memory (snd (snd ?x)) a = memory s a"
        using hardware_writes_outputD(3) [OF hw a, of job_ptr "(memory ?t, device ?t)"]
          do_tpause_memory [OF hw, of s]
        by (simp add: do_qpl_check_job_eq)
      have j: "fst (snd ?x) = fst (snd ?r)" by (simp add: do_qpl_check_job_eq)
      have w: "out_window (fst (snd ?x)) \<subseteq> out_window job"
        unfolding j by (rule hardware_writes_outputD(4) [OF hw])
      show "memory (snd (snd y)) a = memory s a"
      proof (cases "fst ?x = QPL_STS_BEING_PROCESSED")
        case True
        with body E' have "f E job_ptr (fst (snd ?x)) (snd (snd ?x)) = Some y"
          by (simp split: prod.splits)
        from IH [OF this] a w have "memory (snd (snd y)) a = memory (snd (snd ?x)) a" by auto
        with m show ?thesis by simp
      next
        case False
        with body E' have "y = ?x" by (auto split: prod.splits)
        with m show ?thesis by simp
      qed
    qed
  qed
  then show ?thesis by simp
qed

text \<open>
  A call of the hardware codec, failed or not, writes only inside the destination buffer
  it was given.
\<close>

lemma hw_sync_spares:
  assumes run: "HardwareCodecDeflateQpl_doDecompressDataSynchronous E source k dest n s = Some (res, s1)"
    and hw: "hardware_writes_output E"
    and a: "a \<notin> {dest ..< dest + unat n}"
  shows "memory s1 a = memory s a"
proof -
  from run obtain r p where acq: "acquireJob (pool s) = Some (r, p)"
    by (auto simp: HardwareCodecDeflateQpl_doDecompressDataSynchronous_def split: option.splits)
  show ?thesis
  proof (cases r)
    case None
    with run acq show ?thesis
      by (auto simp: HardwareCodecDeflateQpl_doDecompressDataSynchronous_def)
  next
    case (Some h)
    obtain job_ptr job_id where h: "h = (job_ptr, job_id)" by (cases h)
    let ?cfg = "(load_job (s\<lparr>pool := p\<rparr>) job_ptr)
                     \<lparr>op := qpl_op_decompress, next_in_ptr := source, next_out_ptr := dest,
                      available_in := source_sz, available_out := n,
                      flags := {QPL_FLAG_FIRST, QPL_FLAG_LAST}\<rparr>"
    let ?cfg = "(load_job (s\<lparr>pool := p\<rparr>) job_ptr)
                     \<lparr>op := qpl_op_decompress, next_in_ptr := source, next_out_ptr := dest,
                      available_in := k, available_out := n,
                      flags := {QPL_FLAG_FIRST, QPL_FLAG_LAST}\<rparr>"
    let ?r = "qpl_submit_job E job_ptr ?cfg (memory s, device s)"
    let ?x = "do_qpl_submit_job E job_ptr ?cfg (s\<lparr>pool := p\<rparr>)"
    have ow: "out_window ?cfg = {dest ..< dest + unat n}" by (simp add: out_window_def)
    have a': "a \<notin> out_window ?cfg" using a ow by simp
    have m1: "memory (snd (snd ?x)) a = memory s a"
      using hardware_writes_outputD(1) [OF hw a', of job_ptr "(memory s, device s)"]
      by (simp add: do_qpl_submit_job_eq)
    have w1: "out_window (fst (snd ?x)) \<subseteq> out_window ?cfg"
      using hardware_writes_outputD(2) [OF hw, of job_ptr ?cfg "(memory s, device s)"]
      by (simp add: do_qpl_submit_job_eq)
    show ?thesis
    proof (cases "fst ?x = QPL_STS_OK")
      case False
      with run acq Some h have "memory s1 = memory (snd (snd ?x))"
        by (auto simp: HardwareCodecDeflateQpl_doDecompressDataSynchronous_def store_job_def
              split: prod.splits option.splits)
      with m1 show ?thesis by simp
    next
      case True
      with run acq Some h obtain y where
        w: "doDecompressDataSynchronous_wait E job_ptr (fst (snd ?x)) (snd (snd ?x)) = Some y"
        by (cases "doDecompressDataSynchronous_wait E job_ptr (fst (snd ?x)) (snd (snd ?x))")
           (auto simp: HardwareCodecDeflateQpl_doDecompressDataSynchronous_def split: prod.splits)
      with run acq Some h True have "memory s1 = memory (snd (snd y))"
        by (auto simp: HardwareCodecDeflateQpl_doDecompressDataSynchronous_def store_job_def
              split: prod.splits option.splits if_splits)
      moreover have "memory (snd (snd y)) a = memory (snd (snd ?x)) a"
        using wait_spares [OF w hw] a' w1 by auto
      ultimately show ?thesis using m1 by simp
    qed
  qed
qed

lemma hw_async_spares:
  assumes run: "HardwareCodecDeflateQpl_doDecompressDataAsynchronous E source k dest n hw s
                  = Some (res, hw', s1)"
    and hw: "hardware_writes_output E"
    and a: "a \<notin> {dest ..< dest + unat n}"
  shows "memory s1 a = memory s a"
proof -
  from run obtain r p where acq: "acquireJob (pool s) = Some (r, p)"
    by (auto simp: HardwareCodecDeflateQpl_doDecompressDataAsynchronous_def split: option.splits)
  show ?thesis
  proof (cases r)
    case None
    with run acq show ?thesis
      by (auto simp: HardwareCodecDeflateQpl_doDecompressDataAsynchronous_def)
  next
    case (Some h)
    obtain job_ptr job_id where h: "h = (job_ptr, job_id)" by (cases h)
    let ?cfg = "(load_job (s\<lparr>pool := p\<rparr>) job_ptr)
                     \<lparr>op := qpl_op_decompress, next_in_ptr := source, next_out_ptr := dest,
                      available_in := k, available_out := n,
                      flags := {QPL_FLAG_FIRST, QPL_FLAG_LAST}\<rparr>"
    let ?x = "do_qpl_submit_job E job_ptr ?cfg (s\<lparr>pool := p\<rparr>)"
    have a': "a \<notin> out_window ?cfg" using a by (simp add: out_window_def)
    have m1: "memory (snd (snd ?x)) a = memory s a"
      using hardware_writes_outputD(1) [OF hw a', of job_ptr "(memory s, device s)"]
      by (simp add: do_qpl_submit_job_eq)
    from run acq Some h have "memory s1 = memory (snd (snd ?x))"
      by (auto simp: HardwareCodecDeflateQpl_doDecompressDataAsynchronous_def store_job_def
            split: prod.splits option.splits if_splits)
    with m1 show ?thesis by simp
  qed
qed

lemma hw_compress_spares:
  assumes run: "HardwareCodecDeflateQpl_doCompressData E source k dest n s = Some (res, s1)"
    and hw: "hardware_writes_output E"
    and a: "a \<notin> {dest ..< dest + unat n}"
  shows "memory s1 a = memory s a"
proof -
  from run obtain r p where acq: "acquireJob (pool s) = Some (r, p)"
    by (auto simp: HardwareCodecDeflateQpl_doCompressData_def split: option.splits)
  show ?thesis
  proof (cases r)
    case None
    with run acq show ?thesis
      by (auto simp: HardwareCodecDeflateQpl_doCompressData_def)
  next
    case (Some h)
    obtain job_ptr job_id where h: "h = (job_ptr, job_id)" by (cases h)
    let ?cfg = "(load_job (s\<lparr>pool := p\<rparr>) job_ptr)
                     \<lparr>op := qpl_op_compress, next_in_ptr := source, next_out_ptr := dest,
                      available_in := k, level := qpl_default_level,
                      available_out := n,
                      flags := {QPL_FLAG_FIRST, QPL_FLAG_DYNAMIC_HUFFMAN, QPL_FLAG_LAST,
                                QPL_FLAG_OMIT_VERIFY}\<rparr>"
    let ?x = "do_qpl_execute_job E qpl_path_hardware ?cfg (s\<lparr>pool := p\<rparr>)"
    have a': "a \<notin> out_window ?cfg" using a by (simp add: out_window_def)
    have m1: "memory (snd (snd ?x)) a = memory s a"
      using hardware_writes_outputD(5) [OF hw a', of "(memory s, device s)"]
      by (simp add: do_qpl_execute_job_eq)
    from run acq Some h have "memory s1 = memory (snd (snd ?x))"
      by (auto simp: HardwareCodecDeflateQpl_doCompressData_def store_job_def
            split: prod.splits option.splits if_splits)
    with m1 show ?thesis by simp
  qed
qed

text \<open>
  The software codec started on two states that agree on the source buffer has the same
  outcome.
\<close>

lemma getJobCodecPtr_agree:
  assumes sw: "software_reads_source E"
  shows "fst (getJobCodecPtr E c s1) = fst (getJobCodecPtr E c s)"
    and "fst (snd (getJobCodecPtr E c s1)) = fst (snd (getJobCodecPtr E c s))"
    and "memory (snd (snd (getJobCodecPtr E c s))) = memory s"
proof -
  from sw have i: "\<And>m m'. fst (qpl_init_job E qpl_path_software m) = fst (qpl_init_job E qpl_path_software m')"
    "\<And>m m'. fst (snd (qpl_init_job E qpl_path_software m)) = fst (snd (qpl_init_job E qpl_path_software m'))"
    "\<And>m. fst (snd (snd (qpl_init_job E qpl_path_software m))) = fst m"
    unfolding software_reads_source_def by blast+
  show "fst (getJobCodecPtr E c s1) = fst (getJobCodecPtr E c s)"
    using i(1) [of "(memory s1, device s1)" "(memory s, device s)"]
      i(2) [of "(memory s1, device s1)" "(memory s, device s)"]
    by (simp add: getJobCodecPtr_def do_qpl_init_job_eq split: option.splits)
  show "fst (snd (getJobCodecPtr E c s1)) = fst (snd (getJobCodecPtr E c s))"
    using i(2) [of "(memory s1, device s1)" "(memory s, device s)"]
    by (simp add: getJobCodecPtr_def do_qpl_init_job_eq split: option.splits)
  show "memory (snd (snd (getJobCodecPtr E c s))) = memory s"
    using i(3) [of "(memory s, device s)"]
    by (simp add: getJobCodecPtr_def do_qpl_init_job_eq split: option.splits)
qed

lemma software_execute_agree:
  assumes sw: "software_reads_source E"
    and ag: "\<forall>a \<in> in_window job. memory t1 a = memory t a"
  shows "fst (do_qpl_execute_job E qpl_path_software job t1)
           = fst (do_qpl_execute_job E qpl_path_software job t)"
    and "fst (snd (do_qpl_execute_job E qpl_path_software job t1))
           = fst (snd (do_qpl_execute_job E qpl_path_software job t))"
    and "next_out_ptr job \<le> a \<Longrightarrow>
         a < next_out_ptr job
               + unat (total_out (fst (snd (do_qpl_execute_job E qpl_path_software job t1)))) \<Longrightarrow>
         memory (snd (snd (do_qpl_execute_job E qpl_path_software job t1))) a
           = memory (snd (snd (do_qpl_execute_job E qpl_path_software job t))) a"
proof -
  let ?m1 = "(memory t1, device t1)" and ?m = "(memory t, device t)"
  from ag have ag': "\<forall>a \<in> in_window job. fst ?m1 a = fst ?m a" by simp
  from sw ag' have x: "fst (qpl_execute_job E qpl_path_software job ?m1)
            = fst (qpl_execute_job E qpl_path_software job ?m)
          \<and> fst (snd (qpl_execute_job E qpl_path_software job ?m1))
              = fst (snd (qpl_execute_job E qpl_path_software job ?m))
          \<and> (\<forall>a. next_out_ptr job \<le> a
                \<and> a < next_out_ptr job
                        + unat (total_out (fst (snd (qpl_execute_job E qpl_path_software job ?m1))))
                \<longrightarrow> fst (snd (snd (qpl_execute_job E qpl_path_software job ?m1))) a
                      = fst (snd (snd (qpl_execute_job E qpl_path_software job ?m))) a)"
    unfolding software_reads_source_def by blast
  from x show "fst (do_qpl_execute_job E qpl_path_software job t1)
           = fst (do_qpl_execute_job E qpl_path_software job t)"
    by (simp add: do_qpl_execute_job_eq)
  from x show "fst (snd (do_qpl_execute_job E qpl_path_software job t1))
           = fst (snd (do_qpl_execute_job E qpl_path_software job t))"
    by (simp add: do_qpl_execute_job_eq)
  assume "next_out_ptr job \<le> a"
    and "a < next_out_ptr job
               + unat (total_out (fst (snd (do_qpl_execute_job E qpl_path_software job t1))))"
  with x show "memory (snd (snd (do_qpl_execute_job E qpl_path_software job t1))) a
           = memory (snd (snd (do_qpl_execute_job E qpl_path_software job t))) a"
    by (simp add: do_qpl_execute_job_eq)
qed

lemma software_decompress_agree:
  assumes sw: "software_reads_source E"
    and ag: "\<forall>a \<in> {source ..< source + unat k}. memory s1 a = memory s a"
    and cc: "sw_codec c1 = sw_codec c"
  shows "same_outcome dest (software_decompress E source k dest n c1 s1)
           (software_decompress E source k dest n c s)"
proof -
  let ?sw = "sw_codec c"
  obtain g sw1 t1 where g1: "getJobCodecPtr E ?sw s1 = (g, sw1, t1)"
    by (cases "getJobCodecPtr E ?sw s1")
  obtain g' sw' t where g0: "getJobCodecPtr E ?sw s = (g', sw', t)"
    by (cases "getJobCodecPtr E ?sw s")
  from getJobCodecPtr_agree(1,2) [OF sw, of ?sw s1 s] g1 g0 have e: "g' = g" "sw' = sw1" by simp_all
  from getJobCodecPtr_agree(3) [OF sw, of ?sw s1] g1 have mt1: "memory t1 = memory s1" by simp
  from getJobCodecPtr_agree(3) [OF sw, of ?sw s] g0 have mt: "memory t = memory s" by simp
  show ?thesis
  proof (cases g)
    case (Inl ex)
    with g1 g0 e cc show ?thesis
      by (simp add: same_outcome_def software_decompress_eq SoftwareCodecDeflateQpl_doDecompressData_def)
  next
    case (Inr j)
    let ?cfg = "j\<lparr>op := qpl_op_decompress, next_in_ptr := source, next_out_ptr := dest,
                     available_in := k, available_out := n,
                     flags := {QPL_FLAG_FIRST, QPL_FLAG_LAST}\<rparr>"
    have agc: "\<forall>a \<in> in_window ?cfg. memory t1 a = memory t a"
      using ag mt1 mt by (simp add: in_window_def)
    note x = software_execute_agree [OF sw agc]
    let ?x1 = "do_qpl_execute_job E qpl_path_software ?cfg t1"
    let ?x = "do_qpl_execute_job E qpl_path_software ?cfg t"
    have r1: "software_decompress E source k dest n c1 s1 =
        (if fst ?x1 \<noteq> QPL_STS_OK then Inl (Exception CANNOT_DECOMPRESS (fst ?x1)) else Inr (),
         c1\<lparr>sw_codec := sw1\<lparr>sw_job := Some (fst (snd ?x1))\<rparr>\<rparr>, snd (snd ?x1))"
      using g1 Inr cc
      by (simp add: software_decompress_eq SoftwareCodecDeflateQpl_doDecompressData_def
            split: prod.splits)
    have r0: "software_decompress E source k dest n c s =
        (if fst ?x \<noteq> QPL_STS_OK then Inl (Exception CANNOT_DECOMPRESS (fst ?x)) else Inr (),
         c\<lparr>sw_codec := sw1\<lparr>sw_job := Some (fst (snd ?x))\<rparr>\<rparr>, snd (snd ?x))"
      using g0 e Inr
      by (simp add: software_decompress_eq SoftwareCodecDeflateQpl_doDecompressData_def
            split: prod.splits)
    show ?thesis
      unfolding r1 r0 using x(1) x(2) x(3)
      by (simp add: same_outcome_def produced_def)
  qed
qed

lemma software_compress_agree:
  assumes sw: "software_reads_source E"
    and ag: "\<forall>a \<in> {source ..< source + unat k}. memory s1 a = memory s a"
    and cc: "sw_codec c1 = sw_codec c"
  shows "same_outcome dest (software_compress E source k dest c1 s1)
           (software_compress E source k dest c s)"
proof -
  let ?sw = "sw_codec c"
  obtain g sw1 t1 where g1: "getJobCodecPtr E ?sw s1 = (g, sw1, t1)"
    by (cases "getJobCodecPtr E ?sw s1")
  obtain g' sw' t where g0: "getJobCodecPtr E ?sw s = (g', sw', t)"
    by (cases "getJobCodecPtr E ?sw s")
  from getJobCodecPtr_agree(1,2) [OF sw, of ?sw s1 s] g1 g0 have e: "g' = g" "sw' = sw1" by simp_all
  from getJobCodecPtr_agree(3) [OF sw, of ?sw s1] g1 have mt1: "memory t1 = memory s1" by simp
  from getJobCodecPtr_agree(3) [OF sw, of ?sw s] g0 have mt: "memory t = memory s" by simp
  show ?thesis
  proof (cases g)
    case (Inl ex)
    with g1 g0 e cc show ?thesis
      by (simp add: same_outcome_def software_compress_eq SoftwareCodecDeflateQpl_doCompressData_def)
  next
    case (Inr j)
    let ?cfg = "j\<lparr>op := qpl_op_compress, next_in_ptr := source, next_out_ptr := dest,
                     available_in := k, available_out := getMaxCompressedDataSize k,
                     level := qpl_default_level,
                     flags := {QPL_FLAG_FIRST, QPL_FLAG_DYNAMIC_HUFFMAN, QPL_FLAG_LAST,
                               QPL_FLAG_OMIT_VERIFY}\<rparr>"
    have agc: "\<forall>a \<in> in_window ?cfg. memory t1 a = memory t a"
      using ag mt1 mt by (simp add: in_window_def)
    note x = software_execute_agree [OF sw agc]
    let ?x1 = "do_qpl_execute_job E qpl_path_software ?cfg t1"
    let ?x = "do_qpl_execute_job E qpl_path_software ?cfg t"
    have r1: "software_compress E source k dest c1 s1 =
        (if fst ?x1 \<noteq> QPL_STS_OK then Inl (Exception CANNOT_COMPRESS (fst ?x1))
         else Inr (total_out (fst (snd ?x1))),
         c1\<lparr>sw_codec := sw1\<lparr>sw_job := Some (fst (snd ?x1))\<rparr>\<rparr>, snd (snd ?x1))"
      using g1 Inr cc
      by (simp add: software_compress_eq SoftwareCodecDeflateQpl_doCompressData_def
            split: prod.splits)
    have r0: "software_compress E source k dest c s =
        (if fst ?x \<noteq> QPL_STS_OK then Inl (Exception CANNOT_COMPRESS (fst ?x))
         else Inr (total_out (fst (snd ?x))),
         c\<lparr>sw_codec := sw1\<lparr>sw_job := Some (fst (snd ?x))\<rparr>\<rparr>, snd (snd ?x))"
      using g0 e Inr
      by (simp add: software_compress_eq SoftwareCodecDeflateQpl_doCompressData_def
            split: prod.splits)
    show ?thesis
      unfolding r1 r0 using x(1) x(2) x(3)
      by (simp add: same_outcome_def produced_def)
  qed
qed

section \<open>The example engine of the fallback\<close>

lemma example_copy_env_simps:
  "qpl_init_job (example_copy_env st) = (\<lambda>path m. (QPL_STS_OK, example_job, m))"
  "qpl_execute_job (example_copy_env st) = (\<lambda>path job m.
         if path = qpl_path_hardware
         then (st, job,
               if available_out job = 0 then fst m else (fst m)(next_out_ptr job := 7), snd m)
         else (QPL_STS_OK, job\<lparr>total_out := min (available_in job) (available_out job)\<rparr>,
               (\<lambda>a. if next_out_ptr job \<le> a
                        \<and> a < next_out_ptr job + unat (min (available_in job) (available_out job))
                     then fst m (next_in_ptr job + (a - next_out_ptr job)) else fst m a),
               snd m))"
  "qpl_submit_job (example_copy_env st) = (\<lambda>job_ptr job m.
         (st, job,
          if available_out job = 0 then fst m else (fst m)(next_out_ptr job := 7), snd m))"
  "qpl_check_job (example_copy_env st) = (\<lambda>job_ptr job m. (st, job, m))"
  "tpause (example_copy_env st) = (\<lambda>m. m)"
  "getPageSize (example_copy_env st) = 4096"
  "RET_ERROR (example_copy_env st) = - 1"
  by (simp_all add: example_copy_env_def)

lemma example_copy_hardware: "hardware_writes_output (example_copy_env st)"
proof -
  have w: "\<And>job :: qpl_job. available_out job \<noteq> 0 \<Longrightarrow> next_out_ptr job \<in> out_window job"
    by (simp add: out_window_def unat_gt_0)
  have s: "\<And>(job :: qpl_job) (m :: nat machine) a. a \<notin> out_window job \<Longrightarrow>
      (if available_out job = 0 then fst m else (fst m)(next_out_ptr job := 7)) a = fst m a"
  proof -
    fix job :: qpl_job and m :: "nat machine" and a
    assume a: "a \<notin> out_window job"
    show "(if available_out job = 0 then fst m else (fst m)(next_out_ptr job := 7)) a = fst m a"
    proof (cases "available_out job = 0")
      case True
      then show ?thesis by simp
    next
      case False
      from w [OF False] a have "a \<noteq> next_out_ptr job" by blast
      with False show ?thesis by simp
    qed
  qed
  show ?thesis
    by (simp add: hardware_writes_output_def example_copy_env_simps s)
qed

lemma example_copy_software: "software_reads_source (example_copy_env st)"
proof -
  have le: "\<And>x y :: UInt32. unat (min x y) \<le> unat x"
    by (simp add: min_def word_le_nat_alt)
  have src: "\<And>(job :: qpl_job) a. next_out_ptr job \<le> a \<Longrightarrow>
          a < next_out_ptr job + unat (min (available_in job) (available_out job)) \<Longrightarrow>
          next_in_ptr job + (a - next_out_ptr job) \<in> in_window job"
  proof -
    fix job :: qpl_job and a
    assume 1: "next_out_ptr job \<le> a"
      and 2: "a < next_out_ptr job + unat (min (available_in job) (available_out job))"
    from 1 2 have "a - next_out_ptr job < unat (min (available_in job) (available_out job))"
      by linarith
    with le [of "available_in job" "available_out job"]
    have "a - next_out_ptr job < unat (available_in job)" by linarith
    then show "next_in_ptr job + (a - next_out_ptr job) \<in> in_window job"
      by (simp add: in_window_def)
  qed
  have x: "\<And>(job :: qpl_job) (f :: mem) (g :: mem) a.
      \<forall>b \<in> in_window job. f b = g b \<Longrightarrow>
      next_out_ptr job \<le> a \<Longrightarrow>
      a < next_out_ptr job + unat (min (available_in job) (available_out job)) \<Longrightarrow>
      f (next_in_ptr job + a - next_out_ptr job) = g (next_in_ptr job + a - next_out_ptr job)"
  proof -
    fix job :: qpl_job and f g :: mem and a
    assume ag: "\<forall>b \<in> in_window job. f b = g b"
      and 1: "next_out_ptr job \<le> a"
      and 2: "a < next_out_ptr job + unat (min (available_in job) (available_out job))"
    from 1 have "next_in_ptr job + a - next_out_ptr job = next_in_ptr job + (a - next_out_ptr job)"
      by simp
    with src [OF 1 2] ag
    show "f (next_in_ptr job + a - next_out_ptr job) = g (next_in_ptr job + a - next_out_ptr job)"
      by simp
  qed
  show ?thesis
    by (simp add: software_reads_source_def example_copy_env_simps x)
qed

text \<open>
  A decompression of the two bytes at 100 into the buffer at 200, in mode Synchronous on a
  ready pool: the submission writes 7 at 200 and is refused.
\<close>

lemma same_outcome_bytes:
  assumes "same_outcome dest x y" "fst x = Inr u"
    and "dest \<le> a" "a < dest + produced (sw_codec (fst (snd x)))"
  shows "memory (snd (snd y)) a = memory (snd (snd x)) a"
  using assms by (auto simp: same_outcome_def)

lemma example_copy_touch:
  "touchBufferWithZeroFilling (getPageSize (example_copy_env st)) 200 2 (memory example_source_process)
     = Some ((memory example_source_process)(200 := 0))"
  by (simp add: touchBufferWithZeroFilling_def example_copy_env_simps)

lemma example_copy_sync_refused:
  "HardwareCodecDeflateQpl_doDecompressDataSynchronous (example_copy_env (QPL_STS_OTHER 1)) 100 2 200 2
     (example_source_process\<lparr>memory := (memory example_source_process)(200 := 0)\<rparr>) =
   Some (- 1,
         example_source_process
           \<lparr>pool := (example_pool [False, False] (\<lambda>k. 0))
                \<lparr>hw_jobs_buffer := [decompress_job example_job 100 2 200 2, example_job]\<rparr>,
            memory := (memory example_source_process)(200 := 7),
            calls := [Call_submit 0 (decompress_job example_job 100 2 200 2)]\<rparr>)"
proof -
  have a: "acquireJob (pool example_source_process) =
       Some (Some (0, 2), example_pool [True, False] (\<lambda>k. 0))"
    using example_acquire_free by (simp add: example_source_process_def example_process_def)
  show ?thesis
    by (simp add: HardwareCodecDeflateQpl_doDecompressDataSynchronous_def a
        do_qpl_submit_job_eq example_copy_env_simps)
       (simp add: example_source_process_def example_process_def example_pool_def isJobPoolReady_def
          load_job_def store_job_def releaseJob_def unLockJob_def decompress_job_def
          example_copy_env_simps)
qed

lemma example_copy_fallback:
  "fst (software_decompress (example_copy_env st) 100 2 200 2 (example_codec [] mode)
          (example_source_process\<lparr>pool := p, memory := (memory example_source_process)(200 := 7),
             calls := cs\<rparr>)) = Inr ()"
  "memory (snd (snd (software_decompress (example_copy_env st) 100 2 200 2 (example_codec [] mode)
          (example_source_process\<lparr>pool := p, memory := (memory example_source_process)(200 := 7),
             calls := cs\<rparr>)))) 200 = 5"
  "memory (snd (snd (software_decompress (example_copy_env st) 100 2 200 2 (example_codec [] mode)
          (example_source_process\<lparr>pool := p, memory := (memory example_source_process)(200 := 7),
             calls := cs\<rparr>)))) 201 = 6"
  "produced (sw_codec (fst (snd (software_decompress (example_copy_env st) 100 2 200 2
          (example_codec [] mode)
          (example_source_process\<lparr>pool := p, memory := (memory example_source_process)(200 := 7),
             calls := cs\<rparr>))))) = 2"
  by (simp_all add: software_decompress_eq SoftwareCodecDeflateQpl_doDecompressData_def
        getJobCodecPtr_def do_qpl_init_job_eq do_qpl_execute_job_eq example_copy_env_simps
        example_codec_def example_source_process_def example_process_def example_job_def
        produced_def)

section \<open>Claims about the job pool\<close>

text \<open>
  C4 (bounded acquire). On a ready pool whose flags are all set, \<^verbatim>\<open>acquireJob\<close> returns
  \<^verbatim>\<open>nullptr\<close>: its loop ends with \<^verbatim>\<open>retry = max_hw_jobs + 1\<close>, that is after
  \<^verbatim>\<open>max_hw_jobs + 1\<close> failed \<^verbatim>\<open>tryLockJob\<close> calls, having drawn \<^verbatim>\<open>max_hw_jobs + 2\<close>
  random indices (the last one is never tried), and no flag has changed. On a pool that is
  not ready it returns \<^verbatim>\<open>nullptr\<close> and the pool is untouched: no draw, no lock attempt.
  The capacity is a \<^verbatim>\<open>UInt32\<close> below \<open>2^32 - 1\<close>, so that \<^verbatim>\<open>retry > max_hw_jobs\<close> can
  become true.
\<close>

theorem acquireJob_bounded:
  "(job_pool_ready p \<and> pool_wf p \<and> max_hw_jobs p \<noteq> - 1 \<and> False \<notin> set (hw_job_ptr_locks p) \<longrightarrow>
      acquireJob_while (snd (distribution p)) 0 (fst (distribution p)) =
        Some (None, max_hw_jobs p + 1,
              p\<lparr>random_engine := (\<lambda>k. random_engine p (k + (unat (max_hw_jobs p) + 2)))\<rparr>)
      \<and> acquireJob p =
        Some (None, p\<lparr>random_engine := (\<lambda>k. random_engine p (k + (unat (max_hw_jobs p) + 2)))\<rparr>))
   \<and> (\<not> job_pool_ready p \<longrightarrow> acquireJob p = Some (None, p))"
proof (intro conjI impI)
  assume "\<not> job_pool_ready p"
  then show "acquireJob p = Some (None, p)" by (simp add: acquireJob_def isJobPoolReady_def)
next
  assume a: "job_pool_ready p \<and> pool_wf p \<and> max_hw_jobs p \<noteq> - 1 \<and> False \<notin> set (hw_job_ptr_locks p)"
  let ?d = "distribution p"
  have pos: "0 < max_hw_jobs p" using a by (simp add: pool_wf_def)
  have held: "\<forall>i<length (hw_job_ptr_locks (snd ?d)). hw_job_ptr_locks (snd ?d) ! i"
    using a by (metis distribution_fields(4) nth_mem)
  have "acquireJob_while (snd ?d) 0 (fst ?d) =
           Some (None, max_hw_jobs (snd ?d) + 1,
                 (snd ?d)\<lparr>random_engine := (\<lambda>k. random_engine (snd ?d) (k + (unat (max_hw_jobs (snd ?d)) + 1 - unat (0::UInt32))))\<rparr>)"
  proof (rule acquireJob_while_exhausted [OF _ _ _ _ held])
    show "pool_wf (snd ?d)" using a by (simp add: pool_wf_distribution)
    show "max_hw_jobs (snd ?d) \<noteq> - 1" using a by (simp add: distribution_fields)
    show "fst ?d < max_hw_jobs (snd ?d)" using pos by (simp add: distribution_fields distribution_in_range)
    show "0 \<le> max_hw_jobs (snd ?d)" by simp
  qed
  then show w: "acquireJob_while (snd ?d) 0 (fst ?d) =
        Some (None, max_hw_jobs p + 1,
              p\<lparr>random_engine := (\<lambda>k. random_engine p (k + (unat (max_hw_jobs p) + 2)))\<rparr>)"
    by (simp add: distribution_def)
  show "acquireJob p =
        Some (None, p\<lparr>random_engine := (\<lambda>k. random_engine p (k + (unat (max_hw_jobs p) + 2)))\<rparr>)"
    using a w by (simp add: acquireJob_def isJobPoolReady_def Let_def)
qed

theorem acquireJob_bounded_witness:
  "acquireJob_while (snd (distribution (example_pool [True, True] (\<lambda>k. 0)))) 0 0 =
     Some (None, 3, example_pool [True, True] (\<lambda>k. 0))
   \<and> acquireJob (example_pool [True, True] (\<lambda>k. 0)) = Some (None, example_pool [True, True] (\<lambda>k. 0))
   \<and> acquireJob ((example_pool [False, False] (\<lambda>k. 0))\<lparr>job_pool_ready := False\<rparr>)
       = Some (None, (example_pool [False, False] (\<lambda>k. 0))\<lparr>job_pool_ready := False\<rparr>)"
  using acquireJob_bounded [of "example_pool [True, True] (\<lambda>k. 0)"]
    acquireJob_bounded [of "(example_pool [False, False] (\<lambda>k. 0))\<lparr>job_pool_ready := False\<rparr>"]
  by (simp add: example_pool_def pool_wf_def distribution_def)

text \<open>
  C5 (job-handle mapping), as amended. A successful \<^verbatim>\<open>acquireJob\<close> locks a slot
  \<open>job_ptr\<close> below the capacity whose flag was clear and returns the handle
  \<open>job_id = max_hw_jobs - job_ptr\<close>, which is never zero; the handle equals the raw index
  exactly when the capacity is twice the index. \<^verbatim>\<open>releaseJob(job_id)\<close> clears the flag of
  the slot \<open>max_hw_jobs - job_id\<close> and nothing else, which after an acquire is the slot just
  locked; on a pool that is not ready it does nothing.
\<close>

theorem job_handle_mapping:
  "(acquireJob p = Some (Some (job_ptr, job_id), p') \<longrightarrow>
      job_ptr < unat (max_hw_jobs p)
      \<and> \<not> hw_job_ptr_locks p ! job_ptr
      \<and> hw_job_ptr_locks p' = (hw_job_ptr_locks p)[job_ptr := True]
      \<and> job_id = max_hw_jobs p - of_nat job_ptr
      \<and> unat job_id = unat (max_hw_jobs p) - job_ptr
      \<and> job_id \<noteq> 0
      \<and> (unat job_id = job_ptr \<longleftrightarrow> unat (max_hw_jobs p) = 2 * job_ptr)
      \<and> unat (max_hw_jobs p' - job_id) = job_ptr
      \<and> releaseJob p' job_id = Some (p'\<lparr>hw_job_ptr_locks := (hw_job_ptr_locks p')[job_ptr := False]\<rparr>))
   \<and> (job_pool_ready q \<and> max_hw_jobs q - h < max_hw_jobs q
        \<and> unat (max_hw_jobs q - h) < length (hw_job_ptr_locks q) \<longrightarrow>
      releaseJob q h =
        Some (q\<lparr>hw_job_ptr_locks := (hw_job_ptr_locks q)[unat (max_hw_jobs q - h) := False]\<rparr>))
   \<and> (\<not> job_pool_ready q \<longrightarrow> releaseJob q h = Some q)"
proof (intro conjI impI)
  assume "\<not> job_pool_ready q"
  then show "releaseJob q h = Some q" by (simp add: releaseJob_def isJobPoolReady_def)
next
  assume "job_pool_ready q \<and> max_hw_jobs q - h < max_hw_jobs q
        \<and> unat (max_hw_jobs q - h) < length (hw_job_ptr_locks q)"
  then show "releaseJob q h =
        Some (q\<lparr>hw_job_ptr_locks := (hw_job_ptr_locks q)[unat (max_hw_jobs q - h) := False]\<rparr>)"
    by (simp add: releaseJob_def isJobPoolReady_def unLockJob_def)
next
  assume a: "acquireJob p = Some (Some (job_ptr, job_id), p')"
  note s = acquireJob_sound(3) [OF a refl]
  note f = acquireJob_sound(1) [OF a]
  let ?i = "of_nat job_ptr :: UInt32"
  have lt: "?i < max_hw_jobs p" using s by (simp add: word_less_nat_alt)
  then have le: "?i \<le> max_hw_jobs p" by simp
  have u: "unat job_id = unat (max_hw_jobs p) - job_ptr"
    using s unat_sub [OF le] by simp
  show "job_ptr < unat (max_hw_jobs p)" "\<not> hw_job_ptr_locks p ! job_ptr"
    "hw_job_ptr_locks p' = (hw_job_ptr_locks p)[job_ptr := True]"
    "job_id = max_hw_jobs p - of_nat job_ptr"
    using s by simp_all
  show "unat job_id = unat (max_hw_jobs p) - job_ptr" by (rule u)
  show "job_id \<noteq> 0" using u s by (auto simp: word_unat_eq_iff)
  show "(unat job_id = job_ptr) = (unat (max_hw_jobs p) = 2 * job_ptr)" using u s by auto
  show "unat (max_hw_jobs p' - job_id) = job_ptr" using s f by (simp add: pool_frame_def)
  show "releaseJob p' job_id = Some (p'\<lparr>hw_job_ptr_locks := (hw_job_ptr_locks p')[job_ptr := False]\<rparr>)"
    using s f by (intro releaseJob_slot) (simp_all add: pool_frame_def)
qed

theorem job_handle_mapping_witness:
  "hw_job_ptr_locks (example_pool [True, True] (\<lambda>k. 1)) = (hw_job_ptr_locks (example_pool [True, False] (\<lambda>k. 1)))[1 := True]
   \<and> releaseJob (example_pool [True, True] (\<lambda>k. 1)) 1 = Some (example_pool [True, False] (\<lambda>k. 1))
   \<and> releaseJob ((example_pool [True, True] (\<lambda>k. 1))\<lparr>job_pool_ready := False\<rparr>) 1
        = Some ((example_pool [True, True] (\<lambda>k. 1))\<lparr>job_pool_ready := False\<rparr>)"
  using job_handle_mapping [of "example_pool [True, False] (\<lambda>k. 1)" 1 1 "example_pool [True, True] (\<lambda>k. 1)"
      "(example_pool [True, True] (\<lambda>k. 1))\<lparr>job_pool_ready := False\<rparr>" 1]
    example_acquire
  by (simp add: example_pool_def)

text \<open>
  The claim as stated says the handle never equals the raw index. With two slots, slot 0
  held and the random index 1, \<^verbatim>\<open>acquireJob\<close> locks index 1 and returns the handle
  \<open>2 - 1 = 1\<close>.
\<close>

theorem job_handle_equals_index_counterexample:
  "acquireJob (example_pool [True, False] (\<lambda>k. 1)) =
     Some (Some (1, 1), example_pool [True, True] (\<lambda>k. 1))
   \<and> unat (1 :: UInt32) = (1 :: nat)"
  using example_acquire by simp


section \<open>Claims about the codec\<close>

text \<open>
  C6 (asynchronous-mode degradation). A \<^verbatim>\<open>doDecompressData\<close> call in mode Asynchronous,
  after the destination has been touched:
  \<^item> if the pool is ready, \<^verbatim>\<open>acquireJob\<close> yields a slot and \<^verbatim>\<open>qpl_submit_job\<close> answers
    \<^verbatim>\<open>QPL_STS_OK\<close> (and the handle is not the bit pattern of \<^verbatim>\<open>RET_ERROR\<close>), the only QPL call
    made is that submission: no software decompression runs, the software codec is as
    before, the handle is registered in the pending map and the slot stays locked;
  \<^item> if the pool is not ready, or \<^verbatim>\<open>acquireJob\<close> yields \<^verbatim>\<open>nullptr\<close>, or the submission is
    refused, the call is the software decompression of the same arguments, run once, on
    the state the hardware attempt leaves: the flags of the pool are as before the call,
    and the software path leaves the pending map alone.
\<close>

theorem asynchronous_mode_degradation:
  assumes mode: "getDecompressMode c = Asynchronous"
    and touch: "touchBufferWithZeroFilling (getPageSize E) dest n (memory s0) = Some m"
  shows
   "(isJobPoolReady (pool s0) \<and> acquireJob (pool s0) = Some (Some (job_ptr, job_id), p)
       \<and> fst (qpl_submit_job E job_ptr (decompress_job (hw_jobs_buffer p ! job_ptr) source source_sz dest n)
                (m, device s0)) = QPL_STS_OK
       \<and> job_id \<noteq> RET_ERROR E \<longrightarrow>
      (\<exists>c' s'. CompressionCodecDeflateQpl_doDecompressData E source source_sz dest n c s0 = Some (Inr (), c', s')
         \<and> calls s' = calls s0 @ [Call_submit job_ptr (decompress_job (hw_jobs_buffer p ! job_ptr) source source_sz dest n)]
         \<and> sw_codec c' = sw_codec c
         \<and> decomp_async_job_map (hw_codec c') = map_insert (job_id, job_ptr) (decomp_async_job_map (hw_codec c))
         \<and> hw_job_ptr_locks (pool s') = (hw_job_ptr_locks (pool s0))[job_ptr := True]))
    \<and> (\<not> isJobPoolReady (pool s0) \<longrightarrow>
      CompressionCodecDeflateQpl_doDecompressData E source source_sz dest n c s0 =
        Some (software_decompress E source source_sz dest n c (s0\<lparr>memory := m\<rparr>)))
    \<and> (isJobPoolReady (pool s0) \<and> acquireJob (pool s0) = Some (None, p) \<longrightarrow>
      CompressionCodecDeflateQpl_doDecompressData E source source_sz dest n c s0 =
        Some (software_decompress E source source_sz dest n c (s0\<lparr>memory := m, pool := p\<rparr>))
      \<and> hw_job_ptr_locks p = hw_job_ptr_locks (pool s0))
    \<and> (isJobPoolReady (pool s0) \<and> acquireJob (pool s0) = Some (Some (job_ptr, job_id), p)
       \<and> fst (qpl_submit_job E job_ptr (decompress_job (hw_jobs_buffer p ! job_ptr) source source_sz dest n)
                (m, device s0)) \<noteq> QPL_STS_OK \<longrightarrow>
      (\<exists>s1. CompressionCodecDeflateQpl_doDecompressData E source source_sz dest n c s0 =
               Some (software_decompress E source source_sz dest n c s1)
         \<and> calls s1 = calls s0 @ [Call_submit job_ptr (decompress_job (hw_jobs_buffer p ! job_ptr) source source_sz dest n)]
         \<and> hw_job_ptr_locks (pool s1) = hw_job_ptr_locks (pool s0)))
    \<and> hw_codec (fst (snd (software_decompress E source source_sz dest n c s))) = hw_codec c"
proof (intro conjI impI)
  show "hw_codec (fst (snd (software_decompress E source source_sz dest n c s))) = hw_codec c"
    by (simp add: software_decompress_def split: prod.splits)
next
  assume "\<not> isJobPoolReady (pool s0)"
  then show "CompressionCodecDeflateQpl_doDecompressData E source source_sz dest n c s0 =
        Some (software_decompress E source source_sz dest n c (s0\<lparr>memory := m\<rparr>))"
    using mode touch
    by (simp add: CompressionCodecDeflateQpl_doDecompressData_def software_decompress_def
          isJobPoolReady_def split: prod.splits)
next
  assume a: "isJobPoolReady (pool s0) \<and> acquireJob (pool s0) = Some (None, p)"
  then show "CompressionCodecDeflateQpl_doDecompressData E source source_sz dest n c s0 =
        Some (software_decompress E source source_sz dest n c (s0\<lparr>memory := m, pool := p\<rparr>))"
    using mode touch
    by (simp add: CompressionCodecDeflateQpl_doDecompressData_def software_decompress_def
          HardwareCodecDeflateQpl_doDecompressDataAsynchronous_def
          isJobPoolReady_def split: prod.splits)
  from a show "hw_job_ptr_locks p = hw_job_ptr_locks (pool s0)"
    using acquireJob_sound(2) [of "pool s0" None p] by simp
next
  let ?cfg = "decompress_job (hw_jobs_buffer p ! job_ptr) source source_sz dest n"
  let ?s = "s0\<lparr>memory := m, pool := p\<rparr>"
  let ?r = "qpl_submit_job E job_ptr ?cfg (m, device s0)"
  assume a: "isJobPoolReady (pool s0) \<and> acquireJob (pool s0) = Some (Some (job_ptr, job_id), p)
       \<and> fst ?r = QPL_STS_OK \<and> job_id \<noteq> RET_ERROR E"
  note s = acquireJob_sound(3) [OF a [THEN conjunct2, THEN conjunct1] refl]
  have D: "CompressionCodecDeflateQpl_doDecompressData E source source_sz dest n c s0 =
     Some (Inr (),
           c\<lparr>hw_codec := (hw_codec c)\<lparr>decomp_async_job_map :=
                 map_insert (job_id, job_ptr) (decomp_async_job_map (hw_codec c))\<rparr>\<rparr>,
           store_job job_ptr (fst (snd ?r))
             (?s\<lparr>memory := fst (snd (snd ?r)), device := snd (snd (snd ?r)),
                 calls := calls s0 @ [Call_submit job_ptr ?cfg]\<rparr>))"
    using mode touch a
    by (simp add: CompressionCodecDeflateQpl_doDecompressData_def
          HardwareCodecDeflateQpl_doDecompressDataAsynchronous_def do_qpl_submit_job_eq
          load_job_def decompress_job_def isJobPoolReady_def)
  show "\<exists>c' s'. CompressionCodecDeflateQpl_doDecompressData E source source_sz dest n c s0 = Some (Inr (), c', s')
         \<and> calls s' = calls s0 @ [Call_submit job_ptr ?cfg]
         \<and> sw_codec c' = sw_codec c
         \<and> decomp_async_job_map (hw_codec c') = map_insert (job_id, job_ptr) (decomp_async_job_map (hw_codec c))
         \<and> hw_job_ptr_locks (pool s') = (hw_job_ptr_locks (pool s0))[job_ptr := True]"
    unfolding D using s by (simp add: store_job_def)
next
  let ?cfg = "decompress_job (hw_jobs_buffer p ! job_ptr) source source_sz dest n"
  let ?s = "s0\<lparr>memory := m, pool := p\<rparr>"
  let ?r = "qpl_submit_job E job_ptr ?cfg (m, device s0)"
  let ?s1 = "?s\<lparr>memory := fst (snd (snd ?r)), device := snd (snd (snd ?r)),
                 calls := calls s0 @ [Call_submit job_ptr ?cfg]\<rparr>"
  assume a: "isJobPoolReady (pool s0) \<and> acquireJob (pool s0) = Some (Some (job_ptr, job_id), p)
       \<and> fst ?r \<noteq> QPL_STS_OK"
  then have acq: "acquireJob (pool (s0\<lparr>memory := m\<rparr>)) = Some (Some (job_ptr, job_id), p)" by simp
  have rel: "releaseJob (pool (store_job job_ptr (fst (snd ?r)) ?s1)) job_id =
           Some ((pool (store_job job_ptr (fst (snd ?r)) ?s1))\<lparr>hw_job_ptr_locks := hw_job_ptr_locks (pool (s0\<lparr>memory := m\<rparr>))\<rparr>)"
    by (rule releaseJob_after_acquire [OF acq]) simp
  let ?s2 = "(store_job job_ptr (fst (snd ?r)) ?s1)\<lparr>pool :=
       (pool (store_job job_ptr (fst (snd ?r)) ?s1))\<lparr>hw_job_ptr_locks := hw_job_ptr_locks (pool s0)\<rparr>\<rparr>"
  have D: "CompressionCodecDeflateQpl_doDecompressData E source source_sz dest n c s0 =
               Some (software_decompress E source source_sz dest n c ?s2)"
    using mode touch a rel
    by (simp add: CompressionCodecDeflateQpl_doDecompressData_def software_decompress_def
          HardwareCodecDeflateQpl_doDecompressDataAsynchronous_def do_qpl_submit_job_eq
          load_job_def decompress_job_def isJobPoolReady_def split: prod.splits)
  show "\<exists>s1. CompressionCodecDeflateQpl_doDecompressData E source source_sz dest n c s0 =
               Some (software_decompress E source source_sz dest n c s1)
         \<and> calls s1 = calls s0 @ [Call_submit job_ptr ?cfg]
         \<and> hw_job_ptr_locks (pool s1) = hw_job_ptr_locks (pool s0)"
    by (rule exI [of _ ?s2]) (simp add: D store_job_def)
qed


theorem asynchronous_mode_degradation_witness:
  "isJobPoolReady (pool (example_process [False, False] (\<lambda>k. 0) 0))
   \<and> acquireJob (pool (example_process [False, False] (\<lambda>k. 0) 0)) =
       Some (Some (0, 2), example_pool [True, False] (\<lambda>k. 0))
   \<and> (2 :: UInt32) \<noteq> RET_ERROR (example_env QPL_STS_OK QPL_STS_OK QPL_STS_OK QPL_STS_OK 0)
   \<and> (\<exists>c' s'. CompressionCodecDeflateQpl_doDecompressData
                 (example_env QPL_STS_OK QPL_STS_OK QPL_STS_OK QPL_STS_OK 0) 100 8 200 0
                 (example_codec [] Asynchronous) (example_process [False, False] (\<lambda>k. 0) 0)
               = Some (Inr (), c', s')
         \<and> calls s' = [Call_submit 0 (decompress_job example_job 100 8 200 0)]
         \<and> sw_codec c' = \<lparr>sw_job = None\<rparr>
         \<and> decomp_async_job_map (hw_codec c') = [(2, 0)]
         \<and> hw_job_ptr_locks (pool s') = [True, False])
   \<and> (\<exists>s1. CompressionCodecDeflateQpl_doDecompressData
                 (example_env (QPL_STS_OTHER 1) QPL_STS_OK QPL_STS_OK QPL_STS_OK 0) 100 8 200 0
                 (example_codec [] Asynchronous) (example_process [False, False] (\<lambda>k. 0) 0)
               = Some (software_decompress (example_env (QPL_STS_OTHER 1) QPL_STS_OK QPL_STS_OK QPL_STS_OK 0)
                         100 8 200 0 (example_codec [] Asynchronous) s1)
         \<and> calls s1 = [Call_submit 0 (decompress_job example_job 100 8 200 0)]
         \<and> hw_job_ptr_locks (pool s1) = [False, False])"
proof -
  have m: "getDecompressMode (example_codec [] Asynchronous) = Asynchronous"
    by (simp add: getDecompressMode_def example_codec_def)
  have t: "\<And>E. touchBufferWithZeroFilling (getPageSize E) 200 0
             (memory (example_process [False, False] (\<lambda>k. 0) 0))
           = Some (memory (example_process [False, False] (\<lambda>k. 0) 0))"
    by (simp add: touchBufferWithZeroFilling_def)
  have a: "acquireJob (pool (example_process [False, False] (\<lambda>k. 0) 0)) =
       Some (Some (0, 2), example_pool [True, False] (\<lambda>k. 0))"
    using example_acquire_free by (simp add: example_process_def)
  show ?thesis
    using asynchronous_mode_degradation [OF m t, where job_ptr = 0 and job_id = 2
        and p = "example_pool [True, False] (\<lambda>k. 0)" and source = 100 and source_sz = 8
        and E = "example_env QPL_STS_OK QPL_STS_OK QPL_STS_OK QPL_STS_OK 0"]
      asynchronous_mode_degradation [OF m t, where job_ptr = 0 and job_id = 2
        and p = "example_pool [True, False] (\<lambda>k. 0)" and source = 100 and source_sz = 8
        and E = "example_env (QPL_STS_OTHER 1) QPL_STS_OK QPL_STS_OK QPL_STS_OK 0"]
      a
    by (simp add: example_process_def example_pool_def example_env_simps example_codec_def isJobPoolReady_def)
qed

text \<open>
  C7 (flush resets the mode), as amended. Whenever the codec's
  \<^verbatim>\<open>flushAsynchronousDecompressRequests\<close> returns normally the mode is Synchronous, whatever
  it was before and whether or not jobs were pending. When the pool is not ready nothing
  else happens: the drain of the hardware codec is not called. When the pool is ready the
  call is the drain of the hardware codec followed by the reset.
\<close>

theorem flush_resets_mode:
  "(CompressionCodecDeflateQpl_flushAsynchronousDecompressRequests E c s = Some (Inr u, c', s') \<longrightarrow>
      getDecompressMode c' = Synchronous)
   \<and> (\<not> isJobPoolReady (pool s) \<longrightarrow>
      CompressionCodecDeflateQpl_flushAsynchronousDecompressRequests E c s =
        Some (Inr (), setDecompressMode Synchronous c, s))
   \<and> (isJobPoolReady (pool s)
        \<and> HardwareCodecDeflateQpl_flushAsynchronousDecompressRequests E (hw_codec c) (sw_codec c) s =
            Some (Inr (), hw', sw', t) \<longrightarrow>
      CompressionCodecDeflateQpl_flushAsynchronousDecompressRequests E c s =
        Some (Inr (), \<lparr>sw_codec = sw', hw_codec = hw', decompress_mode = Synchronous\<rparr>, t))"
  by (auto simp: CompressionCodecDeflateQpl_flushAsynchronousDecompressRequests_def
        getDecompressMode_def setDecompressMode_def split: option.splits sum.splits if_splits)

theorem flush_resets_mode_witness:
  "CompressionCodecDeflateQpl_flushAsynchronousDecompressRequests
     (example_env QPL_STS_OK QPL_STS_OK QPL_STS_OK QPL_STS_OK 0)
     (example_codec [(1, 1)] Asynchronous) (example_process [False, True] (\<lambda>k. 0) 0) =
   Some (Inr (),
         \<lparr>sw_codec = \<lparr>sw_job = None\<rparr>, hw_codec = \<lparr>decomp_async_job_map = []\<rparr>,
          decompress_mode = Synchronous\<rparr>,
         \<lparr>pool = example_pool [False, False] (\<lambda>k. 0), memory = (\<lambda>a. 0), device = 0,
          calls = [Call_check 1 QPL_STS_OK example_job]\<rparr>)
   \<and> getDecompressMode \<lparr>sw_codec = \<lparr>sw_job = None\<rparr>, hw_codec = \<lparr>decomp_async_job_map = []\<rparr>,
          decompress_mode = Synchronous\<rparr> = Synchronous
   \<and> CompressionCodecDeflateQpl_flushAsynchronousDecompressRequests
     (example_env QPL_STS_OK QPL_STS_OK QPL_STS_OK QPL_STS_OK 0)
     (example_codec [(1, 1)] SoftwareFallback)
     ((example_process [False, True] (\<lambda>k. 0) 0)\<lparr>pool := (example_pool [False, True] (\<lambda>k. 0))\<lparr>job_pool_ready := False\<rparr>\<rparr>) =
   Some (Inr (), example_codec [(1, 1)] Synchronous,
      (example_process [False, True] (\<lambda>k. 0) 0)\<lparr>pool := (example_pool [False, True] (\<lambda>k. 0))\<lparr>job_pool_ready := False\<rparr>\<rparr>)"
proof -
  let ?E = "example_env QPL_STS_OK QPL_STS_OK QPL_STS_OK QPL_STS_OK 0"
  let ?c = "example_codec [(1, 1)] Asynchronous"
  let ?s = "example_process [False, True] (\<lambda>k. 0) 0"
  let ?t = "\<lparr>pool = example_pool [False, False] (\<lambda>k. 0), memory = (\<lambda>a. 0), device = 0,
          calls = [Call_check 1 QPL_STS_OK example_job]\<rparr> :: nat process"
  let ?c' = "\<lparr>sw_codec = \<lparr>sw_job = None\<rparr>, hw_codec = \<lparr>decomp_async_job_map = []\<rparr>,
          decompress_mode = Synchronous\<rparr>"
  have r: "isJobPoolReady (pool ?s)"
    by (simp add: isJobPoolReady_def example_process_def example_pool_def)
  have h: "HardwareCodecDeflateQpl_flushAsynchronousDecompressRequests ?E (hw_codec ?c) (sw_codec ?c) ?s
      = Some (Inr (), \<lparr>decomp_async_job_map = []\<rparr>, \<lparr>sw_job = None\<rparr>, ?t)"
    using example_hw_flush_ok by (simp add: example_codec_def)
  note T = flush_resets_mode [where E = ?E and c = ?c and s = ?s and hw' = "\<lparr>decomp_async_job_map = []\<rparr>"
      and sw' = "\<lparr>sw_job = None\<rparr>" and t = ?t and c' = ?c' and s' = ?t and u = "()"]
  have 1: "CompressionCodecDeflateQpl_flushAsynchronousDecompressRequests ?E ?c ?s = Some (Inr (), ?c', ?t)"
    using T r h by blast
  then have 2: "getDecompressMode ?c' = Synchronous" using T by blast
  let ?s2 = "?s\<lparr>pool := (example_pool [False, True] (\<lambda>k. 0))\<lparr>job_pool_ready := False\<rparr>\<rparr>"
  have 3: "CompressionCodecDeflateQpl_flushAsynchronousDecompressRequests ?E
     (example_codec [(1, 1)] SoftwareFallback) ?s2 =
     Some (Inr (), example_codec [(1, 1)] Synchronous, ?s2)"
    using flush_resets_mode [where E = ?E and c = "example_codec [(1, 1)] SoftwareFallback" and s = ?s2]
    by (simp add: isJobPoolReady_def example_codec_def setDecompressMode_def)
  from 1 2 3 show ?thesis by simp
qed


text \<open>
  The claim as stated promises the reset after every call. With one pending job whose
  check reports a failure and a software re-run that fails too, the drain throws
  \<^verbatim>\<open>CANNOT_DECOMPRESS\<close>; the exception leaves the codec's flush before
  \<^verbatim>\<open>setDecompressMode\<close>, and the mode is still Asynchronous.
\<close>

theorem flush_raises_mode_kept_counterexample:
  "CompressionCodecDeflateQpl_flushAsynchronousDecompressRequests
     (example_env QPL_STS_OK (QPL_STS_OTHER 1) QPL_STS_OK (QPL_STS_OTHER 2) 0)
     (example_codec [(1, 1)] Asynchronous) (example_process [False, True] (\<lambda>k. 0) 0) =
   Some (Inl (Exception CANNOT_DECOMPRESS (QPL_STS_OTHER 2)),
         \<lparr>sw_codec = \<lparr>sw_job = Some (example_job\<lparr>flags := {QPL_FLAG_FIRST, QPL_FLAG_LAST}\<rparr>)\<rparr>,
          hw_codec = \<lparr>decomp_async_job_map = [(1, 1)]\<rparr>,
          decompress_mode = Asynchronous\<rparr>,
         (example_process [False, True] (\<lambda>k. 0) 0)
           \<lparr>calls := [Call_check 1 (QPL_STS_OTHER 1) example_job, Call_init qpl_path_software,
                       Call_execute qpl_path_software
                         (example_job\<lparr>flags := {QPL_FLAG_FIRST, QPL_FLAG_LAST}\<rparr>)]\<rparr>)"
  using example_hw_flush_raises
  by (simp add: CompressionCodecDeflateQpl_flushAsynchronousDecompressRequests_def
        isJobPoolReady_def example_process_def example_pool_def example_codec_def)


text \<open>
  C9 (the software codec finalizes its job at destruction). The destructor tests
  \<^verbatim>\<open>if (!sw_job)\<close>: a codec that has been used holds a job object (the first call creates
  it) and its destructor makes no QPL call at all, so the job is never finalized; a codec
  that was never used calls \<^verbatim>\<open>qpl_fini_job\<close> on the null pointer.
\<close>

theorem software_destructor_inverted:
  "sw_job (fst (snd (SoftwareCodecDeflateQpl_doDecompressData E source source_sz dest n \<lparr>sw_job = None\<rparr> s))) \<noteq> None
   \<and> SoftwareCodecDeflateQpl_destructor E \<lparr>sw_job = Some job\<rparr> s = s
   \<and> calls (SoftwareCodecDeflateQpl_destructor E \<lparr>sw_job = None\<rparr> s) = calls s @ [Call_fini None]"
  by (simp add: SoftwareCodecDeflateQpl_destructor_def SoftwareCodecDeflateQpl_doDecompressData_def
        getJobCodecPtr_def do_qpl_fini_job_def split: prod.splits)

text \<open>
  C8 (the bound on the compressed size). \<^verbatim>\<open>getMaxCompressedDataSize\<close> is a function of the
  length alone (13 for length 0). Every execution \<^verbatim>\<open>doCompressData\<close> starts, on the hardware
  path and on the software path alike, is a compression into \<^verbatim>\<open>dest\<close> with
  \<^verbatim>\<open>available_out = getMaxCompressedDataSize(source_size)\<close>. So, with an engine that never
  reports more output than the capacity it was given, the length \<^verbatim>\<open>doCompressData\<close> returns
  is at most the bound, whichever path produced it.
\<close>

theorem maxCompressedSize_bounds_result:
  "getMaxCompressedDataSize 0 = 13
   \<and> (CompressionCodecDeflateQpl_doCompressData E source n dest c s = Some (r, c', s') \<longrightarrow>
        (\<exists>new. calls s' = calls s @ new
           \<and> (\<forall>path job. Call_execute path job \<in> set new \<longrightarrow>
                 available_out job = getMaxCompressedDataSize n \<and> next_out_ptr job = dest
                 \<and> op job = qpl_op_compress))
        \<and> (engine_respects_capacity E \<longrightarrow>
             (\<forall>res. r = Inr res \<longrightarrow> res \<le> getMaxCompressedDataSize n)))"
proof (intro conjI impI)
  show "getMaxCompressedDataSize 0 = 13" by (simp add: getMaxCompressedDataSize_def)
next
  let ?b = "getMaxCompressedDataSize n"
  assume D: "CompressionCodecDeflateQpl_doCompressData E source n dest c s = Some (r, c', s')"
  let ?hw = "if isJobPoolReady (pool s)
            then HardwareCodecDeflateQpl_doCompressData E source n dest ?b s
            else Some (RET_ERROR E, s)"
  from D obtain res s1 where hw: "?hw = Some (res, s1)"
    by (cases ?hw) (auto simp: CompressionCodecDeflateQpl_doCompressData_def)
  have h: "\<exists>new. calls s1 = calls s @ new
           \<and> (\<forall>path job. Call_execute path job \<in> set new \<longrightarrow>
                 path = qpl_path_hardware \<and> (\<exists>j. job = compress_job j source n dest ?b))
           \<and> (engine_respects_capacity E \<longrightarrow> res = RET_ERROR E \<or> res \<le> ?b)"
  proof (cases "isJobPoolReady (pool s)")
    case True
    with hw show ?thesis by (intro hw_compress_result) simp
  next
    case False
    with hw show ?thesis by simp
  qed
  then obtain new1 where n1: "calls s1 = calls s @ new1"
     "\<forall>path job. Call_execute path job \<in> set new1 \<longrightarrow> (\<exists>j. job = compress_job j source n dest ?b)"
     "engine_respects_capacity E \<longrightarrow> res = RET_ERROR E \<or> res \<le> ?b"
    by blast
  have "(\<exists>new. calls s' = calls s @ new
           \<and> (\<forall>path job. Call_execute path job \<in> set new \<longrightarrow> (\<exists>j. job = compress_job j source n dest ?b)))
        \<and> (engine_respects_capacity E \<longrightarrow> (\<forall>res. r = Inr res \<longrightarrow> res \<le> ?b))"
  proof (cases "res = RET_ERROR E")
    case False
    with D hw have "r = Inr res" "s' = s1"
      by (auto simp: CompressionCodecDeflateQpl_doCompressData_def)
    with n1 False show ?thesis by auto
  next
    case True
    obtain r2 sw2 s2 where sw: "SoftwareCodecDeflateQpl_doCompressData E source n dest ?b (sw_codec c) s1 = (r2, sw2, s2)"
      by (cases "SoftwareCodecDeflateQpl_doCompressData E source n dest ?b (sw_codec c) s1")
    with D hw True have rs: "r = r2" "s' = s2"
      by (auto simp: CompressionCodecDeflateQpl_doCompressData_def)
    from sw_compress_result [OF sw] obtain new2 where n2: "calls s2 = calls s1 @ new2"
      "\<forall>path job. Call_execute path job \<in> set new2 \<longrightarrow> (\<exists>j. job = compress_job j source n dest ?b)"
      "engine_respects_capacity E \<longrightarrow> (\<forall>res. r2 = Inr res \<longrightarrow> res \<le> ?b)"
      by blast
    have "calls s' = calls s @ (new1 @ new2)" using n1 n2 rs by simp
    moreover have "\<forall>path job. Call_execute path job \<in> set (new1 @ new2) \<longrightarrow> (\<exists>j. job = compress_job j source n dest ?b)"
      using n1 n2 by auto
    ultimately show ?thesis using n2 rs by blast
  qed
  then obtain new where nw: "calls s' = calls s @ new"
      "\<forall>path job. Call_execute path job \<in> set new \<longrightarrow> (\<exists>j. job = compress_job j source n dest ?b)"
    and rc: "engine_respects_capacity E \<longrightarrow> (\<forall>res. r = Inr res \<longrightarrow> res \<le> ?b)"
    by blast
  have "\<forall>path job. Call_execute path job \<in> set new \<longrightarrow>
          available_out job = ?b \<and> next_out_ptr job = dest \<and> op job = qpl_op_compress"
  proof (intro allI impI)
    fix path job assume "Call_execute path job \<in> set new"
    with nw(2) obtain j where "job = compress_job j source n dest ?b" by blast
    then show "available_out job = ?b \<and> next_out_ptr job = dest \<and> op job = qpl_op_compress"
      by (simp add: compress_job_fields)
  qed
  with nw(1) show "\<exists>new. calls s' = calls s @ new
           \<and> (\<forall>path job. Call_execute path job \<in> set new \<longrightarrow>
                 available_out job = ?b \<and> next_out_ptr job = dest \<and> op job = qpl_op_compress)"
    by blast
  from rc show "engine_respects_capacity E \<Longrightarrow> \<forall>res. r = Inr res \<longrightarrow> res \<le> ?b"
    by blast
qed

theorem maxCompressedSize_bounds_result_witness:
  "engine_respects_capacity (example_env QPL_STS_OK QPL_STS_OK QPL_STS_OK QPL_STS_OK 5)
   \<and> CompressionCodecDeflateQpl_doCompressData
     (example_env QPL_STS_OK QPL_STS_OK QPL_STS_OK QPL_STS_OK 5) 100 8 200
     (example_codec [] Synchronous) (example_process [False, False] (\<lambda>k. 0) 0) =
   Some (Inr 5, example_codec [] Synchronous,
         (example_process [False, False] (\<lambda>k. 0) 0)
           \<lparr>pool := (example_pool [False, False] (\<lambda>k. 0))
                \<lparr>hw_jobs_buffer := [(compress_job example_job 100 8 200 21)\<lparr>total_out := 5\<rparr>, example_job]\<rparr>,
            calls := [Call_execute qpl_path_hardware (compress_job example_job 100 8 200 21)]\<rparr>)
   \<and> (5 :: UInt32) \<le> getMaxCompressedDataSize 8
   \<and> available_out (compress_job example_job 100 8 200 21) = getMaxCompressedDataSize 8"
proof -
  note T = maxCompressedSize_bounds_result [
      where E = "example_env QPL_STS_OK QPL_STS_OK QPL_STS_OK QPL_STS_OK 5"
        and source = 100 and n = 8 and dest = 200 and c = "example_codec [] Synchronous"
        and s = "example_process [False, False] (\<lambda>k. 0) 0", THEN conjunct2, rule_format,
      OF example_compress]
  from T have 1: "(5 :: UInt32) \<le> getMaxCompressedDataSize 8"
    using example_engine_respects_capacity by blast
  from T obtain new where n: "calls ((example_process [False, False] (\<lambda>k. 0) 0)
           \<lparr>pool := (example_pool [False, False] (\<lambda>k. 0))
                \<lparr>hw_jobs_buffer := [(compress_job example_job 100 8 200 21)\<lparr>total_out := 5\<rparr>, example_job]\<rparr>,
            calls := [Call_execute qpl_path_hardware (compress_job example_job 100 8 200 21)]\<rparr>)
         = calls (example_process [False, False] (\<lambda>k. 0) 0) @ new"
       "\<forall>path job. Call_execute path job \<in> set new \<longrightarrow>
                 available_out job = getMaxCompressedDataSize 8 \<and> next_out_ptr job = 200
                 \<and> op job = qpl_op_compress"
    by blast
  from n(1) have "new = [Call_execute qpl_path_hardware (compress_job example_job 100 8 200 21)]"
    by (simp add: example_process_def)
  with n(2) have 2: "available_out (compress_job example_job 100 8 200 21) = getMaxCompressedDataSize 8"
    by simp
  from 1 2 example_compress example_engine_respects_capacity show ?thesis by simp
qed

section \<open>Claims about the fallback\<close>

text \<open>
  C1 (fallback transparency). The codec tells a hardware failure by the value
  \<^verbatim>\<open>RET_ERROR\<close>, which the hardware codec returns when \<^verbatim>\<open>acquireJob\<close> yields \<^verbatim>\<open>nullptr\<close>, when
  the execution or the submission is refused, and when the poll ends with a status other
  than \<^verbatim>\<open>QPL_STS_OK\<close>; the slot it held is released in each case (the last four conjuncts).
  When the pool is not ready, or the hardware call returns \<^verbatim>\<open>RET_ERROR\<close> leaving the
  process in \<open>s1\<close>, \<^verbatim>\<open>doCompressData\<close> and \<^verbatim>\<open>doDecompressData\<close> (in every mode) return: their
  outcome is that of the software codec called with the same arguments on \<open>s1\<close>, so the
  only exception that can reach the caller is one the software codec throws. Whatever the
  failed attempt did, with source and destination buffers apart the outcome is that of the
  all-software run of the same call (for a decompression the call in mode SoftwareFallback,
  for a compression the call on the pool not ready): the same value or exception, the same
  state of the software codec, and the same bytes produced in the destination. The engine
  is outside the repository; what is used of it is that the hardware path writes only
  inside the output window of its job and that the software path is a function of its job
  and of the bytes in its input window.
\<close>

theorem fallback_transparency:
  assumes touch: "touchBufferWithZeroFilling (getPageSize E) dest n (memory s0) = Some m"
    and hw_engine: "hardware_writes_output E"
    and sw_engine: "software_reads_source E"
  shows
  "(\<not> isJobPoolReady (pool s) \<longrightarrow>
      CompressionCodecDeflateQpl_doCompressData E source k dst c s =
        Some (software_compress E source k dst c s))
   \<and> (isJobPoolReady (pool s)
        \<and> HardwareCodecDeflateQpl_doCompressData E source k dst (getMaxCompressedDataSize k) s
            = Some (RET_ERROR E, s1) \<longrightarrow>
      CompressionCodecDeflateQpl_doCompressData E source k dst c s =
        Some (software_compress E source k dst c s1)
      \<and> ({source ..< source + unat k} \<inter> {dst ..< dst + unat (getMaxCompressedDataSize k)} = {} \<longrightarrow>
          (\<exists>y. CompressionCodecDeflateQpl_doCompressData E source k dst c
                  (s\<lparr>pool := (pool s)\<lparr>job_pool_ready := False\<rparr>\<rparr>) = Some y
               \<and> same_outcome dst (software_compress E source k dst c s1) y)))
   \<and> (getDecompressMode c = SoftwareFallback \<or> \<not> isJobPoolReady (pool s0) \<longrightarrow>
      CompressionCodecDeflateQpl_doDecompressData E source sz dest n c s0 =
        Some (software_decompress E source sz dest n c (s0\<lparr>memory := m\<rparr>)))
   \<and> (getDecompressMode c = Synchronous \<and> isJobPoolReady (pool s0)
        \<and> HardwareCodecDeflateQpl_doDecompressDataSynchronous E source sz dest n (s0\<lparr>memory := m\<rparr>)
            = Some (RET_ERROR E, s1) \<longrightarrow>
      CompressionCodecDeflateQpl_doDecompressData E source sz dest n c s0 =
        Some (software_decompress E source sz dest n c s1)
      \<and> ({source ..< source + unat sz} \<inter> {dest ..< dest + unat n} = {} \<longrightarrow>
          (\<exists>y. CompressionCodecDeflateQpl_doDecompressData E source sz dest n
                  (setDecompressMode SoftwareFallback c) s0 = Some y
               \<and> same_outcome dest (software_decompress E source sz dest n c s1) y)))
   \<and> (getDecompressMode c = Asynchronous \<and> isJobPoolReady (pool s0)
        \<and> HardwareCodecDeflateQpl_doDecompressDataAsynchronous E source sz dest n (hw_codec c)
              (s0\<lparr>memory := m\<rparr>)
            = Some (RET_ERROR E, hw_codec c, s1) \<longrightarrow>
      CompressionCodecDeflateQpl_doDecompressData E source sz dest n c s0 =
        Some (software_decompress E source sz dest n c s1)
      \<and> ({source ..< source + unat sz} \<inter> {dest ..< dest + unat n} = {} \<longrightarrow>
          (\<exists>y. CompressionCodecDeflateQpl_doDecompressData E source sz dest n
                  (setDecompressMode SoftwareFallback c) s0 = Some y
               \<and> same_outcome dest (software_decompress E source sz dest n c s1) y)))
   \<and> (acquireJob (pool s) = Some (None, p) \<longrightarrow>
        HardwareCodecDeflateQpl_doCompressData E source k dst dsz s = Some (RET_ERROR E, s\<lparr>pool := p\<rparr>)
        \<and> HardwareCodecDeflateQpl_doDecompressDataSynchronous E source sz dest n s
            = Some (RET_ERROR E, s\<lparr>pool := p\<rparr>)
        \<and> HardwareCodecDeflateQpl_doDecompressDataAsynchronous E source sz dest n hw s
            = Some (RET_ERROR E, hw, s\<lparr>pool := p\<rparr>))
   \<and> (acquireJob (pool s) = Some (Some (job_ptr, job_id), p)
        \<and> fst (qpl_execute_job E qpl_path_hardware
                  (compress_job (hw_jobs_buffer p ! job_ptr) source k dst dsz) (memory s, device s))
            \<noteq> QPL_STS_OK \<longrightarrow>
        (\<exists>t. HardwareCodecDeflateQpl_doCompressData E source k dst dsz s = Some (RET_ERROR E, t)
           \<and> hw_job_ptr_locks (pool t) = hw_job_ptr_locks (pool s)))
   \<and> (acquireJob (pool s) = Some (Some (job_ptr, job_id), p)
        \<and> fst (qpl_submit_job E job_ptr
                  (decompress_job (hw_jobs_buffer p ! job_ptr) source sz dest n) (memory s, device s))
            \<noteq> QPL_STS_OK \<longrightarrow>
        (\<exists>t. HardwareCodecDeflateQpl_doDecompressDataSynchronous E source sz dest n s
                = Some (RET_ERROR E, t)
           \<and> hw_job_ptr_locks (pool t) = hw_job_ptr_locks (pool s))
        \<and> (\<exists>t. HardwareCodecDeflateQpl_doDecompressDataAsynchronous E source sz dest n hw s
                = Some (RET_ERROR E, hw, t)
           \<and> hw_job_ptr_locks (pool t) = hw_job_ptr_locks (pool s)))
   \<and> (acquireJob (pool s) = Some (Some (job_ptr, job_id), p)
        \<and> do_qpl_submit_job E job_ptr
              (decompress_job (hw_jobs_buffer p ! job_ptr) source sz dest n) (s\<lparr>pool := p\<rparr>)
            = (QPL_STS_OK, job, s')
        \<and> doDecompressDataSynchronous_wait E job_ptr job s' = Some (status, job', s'')
        \<and> status \<noteq> QPL_STS_OK \<longrightarrow>
        (\<exists>t. HardwareCodecDeflateQpl_doDecompressDataSynchronous E source sz dest n s
                = Some (RET_ERROR E, t)
           \<and> hw_job_ptr_locks (pool t) = hw_job_ptr_locks (pool s)))"
  (is "?unready_compress \<and> ?failed_compress \<and> ?software_decompress \<and> ?failed_sync
       \<and> ?failed_async \<and> ?no_slot \<and> ?refused_execute \<and> ?refused_submit \<and> ?failed_poll")
proof -
  note cd = codec_decompress_software [OF touch, of c source sz s1]
  note cc = codec_compress_software [of s E source k dst c s1]
  let ?all_sw = "software_decompress E source sz dest n (setDecompressMode SoftwareFallback c)
                   (s0\<lparr>memory := m\<rparr>)"
  have fb: "CompressionCodecDeflateQpl_doDecompressData E source sz dest n
              (setDecompressMode SoftwareFallback c) s0 = Some ?all_sw"
    using codec_decompress_software [OF touch, of "setDecompressMode SoftwareFallback c" source sz]
    by (simp add: getDecompressMode_def setDecompressMode_def)
  have same_sw: "sw_codec c = sw_codec (setDecompressMode SoftwareFallback c)"
    by (simp add: setDecompressMode_def)
  have d_sync: "HardwareCodecDeflateQpl_doDecompressDataSynchronous E source sz dest n (s0\<lparr>memory := m\<rparr>)
            = Some (RET_ERROR E, s1) \<Longrightarrow>
        {source ..< source + unat sz} \<inter> {dest ..< dest + unat n} = {} \<Longrightarrow>
        same_outcome dest (software_decompress E source sz dest n c s1) ?all_sw"
  proof -
    assume run: "HardwareCodecDeflateQpl_doDecompressDataSynchronous E source sz dest n (s0\<lparr>memory := m\<rparr>)
            = Some (RET_ERROR E, s1)"
      and apart: "{source ..< source + unat sz} \<inter> {dest ..< dest + unat n} = {}"
    have "\<forall>a \<in> {source ..< source + unat sz}. memory s1 a = memory (s0\<lparr>memory := m\<rparr>) a"
    proof
      fix a assume "a \<in> {source ..< source + unat sz}"
      with apart have "a \<notin> {dest ..< dest + unat n}" by blast
      then show "memory s1 a = memory (s0\<lparr>memory := m\<rparr>) a"
        by (rule hw_sync_spares [OF run hw_engine])
    qed
    then show ?thesis by (rule software_decompress_agree [OF sw_engine _ same_sw])
  qed
  have d_async: "HardwareCodecDeflateQpl_doDecompressDataAsynchronous E source sz dest n (hw_codec c)
              (s0\<lparr>memory := m\<rparr>) = Some (RET_ERROR E, hw_codec c, s1) \<Longrightarrow>
        {source ..< source + unat sz} \<inter> {dest ..< dest + unat n} = {} \<Longrightarrow>
        same_outcome dest (software_decompress E source sz dest n c s1) ?all_sw"
  proof -
    assume run: "HardwareCodecDeflateQpl_doDecompressDataAsynchronous E source sz dest n (hw_codec c)
              (s0\<lparr>memory := m\<rparr>) = Some (RET_ERROR E, hw_codec c, s1)"
      and apart: "{source ..< source + unat sz} \<inter> {dest ..< dest + unat n} = {}"
    have "\<forall>a \<in> {source ..< source + unat sz}. memory s1 a = memory (s0\<lparr>memory := m\<rparr>) a"
    proof
      fix a assume "a \<in> {source ..< source + unat sz}"
      with apart have "a \<notin> {dest ..< dest + unat n}" by blast
      then show "memory s1 a = memory (s0\<lparr>memory := m\<rparr>) a"
        by (rule hw_async_spares [OF run hw_engine])
    qed
    then show ?thesis by (rule software_decompress_agree [OF sw_engine _ same_sw])
  qed
  let ?unready = "s\<lparr>pool := (pool s)\<lparr>job_pool_ready := False\<rparr>\<rparr>"
  have cu: "CompressionCodecDeflateQpl_doCompressData E source k dst c ?unready
              = Some (software_compress E source k dst c ?unready)"
    using codec_compress_software [of ?unready E source k dst c] by (simp add: isJobPoolReady_def)
  have c_hw: "HardwareCodecDeflateQpl_doCompressData E source k dst (getMaxCompressedDataSize k) s
            = Some (RET_ERROR E, s1) \<Longrightarrow>
        {source ..< source + unat k} \<inter> {dst ..< dst + unat (getMaxCompressedDataSize k)} = {} \<Longrightarrow>
        same_outcome dst (software_compress E source k dst c s1)
          (software_compress E source k dst c ?unready)"
  proof -
    assume run: "HardwareCodecDeflateQpl_doCompressData E source k dst (getMaxCompressedDataSize k) s
            = Some (RET_ERROR E, s1)"
      and apart: "{source ..< source + unat k} \<inter> {dst ..< dst + unat (getMaxCompressedDataSize k)} = {}"
    have "\<forall>a \<in> {source ..< source + unat k}. memory s1 a = memory ?unready a"
    proof
      fix a assume "a \<in> {source ..< source + unat k}"
      with apart have "a \<notin> {dst ..< dst + unat (getMaxCompressedDataSize k)}" by blast
      from hw_compress_spares [OF run hw_engine this] show "memory s1 a = memory ?unready a"
        by simp
    qed
    then show ?thesis by (rule software_compress_agree [OF sw_engine _ refl])
  qed
  have k1: "acquireJob (pool s) = Some (None, p) \<longrightarrow>
        HardwareCodecDeflateQpl_doCompressData E source k dst dsz s = Some (RET_ERROR E, s\<lparr>pool := p\<rparr>)
        \<and> HardwareCodecDeflateQpl_doDecompressDataSynchronous E source sz dest n s
            = Some (RET_ERROR E, s\<lparr>pool := p\<rparr>)
        \<and> HardwareCodecDeflateQpl_doDecompressDataAsynchronous E source sz dest n hw s
            = Some (RET_ERROR E, hw, s\<lparr>pool := p\<rparr>)"
    by (simp add: hw_compress_acquire_fails hw_sync_acquire_fails hw_async_acquire_fails)
  have k2: "acquireJob (pool s) = Some (Some (job_ptr, job_id), p)
        \<and> fst (qpl_execute_job E qpl_path_hardware
                  (compress_job (hw_jobs_buffer p ! job_ptr) source k dst dsz) (memory s, device s))
            \<noteq> QPL_STS_OK \<longrightarrow>
        (\<exists>t. HardwareCodecDeflateQpl_doCompressData E source k dst dsz s = Some (RET_ERROR E, t)
           \<and> hw_job_ptr_locks (pool t) = hw_job_ptr_locks (pool s))"
    using hw_compress_execute_fails [of s job_ptr job_id p E source k dst dsz] by blast
  have k3: "acquireJob (pool s) = Some (Some (job_ptr, job_id), p)
        \<and> fst (qpl_submit_job E job_ptr
                  (decompress_job (hw_jobs_buffer p ! job_ptr) source sz dest n) (memory s, device s))
            \<noteq> QPL_STS_OK \<longrightarrow>
        (\<exists>t. HardwareCodecDeflateQpl_doDecompressDataSynchronous E source sz dest n s
                = Some (RET_ERROR E, t)
           \<and> hw_job_ptr_locks (pool t) = hw_job_ptr_locks (pool s))
        \<and> (\<exists>t. HardwareCodecDeflateQpl_doDecompressDataAsynchronous E source sz dest n hw s
                = Some (RET_ERROR E, hw, t)
           \<and> hw_job_ptr_locks (pool t) = hw_job_ptr_locks (pool s))"
    using hw_sync_submit_fails [of s job_ptr job_id p E source sz dest n]
      hw_async_submit_fails [of s job_ptr job_id p E source sz dest n hw] by blast
  have k4: "acquireJob (pool s) = Some (Some (job_ptr, job_id), p)
        \<and> do_qpl_submit_job E job_ptr
              (decompress_job (hw_jobs_buffer p ! job_ptr) source sz dest n) (s\<lparr>pool := p\<rparr>)
            = (QPL_STS_OK, job, s')
        \<and> doDecompressDataSynchronous_wait E job_ptr job s' = Some (status, job', s'')
        \<and> status \<noteq> QPL_STS_OK \<longrightarrow>
        (\<exists>t. HardwareCodecDeflateQpl_doDecompressDataSynchronous E source sz dest n s
                = Some (RET_ERROR E, t)
           \<and> hw_job_ptr_locks (pool t) = hw_job_ptr_locks (pool s))"
    using hw_sync_poll_fails [of s job_ptr job_id p E source sz dest n job s' status job' s''] by blast
  have j1: ?unready_compress using cc by blast
  have j2: ?failed_compress
  proof (intro impI conjI)
    assume a: "isJobPoolReady (pool s)
        \<and> HardwareCodecDeflateQpl_doCompressData E source k dst (getMaxCompressedDataSize k) s
            = Some (RET_ERROR E, s1)"
    with cc show "CompressionCodecDeflateQpl_doCompressData E source k dst c s =
        Some (software_compress E source k dst c s1)" by blast
    assume "{source ..< source + unat k} \<inter> {dst ..< dst + unat (getMaxCompressedDataSize k)} = {}"
    from c_hw [OF a [THEN conjunct2] this] cu
    show "\<exists>y. CompressionCodecDeflateQpl_doCompressData E source k dst c ?unready = Some y
               \<and> same_outcome dst (software_compress E source k dst c s1) y"
      by blast
  qed
  have j3: ?software_decompress using cd by blast
  have j4: ?failed_sync
  proof (intro impI conjI)
    assume a: "getDecompressMode c = Synchronous \<and> isJobPoolReady (pool s0)
        \<and> HardwareCodecDeflateQpl_doDecompressDataSynchronous E source sz dest n (s0\<lparr>memory := m\<rparr>)
            = Some (RET_ERROR E, s1)"
    with cd show "CompressionCodecDeflateQpl_doDecompressData E source sz dest n c s0 =
        Some (software_decompress E source sz dest n c s1)" by blast
    assume "{source ..< source + unat sz} \<inter> {dest ..< dest + unat n} = {}"
    from d_sync [OF a [THEN conjunct2, THEN conjunct2] this] fb
    show "\<exists>y. CompressionCodecDeflateQpl_doDecompressData E source sz dest n
                  (setDecompressMode SoftwareFallback c) s0 = Some y
               \<and> same_outcome dest (software_decompress E source sz dest n c s1) y"
      by blast
  qed
  have j5: ?failed_async
  proof (intro impI conjI)
    assume a: "getDecompressMode c = Asynchronous \<and> isJobPoolReady (pool s0)
        \<and> HardwareCodecDeflateQpl_doDecompressDataAsynchronous E source sz dest n (hw_codec c)
              (s0\<lparr>memory := m\<rparr>)
            = Some (RET_ERROR E, hw_codec c, s1)"
    with cd show "CompressionCodecDeflateQpl_doDecompressData E source sz dest n c s0 =
        Some (software_decompress E source sz dest n c s1)" by blast
    assume "{source ..< source + unat sz} \<inter> {dest ..< dest + unat n} = {}"
    from d_async [OF a [THEN conjunct2, THEN conjunct2] this] fb
    show "\<exists>y. CompressionCodecDeflateQpl_doDecompressData E source sz dest n
                  (setDecompressMode SoftwareFallback c) s0 = Some y
               \<and> same_outcome dest (software_decompress E source sz dest n c s1) y"
      by blast
  qed
  from j1 j2 j3 j4 j5 k1 k2 k3 k4 show ?thesis by (intro conjI)
qed

theorem fallback_transparency_witness:
  "touchBufferWithZeroFilling (getPageSize (example_copy_env (QPL_STS_OTHER 1))) 200 2
       (memory example_source_process)
     = Some ((memory example_source_process)(200 := 0))
   \<and> hardware_writes_output (example_copy_env (QPL_STS_OTHER 1))
   \<and> software_reads_source (example_copy_env (QPL_STS_OTHER 1))
   \<and> (\<exists>s1 x y.
        HardwareCodecDeflateQpl_doDecompressDataSynchronous (example_copy_env (QPL_STS_OTHER 1))
            100 2 200 2
            (example_source_process\<lparr>memory := (memory example_source_process)(200 := 0)\<rparr>)
          = Some (RET_ERROR (example_copy_env (QPL_STS_OTHER 1)), s1)
        \<and> memory s1 200 = 7
        \<and> CompressionCodecDeflateQpl_doDecompressData (example_copy_env (QPL_STS_OTHER 1))
            100 2 200 2 (example_codec [] Synchronous) example_source_process = Some x
        \<and> CompressionCodecDeflateQpl_doDecompressData (example_copy_env (QPL_STS_OTHER 1))
            100 2 200 2 (setDecompressMode SoftwareFallback (example_codec [] Synchronous))
            example_source_process = Some y
        \<and> same_outcome 200 x y
        \<and> fst x = Inr ()
        \<and> memory (snd (snd x)) 200 = 5 \<and> memory (snd (snd x)) 201 = 6
        \<and> memory (snd (snd y)) 200 = 5 \<and> memory (snd (snd y)) 201 = 6)"
proof -
  let ?E = "example_copy_env (QPL_STS_OTHER 1)"
  let ?c = "example_codec [] Synchronous"
  let ?start = "example_source_process"
  let ?m = "(memory example_source_process)(200 := 0)"
  let ?failed = "example_source_process
           \<lparr>pool := (example_pool [False, False] (\<lambda>k. 0))
                \<lparr>hw_jobs_buffer := [decompress_job example_job 100 2 200 2, example_job]\<rparr>,
            memory := (memory example_source_process)(200 := 7),
            calls := [Call_submit 0 (decompress_job example_job 100 2 200 2)]\<rparr>"
  let ?x = "software_decompress ?E 100 2 200 2 ?c ?failed"
  have t: "touchBufferWithZeroFilling (getPageSize ?E) 200 2 (memory ?start) = Some ?m"
    by (rule example_copy_touch)
  have hw: "hardware_writes_output ?E" by (rule example_copy_hardware)
  have sw: "software_reads_source ?E" by (rule example_copy_software)
  have h: "HardwareCodecDeflateQpl_doDecompressDataSynchronous ?E 100 2 200 2 (?start\<lparr>memory := ?m\<rparr>)
      = Some (RET_ERROR ?E, ?failed)"
    using example_copy_sync_refused by (simp add: example_copy_env_simps)
  have r: "getDecompressMode ?c = Synchronous" "isJobPoolReady (pool ?start)"
    by (simp_all add: getDecompressMode_def example_codec_def isJobPoolReady_def
          example_source_process_def example_process_def example_pool_def)
  have apart: "{100 ..< 100 + unat (2 :: UInt32)} \<inter> {200 ..< 200 + unat (2 :: UInt32)} = {}"
    by simp
  note T = fallback_transparency [OF t hw sw, where c = ?c and ?s1.0 = ?failed and source = 100
      and sz = 2]
  from T r h have 1: "CompressionCodecDeflateQpl_doDecompressData ?E 100 2 200 2 ?c ?start = Some ?x"
    by blast
  from T r h apart obtain y where
    2: "CompressionCodecDeflateQpl_doDecompressData ?E 100 2 200 2
          (setDecompressMode SoftwareFallback ?c) ?start = Some y"
    and 3: "same_outcome 200 ?x y"
    by blast
  have 4: "fst ?x = Inr ()" "memory (snd (snd ?x)) 200 = 5" "memory (snd (snd ?x)) 201 = 6"
    by (simp_all add: example_copy_fallback)
  have 5: "memory (snd (snd y)) 200 = 5" "memory (snd (snd y)) 201 = 6"
    using same_outcome_bytes [OF 3 4(1), of 200] same_outcome_bytes [OF 3 4(1), of 201] 4
    by (simp_all add: example_copy_fallback)
  have 6: "memory ?failed 200 = 7" by simp
  from t hw sw h 6 1 2 3 4 5 show ?thesis by blast
qed

section \<open>Claims about the slots over the hardware codec's operations\<close>

text \<open>
  C10 (slot balance). Seen from one hardware codec, with \<open>others\<close> the slots registered
  in the pending maps of the other hardware codecs: \<^verbatim>\<open>doCompressData\<close> and
  \<^verbatim>\<open>doDecompressDataSynchronous\<close> return with every flag as they found it, on each of
  their exit paths, so they keep the balance. \<^verbatim>\<open>doDecompressDataAsynchronous\<close> keeps the
  balance: either it returns with map and flags unchanged, or it has locked one slot that
  was free and registered exactly that slot under the handle it returns.
  \<^verbatim>\<open>flushAsynchronousDecompressRequests\<close> keeps the balance, registers nothing and locks
  nothing; when it returns normally its map is empty and the held slots are exactly
  \<open>others\<close>.
\<close>

theorem slot_balance_invariant:
  "(HardwareCodecDeflateQpl_doCompressData E source k dst dsz s = Some (res, s') \<longrightarrow>
      hw_job_ptr_locks (pool s') = hw_job_ptr_locks (pool s)
      \<and> slot_balance (pool s') hw others = slot_balance (pool s) hw others)
   \<and> (HardwareCodecDeflateQpl_doDecompressDataSynchronous E source k dst dsz s = Some (res, s') \<longrightarrow>
      hw_job_ptr_locks (pool s') = hw_job_ptr_locks (pool s)
      \<and> slot_balance (pool s') hw others = slot_balance (pool s) hw others)
   \<and> (slot_balance (pool s) hw others
        \<and> HardwareCodecDeflateQpl_doDecompressDataAsynchronous E source k dst dsz hw s
            = Some (res, hw', s') \<longrightarrow>
      slot_balance (pool s') hw' others
      \<and> (hw' = hw \<and> hw_job_ptr_locks (pool s') = hw_job_ptr_locks (pool s)
          \<or> (\<exists>job_ptr. job_ptr \<notin> held_slots (pool s)
                \<and> held_slots (pool s') = insert job_ptr (held_slots (pool s))
                \<and> registered_slots hw' = insert job_ptr (registered_slots hw)
                \<and> res = max_hw_jobs (pool s) - of_nat job_ptr)))
   \<and> (slot_balance (pool s) hw others
        \<and> HardwareCodecDeflateQpl_flushAsynchronousDecompressRequests E hw sw s
            = Some (r, hw', sw', s') \<longrightarrow>
      slot_balance (pool s') hw' others
      \<and> registered_slots hw' \<subseteq> registered_slots hw
      \<and> held_slots (pool s') \<subseteq> held_slots (pool s)
      \<and> (r = Inr () \<longrightarrow> decomp_async_job_map hw' = [] \<and> held_slots (pool s') = others))"
proof (intro conjI impI)
  assume a: "HardwareCodecDeflateQpl_doCompressData E source k dst dsz s = Some (res, s')"
  note h = hw_compress_slots [OF a]
  from h show "hw_job_ptr_locks (pool s') = hw_job_ptr_locks (pool s)" by simp
  from h show "slot_balance (pool s') hw others = slot_balance (pool s) hw others"
    by (intro slot_balance_cong) simp_all
next
  assume a: "HardwareCodecDeflateQpl_doDecompressDataSynchronous E source k dst dsz s = Some (res, s')"
  note h = hw_sync_slots [OF a]
  from h show "hw_job_ptr_locks (pool s') = hw_job_ptr_locks (pool s)" by simp
  from h show "slot_balance (pool s') hw others = slot_balance (pool s) hw others"
    by (intro slot_balance_cong) simp_all
next
  assume a: "slot_balance (pool s) hw others
        \<and> HardwareCodecDeflateQpl_doDecompressDataAsynchronous E source k dst dsz hw s
            = Some (res, hw', s')"
  from hw_async_balance [OF a [THEN conjunct1] a [THEN conjunct2]]
  show "slot_balance (pool s') hw' others"
    and "hw' = hw \<and> hw_job_ptr_locks (pool s') = hw_job_ptr_locks (pool s)
          \<or> (\<exists>job_ptr. job_ptr \<notin> held_slots (pool s)
                \<and> held_slots (pool s') = insert job_ptr (held_slots (pool s))
                \<and> registered_slots hw' = insert job_ptr (registered_slots hw)
                \<and> res = max_hw_jobs (pool s) - of_nat job_ptr)"
    by blast+
next
  assume a: "slot_balance (pool s) hw others
        \<and> HardwareCodecDeflateQpl_flushAsynchronousDecompressRequests E hw sw s
            = Some (r, hw', sw', s')"
  then have bal: "slot_balance (pool s) hw others"
    and run: "flushAsynchronousDecompressRequests_while E (length (decomp_async_job_map hw)) 0 hw sw s
              = Some (r, hw', sw', s')"
    by (simp_all add: HardwareCodecDeflateQpl_flushAsynchronousDecompressRequests_def)
  have inv: "flush_inv others (length (decomp_async_job_map hw)) 0 hw s"
    using bal by (simp add: flush_inv_def)
  from flush_while_partial [OF run inv]
  have b': "slot_balance (pool s') hw' others"
    and sub: "set (decomp_async_job_map hw') \<subseteq> set (decomp_async_job_map hw)"
    and emp: "r = Inr () \<longrightarrow> decomp_async_job_map hw' = []"
    by simp_all
  show "slot_balance (pool s') hw' others" by (rule b')
  show rs: "registered_slots hw' \<subseteq> registered_slots hw"
    using sub by (auto simp: registered_slots_def)
  show "held_slots (pool s') \<subseteq> held_slots (pool s)"
    using rs slot_balance_held [OF b'] slot_balance_held [OF bal] by auto
  show "r = Inr () \<Longrightarrow> decomp_async_job_map hw' = []" using emp by simp
  show "r = Inr () \<Longrightarrow> held_slots (pool s') = others"
    using emp slot_balance_held [OF b'] by (simp add: registered_slots_def)
qed

theorem slot_balance_invariant_witness:
  "slot_balance (pool (example_process [False, False] (\<lambda>k. 0) 0)) \<lparr>decomp_async_job_map = []\<rparr> {}
   \<and> HardwareCodecDeflateQpl_doDecompressDataAsynchronous
     (example_env QPL_STS_OK QPL_STS_OK QPL_STS_OK QPL_STS_OK 0) 100 8 200 0
     \<lparr>decomp_async_job_map = []\<rparr> (example_process [False, False] (\<lambda>k. 0) 0) =
   Some (2, \<lparr>decomp_async_job_map = [(2, 0)]\<rparr>,
         (example_process [True, False] (\<lambda>k. 0) 0)
           \<lparr>pool := (example_pool [True, False] (\<lambda>k. 0))
                \<lparr>hw_jobs_buffer := [decompress_job example_job 100 8 200 0, example_job]\<rparr>,
            calls := [Call_submit 0 (decompress_job example_job 100 8 200 0)]\<rparr>)
   \<and> slot_balance
        ((example_pool [True, False] (\<lambda>k. 0))
                \<lparr>hw_jobs_buffer := [decompress_job example_job 100 8 200 0, example_job]\<rparr>)
        \<lparr>decomp_async_job_map = [(2, 0)]\<rparr> {}"
  using slot_balance_invariant [where s = "example_process [False, False] (\<lambda>k. 0) 0"
      and hw = "\<lparr>decomp_async_job_map = []\<rparr>" and others = "{}"
      and E = "example_env QPL_STS_OK QPL_STS_OK QPL_STS_OK QPL_STS_OK 0"
      and source = 100 and k = 8 and dst = 200 and dsz = 0, THEN conjunct2, THEN conjunct2,
      THEN conjunct1, rule_format, OF conjI, OF example_slot_balance example_hw_async]
    example_slot_balance example_hw_async
  by simp
section \<open>Claims about the drain of the pending map\<close>

text \<open>
  C2 (the drain resolves every pending job). The code does not do what the claim says.
  When the check of the entry the drain starts with reports a failure and the software
  re-run of that job fails too, \<^verbatim>\<open>flushAsynchronousDecompressRequests\<close> of the hardware
  codec is left by the exception of the software codec, before \<^verbatim>\<open>erase\<close> and
  \<^verbatim>\<open>releaseJob\<close>: the map is as it was, with the failed entry and every other entry still
  registered, and every flag is as it was, so the slots of all pending jobs stay locked.
\<close>

theorem flush_rerun_failure_strands_jobs:
  assumes entry: "decomp_async_job_map hw \<noteq> []" "decomp_async_job_map hw ! 0 = (job_id, job_ptr)"
    and chk: "do_qpl_check_job E job_ptr (load_job s job_ptr) s = (status, job, s1)"
    and failed: "status \<noteq> QPL_STS_OK" "status \<noteq> QPL_STS_BEING_PROCESSED"
    and rerun: "SoftwareCodecDeflateQpl_doDecompressData E (next_in_ptr job) (available_in job)
                  (next_out_ptr job) (available_out job) sw (store_job job_ptr job s1)
                = (Inl e, sw', s2)"
  shows "HardwareCodecDeflateQpl_flushAsynchronousDecompressRequests E hw sw s
           = Some (Inl e, hw, sw', s2)
       \<and> hw_job_ptr_locks (pool s2) = hw_job_ptr_locks (pool s)
       \<and> held_slots (pool s2) = held_slots (pool s)"
proof -
  have run: "HardwareCodecDeflateQpl_flushAsynchronousDecompressRequests E hw sw s
           = Some (Inl e, hw, sw', s2)"
    unfolding HardwareCodecDeflateQpl_flushAsynchronousDecompressRequests_def
    by (subst flushAsynchronousDecompressRequests_while.simps)
       (use entry chk failed rerun in simp)
  have "pool s1 = pool s" using chk by (auto simp: do_qpl_check_job_eq)
  moreover have "pool s2 = pool (store_job job_ptr job s1)"
    using sw_decompress_pool [of E "next_in_ptr job" "available_in job" "next_out_ptr job"
        "available_out job" sw "store_job job_ptr job s1"] rerun by simp
  ultimately have l: "hw_job_ptr_locks (pool s2) = hw_job_ptr_locks (pool s)"
    by (simp add: store_job_slots)
  from run l held_slots_locks [OF l] show ?thesis by simp
qed

text \<open>
  Two pending jobs, of slots 1 and 0. The job of slot 1 has failed and its software re-run
  fails: the drain throws, both entries stay, both slots stay locked, and the job of slot 0
  is never checked.
\<close>

theorem flush_rerun_failure_strands_jobs_witness:
  "HardwareCodecDeflateQpl_flushAsynchronousDecompressRequests
     (example_env QPL_STS_OK (QPL_STS_OTHER 1) QPL_STS_OK (QPL_STS_OTHER 2) 0)
     \<lparr>decomp_async_job_map = [(1, 1), (2, 0)]\<rparr> \<lparr>sw_job = None\<rparr>
     (example_process [True, True] (\<lambda>k. 0) 0) =
   Some (Inl (Exception CANNOT_DECOMPRESS (QPL_STS_OTHER 2)),
         \<lparr>decomp_async_job_map = [(1, 1), (2, 0)]\<rparr>,
         \<lparr>sw_job = Some (example_job\<lparr>flags := {QPL_FLAG_FIRST, QPL_FLAG_LAST}\<rparr>)\<rparr>,
         (example_process [True, True] (\<lambda>k. 0) 0)
           \<lparr>calls := [Call_check 1 (QPL_STS_OTHER 1) example_job, Call_init qpl_path_software,
                       Call_execute qpl_path_software
                         (example_job\<lparr>flags := {QPL_FLAG_FIRST, QPL_FLAG_LAST}\<rparr>)]\<rparr>)
   \<and> held_slots (pool ((example_process [True, True] (\<lambda>k. 0) 0)
           \<lparr>calls := [Call_check 1 (QPL_STS_OTHER 1) example_job, Call_init qpl_path_software,
                       Call_execute qpl_path_software
                         (example_job\<lparr>flags := {QPL_FLAG_FIRST, QPL_FLAG_LAST}\<rparr>)]\<rparr>)) = {0, 1}"
proof -
  let ?E = "example_env QPL_STS_OK (QPL_STS_OTHER 1) QPL_STS_OK (QPL_STS_OTHER 2) 0"
  let ?hw = "\<lparr>decomp_async_job_map = [(1, 1), (2, 0)]\<rparr>"
  let ?start = "example_process [True, True] (\<lambda>k. 0) 0"
  let ?checked = "?start\<lparr>calls := [Call_check 1 (QPL_STS_OTHER 1) example_job]\<rparr>"
  let ?sw' = "\<lparr>sw_job = Some (example_job\<lparr>flags := {QPL_FLAG_FIRST, QPL_FLAG_LAST}\<rparr>)\<rparr>"
  let ?end = "?start\<lparr>calls := [Call_check 1 (QPL_STS_OTHER 1) example_job, Call_init qpl_path_software,
                       Call_execute qpl_path_software
                         (example_job\<lparr>flags := {QPL_FLAG_FIRST, QPL_FLAG_LAST}\<rparr>)]\<rparr>"
  have e: "decomp_async_job_map ?hw \<noteq> []" "decomp_async_job_map ?hw ! 0 = (1, 1)" by simp_all
  have c: "do_qpl_check_job ?E 1 (load_job ?start 1) ?start = (QPL_STS_OTHER 1, example_job, ?checked)"
    by (simp add: do_qpl_check_job_def example_env_simps load_job_def example_process_def
          example_pool_def)
  have f: "QPL_STS_OTHER 1 \<noteq> QPL_STS_OK" "QPL_STS_OTHER 1 \<noteq> QPL_STS_BEING_PROCESSED" by simp_all
  have r: "SoftwareCodecDeflateQpl_doDecompressData ?E (next_in_ptr example_job)
             (available_in example_job) (next_out_ptr example_job) (available_out example_job)
             \<lparr>sw_job = None\<rparr> (store_job 1 example_job ?checked)
           = (Inl (Exception CANNOT_DECOMPRESS (QPL_STS_OTHER 2)), ?sw', ?end)"
    by (simp add: SoftwareCodecDeflateQpl_doDecompressData_def getJobCodecPtr_def
          do_qpl_init_job_def do_qpl_execute_job_def example_env_simps store_job_def
          example_process_def example_pool_def example_job_def)
  have h: "held_slots (pool ?start) = {0, 1}"
    by (auto simp: held_slots_code example_process_def example_pool_def)
  from flush_rerun_failure_strands_jobs [OF e c f r] h show ?thesis by simp
qed
section \<open>Claims about the threads on the pool\<close>

text \<open>
  C3 (mutual exclusion of the slots). The threads start outside the pool, holding nothing,
  and each passes to \<^verbatim>\<open>releaseJob\<close> only job ids it holds. Then, for every interleaving of
  the steps of any number of threads: on a pool as the constructor allocates it every step
  returns, so the interleaving runs to its end; and in the state it reaches, a slot is held
  by at most one thread, a held slot has its flag set, a thread that tries a slot which
  some thread holds fails and leaves the pool as it was, and so a \<^verbatim>\<open>tryLockJob\<close> that
  succeeds is on a slot that no thread holds: between two successful acquisitions of a
  slot lies a release of it.
\<close>

theorem pool_mutual_exclusion:
  assumes init: "initial sys0"
    and protocol: "callers_release_held sched sys0"
  shows "(pool_wf (shared sys0) \<longrightarrow> (\<exists>sys. run sched sys0 = Some sys))
       \<and> (run sched sys0 = Some sys \<longrightarrow>
            (holds sys t i \<and> holds sys t' i \<longrightarrow> t' = t)
          \<and> (holds sys t i \<longrightarrow> i \<in> held_slots (shared sys))
          \<and> (holds sys t (unat index) \<and> control (threads sys t') = Try retry index
               \<and> index < max_hw_jobs (shared sys) \<longrightarrow>
             thread_step t' c sys =
               Some (sys\<lparr>threads := (threads sys)
                          (t' := (threads sys t')\<lparr>control := Draw (Some retry)\<rparr>)\<rparr>))
          \<and> (control (threads sys t') = Try retry index
               \<and> thread_step t' c sys = Some sys' \<and> control (threads sys' t') = Idle \<longrightarrow>
             \<not> holds sys t (unat index)
             \<and> handles (threads sys' t')
                 = insert (max_hw_jobs (shared sys) - index) (handles (threads sys t'))
             \<and> holds sys' t' (unat index)))"
proof (intro conjI impI)
  have ex0: "exclusive sys0" by (rule initial_exclusive [OF init])
  {
    assume wf: "pool_wf (shared sys0)"
    have "tries_in_range sys0" using wf init by (simp add: tries_in_range_def initial_def)
    then show "\<exists>sys. run sched sys0 = Some sys" by (rule run_total [OF ex0 _ protocol])
  }
  assume r: "run sched sys0 = Some sys"
  have ex: "exclusive sys" by (rule run_exclusive [OF ex0 protocol r])
  {
    assume "holds sys t i \<and> holds sys t' i"
    with ex show "t' = t" by (auto simp: exclusive_def)
  }
  {
    assume "holds sys t i"
    with ex show "i \<in> held_slots (shared sys)" by (auto simp: exclusive_def)
  }
  {
    assume a: "holds sys t (unat index) \<and> control (threads sys t') = Try retry index
               \<and> index < max_hw_jobs (shared sys)"
    show "thread_step t' c sys =
               Some (sys\<lparr>threads := (threads sys)
                          (t' := (threads sys t')\<lparr>control := Draw (Some retry)\<rparr>)\<rparr>)"
      by (rule try_held_fails [OF ex a [THEN conjunct1] a [THEN conjunct2, THEN conjunct1]
            a [THEN conjunct2, THEN conjunct2]])
  }
  assume b: "control (threads sys t') = Try retry index
               \<and> thread_step t' c sys = Some sys' \<and> control (threads sys' t') = Idle"
  then have ct: "control (threads sys t') = Try retry index"
    and st: "thread_step t' c sys = Some sys'" and idle: "control (threads sys' t') = Idle"
    by simp_all
  from st ct obtain r where tl: "tryLockJob (shared sys) index = Some r"
    by (auto simp: thread_step_def split: option.splits)
  have won: "fst r"
  proof (rule ccontr)
    assume "\<not> fst r"
    with st ct tl have "control (threads sys' t') = Draw (Some retry)"
      by (auto simp: thread_step_def)
    with idle show False by simp
  qed
  from tl won have free: "\<not> hw_job_ptr_locks (shared sys) ! unat index"
    and mx: "max_hw_jobs (snd r) = max_hw_jobs (shared sys)"
    by (auto simp: tryLockJob_def split: if_splits)
  show "\<not> holds sys t (unat index)"
  proof
    assume "holds sys t (unat index)"
    with ex have "unat index \<in> held_slots (shared sys)" by (auto simp: exclusive_def)
    with free show False by (simp add: held_slots_def)
  qed
  from st ct tl won have s': "sys' = sys\<lparr>shared := snd r,
           threads := (threads sys)
             (t' := \<lparr>control = Idle,
                    handles = insert (max_hw_jobs (snd r) - index) (handles (threads sys t'))\<rparr>)\<rparr>"
    by (simp add: thread_step_def)
  show "handles (threads sys' t')
          = insert (max_hw_jobs (shared sys) - index) (handles (threads sys t'))"
    by (simp add: s' mx)
  show "holds sys' t' (unat index)"
    by (simp add: s' mx holds_def slot_of_def)
qed

theorem pool_mutual_exclusion_witness:
  "initial (example_system Idle {} Idle {} [False, False])
   \<and> callers_release_held [(0, Acquire), (0, Acquire), (0, Acquire), (1, Acquire), (1, Acquire)]
        (example_system Idle {} Idle {} [False, False])
   \<and> pool_wf (shared (example_system Idle {} Idle {} [False, False]))
   \<and> run [(0, Acquire), (0, Acquire), (0, Acquire), (1, Acquire), (1, Acquire)]
        (example_system Idle {} Idle {} [False, False])
       = Some (example_system Idle {2} (Try 0 0) {} [True, False])
   \<and> holds (example_system Idle {2} (Try 0 0) {} [True, False]) 0 0
   \<and> 0 \<in> held_slots (shared (example_system Idle {2} (Try 0 0) {} [True, False]))
   \<and> thread_step 1 Acquire (example_system Idle {2} (Try 0 0) {} [True, False])
       = Some (example_system Idle {2} (Draw (Some 0)) {} [True, False])"
proof -
  let ?start = "example_system Idle {} Idle {} [False, False]"
  let ?reached = "example_system Idle {2} (Try 0 0) {} [True, False]"
  let ?steps = "[(0, Acquire), (0, Acquire), (0, Acquire), (1, Acquire), (1, Acquire)]"
  have i: "initial ?start" by (rule example_system_initial)
  have p: "callers_release_held ?steps ?start" by (rule example_system_protocol)
  have w: "pool_wf (shared ?start)" by (rule example_system_wf)
  have r: "run ?steps ?start = Some ?reached" by (rule example_system_run)
  have h: "holds ?reached 0 0" by (simp add: holds_def slot_of_def example_system_def example_pool_def)
  have c: "control (threads ?reached 1) = Try 0 0 \<and> (0 :: UInt32) < max_hw_jobs (shared ?reached)"
    by (simp add: example_system_def example_pool_def)
  note T = pool_mutual_exclusion [OF i p, where sys = ?reached and t = 0 and t' = 1 and i = 0
      and index = 0 and retry = 0 and c = Acquire]
  from T r h have 1: "0 \<in> held_slots (shared ?reached)" by blast
  from T r h c have "thread_step 1 Acquire ?reached =
      Some (?reached\<lparr>threads := (threads ?reached)(1 := (threads ?reached 1)\<lparr>control := Draw (Some 0)\<rparr>)\<rparr>)"
    by simp
  also have "?reached\<lparr>threads := (threads ?reached)(1 := (threads ?reached 1)\<lparr>control := Draw (Some 0)\<rparr>)\<rparr>
      = example_system Idle {2} (Draw (Some 0)) {} [True, False]"
    by (simp add: example_system_def fun_eq_iff)
  finally have 2: "thread_step 1 Acquire ?reached
       = Some (example_system Idle {2} (Draw (Some 0)) {} [True, False])" .
  from i p w r h 1 2 show ?thesis by blast
qed

end
